(* ===== verification/Prelude_Base.thy ===== *)
theory Prelude_Base
  imports Main "HOL-Library.Word" "HOL-Library.Sublist" "HOL-Library.AList"
begin

text \<open>
  Shared vocabulary of the development: the machine integers and byte strings of the Rust
  code, the result of a fallible call, the panic outcome, and the generic facts on lists,
  association lists and words that the components share.

  Rust's \<open>String\<close> and \<open>Vec<u8>\<close> are both modelled by \<open>string\<close>: a HOL character is one
  byte, a Rust string is its UTF-8 encoding, so \<open>as_bytes\<close> and \<open>into_bytes\<close> are the
  identity and \<open>len\<close> is \<open>length\<close>.
\<close>

section \<open>Collections of facts\<close>

named_theorems step_defs \<open>definitions of the state transformers, unfolded by hand\<close>
named_theorems frame_simps \<open>fields a state transformer leaves alone\<close>
named_theorems buf_simps \<open>characterisations of the bounded buffers\<close>

section \<open>Machine integers and byte strings\<close>

type_synonym u8 = "8 word"
type_synonym u16 = "16 word"
type_synonym u32 = "32 word"
type_synonym u64 = "64 word"

type_synonym bytes = string
type_synonym byte_vector = "bytes list"
type_synonym string_vector = "string list"

type_synonym seconds = u64
type_synonym nonce = u64
type_synonym port = u16

text \<open>\<open>u64::saturating_add\<close> and \<open>u64::saturating_sub\<close>.\<close>

definition saturating_add :: "u64 \<Rightarrow> u64 \<Rightarrow> u64" where
  "saturating_add a b = (if a \<le> a + b then a + b else - 1)"

definition saturating_sub :: "u64 \<Rightarrow> u64 \<Rightarrow> u64" where
  "saturating_sub a b = (if b \<le> a then a - b else 0)"

lemma unat_max_u64: "unat (- 1 :: u64) = 2 ^ 64 - 1"
  by (simp add: unsigned_minus_1_eq_mask mask_eq_exp_minus_1)

lemma unat_u64_le: "unat (w :: u64) \<le> 2 ^ 64 - 1"
proof -
  have "unat w < 2 ^ 64" using unsigned_less [of w] by simp
  then show ?thesis by simp
qed

lemma unat_saturating_add:
  "unat (saturating_add a b) = min (unat a + unat b) (2 ^ 64 - 1)"
proof (cases "unat a + unat b < 2 ^ 64")
  case True
  then have "unat (a + b) = unat a + unat b"
    by (simp add: unat_word_ariths)
  moreover from this have "a \<le> a + b"
    by (simp add: word_le_nat_alt)
  ultimately show ?thesis
    using True by (simp add: saturating_add_def)
next
  case False
  have "unat a < 2 ^ 64" "unat b < 2 ^ 64"
    using unsigned_less [of a] unsigned_less [of b] by simp_all
  with False have "unat (a + b) = unat a + unat b - 2 ^ 64"
    by (simp add: unat_word_ariths mod_if)
  with \<open>unat b < 2 ^ 64\<close> False have "\<not> a \<le> a + b"
    by (simp add: word_le_nat_alt)
  with False show ?thesis
    using unat_max_u64 by (simp add: saturating_add_def)
qed

lemma saturating_add_ge [simp]: "a \<le> saturating_add a b"
  by (auto simp: saturating_add_def)

lemma saturating_add_1_gt: "a \<noteq> - 1 \<Longrightarrow> a < saturating_add a 1"
proof -
  assume a: "a \<noteq> - 1"
  have "unat a \<noteq> 2 ^ 64 - 1"
  proof
    assume "unat a = 2 ^ 64 - 1"
    then have "unat a = unat (- 1 :: u64)" using unat_max_u64 by simp
    then show False using a unsigned_word_eqI by blast
  qed
  moreover have "unat a < 2 ^ 64" using unsigned_less [of a] by simp
  ultimately show ?thesis
    by (simp add: word_less_nat_alt unat_saturating_add)
qed

section \<open>Results, panics\<close>

text \<open>
  A \<open>Result\<close> is a sum (\<open>Inl\<close> the error). A computation that can panic returns an option,
  \<open>None\<close> being the panic: the task that runs it is gone, with every effect it had not yet
  made visible.
\<close>

type_synonym ('e, 'a) result = "'e + 'a"

definition is_ok :: "('e, 'a) result \<Rightarrow> bool" where
  "is_ok r = (case r of Inl _ \<Rightarrow> False | Inr _ \<Rightarrow> True)"

lemma is_ok_simps [simp]: "is_ok (Inl e) = False" "is_ok (Inr x) = True"
  by (simp_all add: is_ok_def)

text \<open>Slice indexing \<open>xs[i]\<close> and \<open>xs[i..]\<close>: both panic out of range.\<close>

definition index :: "'a list \<Rightarrow> nat \<Rightarrow> 'a option" where
  "index xs i = (if i < length xs then Some (xs ! i) else None)"

definition slice_from :: "'a list \<Rightarrow> nat \<Rightarrow> 'a list option" where
  "slice_from xs i = (if i \<le> length xs then Some (drop i xs) else None)"

lemma index_Some_iff: "index xs i = Some x \<longleftrightarrow> i < length xs \<and> xs ! i = x"
  by (auto simp: index_def)

lemma index_None_iff: "index xs i = None \<longleftrightarrow> length xs \<le> i"
  by (auto simp: index_def)

lemma slice_from_Some_iff: "slice_from xs i = Some ys \<longleftrightarrow> i \<le> length xs \<and> ys = drop i xs"
  by (auto simp: slice_from_def)

lemma slice_from_None_iff: "slice_from xs i = None \<longleftrightarrow> length xs < i"
  by (auto simp: slice_from_def)

lemmas slice_iffs = index_Some_iff index_None_iff slice_from_Some_iff slice_from_None_iff

section \<open>Lists and association lists\<close>

lemma length_update_le: "length (AList.update k v al) \<le> Suc (length al)"
  by (induction al) auto

lemma length_update_mem: "k \<in> fst ` set al \<Longrightarrow> length (AList.update k v al) = length al"
  by (induction al) auto

lemma length_update_fresh: "k \<notin> fst ` set al \<Longrightarrow> length (AList.update k v al) = Suc (length al)"
  by (induction al) auto

lemma length_AList_delete_le: "length (AList.delete k al) \<le> length al"
  by (simp add: AList.delete_eq)

lemma prefix_take_enough:
  assumes "prefix s (x @ y)" and "length s \<le> length x"
  shows "prefix s x"
  using assms by (meson prefix_length_prefix prefixI)

lemma hd_in_set_conv: "xs \<noteq> [] \<Longrightarrow> \<exists>y ys. xs = y # ys"
  by (cases xs) auto

lemma foldl_invariant:
  assumes "P s" and "\<And>s x. P s \<Longrightarrow> x \<in> set xs \<Longrightarrow> P (f s x)"
  shows "P (foldl f s xs)"
  using assms by (induction xs arbitrary: s) auto

end
