(* ===== verification/Rust_Text.thy ===== *)
theory Rust_Text
  imports Prelude_Base
begin

text \<open>
  The part of Rust's string library that the code uses: UTF-8 validation and lossy
  decoding, splitting and joining on a separator, trimming, and decimal numbers.
  The locale \<open>delimiter\<close> is the contract of a separator; the codecs of the program
  interpret it on the delimiter constants of \<open>Core\<close>.
\<close>

section \<open>UTF-8\<close>

definition code_of :: "char \<Rightarrow> nat" where
  "code_of c = of_char c"

text \<open>The byte at an offset, 0 when there is none (\<open>safe_get\<close> of \<open>Utf8Chunks\<close>).\<close>

definition byte_at :: "string \<Rightarrow> nat \<Rightarrow> nat" where
  "byte_at s i = (if i < length s then code_of (s ! i) else 0)"

definition cont_byte :: "nat \<Rightarrow> bool" where
  "cont_byte b = (128 \<le> b \<and> b < 192)"

definition second_of_3 :: "nat \<Rightarrow> nat \<Rightarrow> bool" where
  "second_of_3 b b1 =
     (if b = 224 then 160 \<le> b1 \<and> b1 < 192
      else if b = 237 then 128 \<le> b1 \<and> b1 < 160
      else cont_byte b1)"

definition second_of_4 :: "nat \<Rightarrow> nat \<Rightarrow> bool" where
  "second_of_4 b b1 =
     (if b = 240 then 144 \<le> b1 \<and> b1 < 192
      else if b = 244 then 128 \<le> b1 \<and> b1 < 144
      else cont_byte b1)"

text \<open>
  The first sequence of a non-empty string: how many bytes it takes, and whether they are
  one well-formed character. An ill-formed sequence is the longest prefix that could have
  started a character, as the standard library cuts it.
\<close>

definition utf8_seq :: "nat \<Rightarrow> nat \<Rightarrow> nat \<Rightarrow> nat \<Rightarrow> nat \<times> bool" where
  "utf8_seq b b1 b2 b3 =
     (if b < 128 then (1, True)
      else if 194 \<le> b \<and> b < 224 then
        (if cont_byte b1 then (2, True) else (1, False))
      else if 224 \<le> b \<and> b < 240 then
        (if \<not> second_of_3 b b1 then (1, False)
         else if \<not> cont_byte b2 then (2, False) else (3, True))
      else if 240 \<le> b \<and> b < 245 then
        (if \<not> second_of_4 b b1 then (1, False)
         else if \<not> cont_byte b2 then (2, False)
         else if \<not> cont_byte b3 then (3, False) else (4, True))
      else (1, False))"

definition utf8_head :: "string \<Rightarrow> nat \<times> bool" where
  "utf8_head s = utf8_seq (byte_at s 0) (byte_at s 1) (byte_at s 2) (byte_at s 3)"

definition replacement_char :: string where
  "replacement_char = map char_of [239, 191, 189 :: nat]"

function utf8_valid :: "string \<Rightarrow> bool" where
  "utf8_valid [] = True"
| "utf8_valid (c # cs) =
     (let h = utf8_head (c # cs) in snd h \<and> utf8_valid (drop (fst h - 1) cs))"
  by pat_completeness auto
termination by (relation "measure length") auto

function from_utf8_lossy :: "string \<Rightarrow> string" where
  "from_utf8_lossy [] = []"
| "from_utf8_lossy (c # cs) =
     (let h = utf8_head (c # cs) in
      (if snd h then take (fst h) (c # cs) else replacement_char)
        @ from_utf8_lossy (drop (fst h - 1) cs))"
  by pat_completeness auto
termination by (relation "measure length") auto

definition from_utf8 :: "string \<Rightarrow> string option" where
  "from_utf8 s = (if utf8_valid s then Some s else None)"

definition ascii :: "string \<Rightarrow> bool" where
  "ascii s = list_all (\<lambda>c. code_of c < 128) s"

lemma utf8_head_pos: "0 < fst (utf8_head s)"
  by (simp add: utf8_head_def utf8_seq_def)

lemma utf8_head_ascii: "code_of c < 128 \<Longrightarrow> utf8_head (c # cs) = (1, True)"
  by (simp add: utf8_head_def utf8_seq_def byte_at_def)

lemma from_utf8_lossy_valid: "utf8_valid s \<Longrightarrow> from_utf8_lossy s = s"
proof (induction s rule: utf8_valid.induct)
  case 1
  then show ?case by simp
next
  case (2 c cs)
  let ?n = "fst (utf8_head (c # cs))"
  have n: "?n = Suc (?n - 1)" using utf8_head_pos [of "c # cs"] by simp
  have valid: "snd (utf8_head (c # cs))" "utf8_valid (drop (?n - 1) cs)"
    using 2 by (auto simp: Let_def)
  have "from_utf8_lossy (c # cs) = take ?n (c # cs) @ drop (?n - 1) cs"
    using 2 valid by (simp add: Let_def)
  also have "take ?n (c # cs) @ drop (?n - 1) cs = c # cs"
    using n by (metis append_take_drop_id drop_Suc_Cons)
  finally show ?case .
qed

lemma ascii_utf8_valid: "ascii s \<Longrightarrow> utf8_valid s"
  by (induction s) (auto simp: ascii_def utf8_head_ascii Let_def)

lemma byte_at_append: "i < length s \<Longrightarrow> byte_at (s @ t) i = byte_at s i"
  by (simp add: byte_at_def nth_append)

lemma byte_at_beyond: "length s \<le> i \<Longrightarrow> byte_at s i = 0"
  by (simp add: byte_at_def)

lemma utf8_seq_last:
  assumes "utf8_seq b b1 b2 b3 = (n, True)"
  shows "n = 1 \<or> n = 2 \<and> cont_byte b1 \<or> n = 3 \<and> cont_byte b2 \<or> n = 4 \<and> cont_byte b3"
  using assms by (simp add: utf8_seq_def split: if_splits)

lemma utf8_seq_cong:
  "utf8_seq b b1 b2 b3 = (1, True) \<Longrightarrow> utf8_seq b c1 c2 c3 = (1, True)"
  "utf8_seq b b1 b2 b3 = (2, True) \<Longrightarrow> utf8_seq b b1 c2 c3 = (2, True)"
  "utf8_seq b b1 b2 b3 = (3, True) \<Longrightarrow> utf8_seq b b1 b2 c3 = (3, True)"
  by (simp_all add: utf8_seq_def split: if_splits)

lemma cont_byte_at: "cont_byte (byte_at s i) \<Longrightarrow> i < length s"
  by (simp add: cont_byte_def byte_at_def split: if_splits)

lemma utf8_head_cases:
  assumes "s \<noteq> []" and "snd (utf8_head s)"
  obtains (1) "utf8_head s = (1, True)" "0 < length s"
    | (2) "utf8_head s = (2, True)" "1 < length s"
    | (3) "utf8_head s = (3, True)" "2 < length s"
    | (4) "utf8_head s = (4, True)" "3 < length s"
proof -
  obtain n where n: "utf8_head s = (n, True)" using assms(2) by (cases "utf8_head s") auto
  have "n = 1 \<or> n = 2 \<and> cont_byte (byte_at s 1) \<or> n = 3 \<and> cont_byte (byte_at s 2)
      \<or> n = 4 \<and> cont_byte (byte_at s 3)"
    using n by (intro utf8_seq_last) (simp add: utf8_head_def)
  then show thesis using assms(1) n that cont_byte_at by blast
qed

lemma utf8_head_length:
  assumes "s \<noteq> []" and "snd (utf8_head s)"
  shows "fst (utf8_head s) \<le> length s"
  using assms by (cases rule: utf8_head_cases) (simp_all add: Suc_le_eq)

lemma utf8_head_append:
  assumes "s \<noteq> []" and "snd (utf8_head s)"
  shows "utf8_head (s @ t) = utf8_head s"
  using assms
proof (cases rule: utf8_head_cases)
  case 1
  then show ?thesis
    using utf8_seq_cong(1) by (fastforce simp: utf8_head_def byte_at_append)
next
  case 2
  then have "byte_at (s @ t) 0 = byte_at s 0" "byte_at (s @ t) 1 = byte_at s 1"
    by (auto intro: byte_at_append)
  with 2 show ?thesis
    using utf8_seq_cong(2) by (fastforce simp: utf8_head_def)
next
  case 3
  then have "byte_at (s @ t) 0 = byte_at s 0" "byte_at (s @ t) 1 = byte_at s 1"
    "byte_at (s @ t) 2 = byte_at s 2"
    by (auto intro: byte_at_append)
  with 3 show ?thesis
    using utf8_seq_cong(3) by (fastforce simp: utf8_head_def)
next
  case 4
  then have "byte_at (s @ t) 0 = byte_at s 0" "byte_at (s @ t) 1 = byte_at s 1"
    "byte_at (s @ t) 2 = byte_at s 2" "byte_at (s @ t) 3 = byte_at s 3"
    by (auto intro: byte_at_append)
  then show ?thesis by (simp add: utf8_head_def)
qed

lemma utf8_valid_append: "utf8_valid s \<Longrightarrow> utf8_valid t \<Longrightarrow> utf8_valid (s @ t)"
proof (induction s rule: utf8_valid.induct)
  case (2 c cs)
  let ?n = "fst (utf8_head (c # cs))"
  have ok: "snd (utf8_head (c # cs))" and v: "utf8_valid (drop (?n - 1) cs)"
    using "2.prems" by (auto simp: Let_def)
  have h: "utf8_head (c # cs @ t) = utf8_head (c # cs)"
    using utf8_head_append [of "c # cs" t] ok by simp
  have "?n \<le> length (c # cs)" by (rule utf8_head_length) (use ok in auto)
  then have "?n - 1 - length cs = 0" by simp
  then have d: "drop (?n - 1) (cs @ t) = drop (?n - 1) cs @ t"
    by (simp only: drop_append) simp
  have "utf8_valid (drop (?n - 1) cs @ t)"
    by (rule "2.IH") (use v "2.prems" in auto)
  then have "utf8_valid (drop (?n - 1) (cs @ t))" by (simp only: d)
  then show ?case using ok by (simp add: Let_def h del: drop_append)
qed simp

lemma from_utf8_lossy_ascii: "ascii s \<Longrightarrow> from_utf8_lossy s = s"
  by (simp add: from_utf8_lossy_valid ascii_utf8_valid)

lemma ascii_append [simp]: "ascii (s @ t) \<longleftrightarrow> ascii s \<and> ascii t"
  by (simp add: ascii_def)

section \<open>Splitting and joining\<close>

text \<open>\<open>str::split(sep)\<close> for a non-empty pattern: leftmost, non-overlapping matches.\<close>

fun split_on :: "string \<Rightarrow> string \<Rightarrow> string list" where
  "split_on sep [] = [[]]"
| "split_on sep (c # cs) =
     (if prefix sep (c # cs) then [] # split_on sep (drop (length sep - 1) cs)
      else (case split_on sep cs of [] \<Rightarrow> [[c]] | p # ps \<Rightarrow> (c # p) # ps))"

text \<open>\<open>[_]::join(sep)\<close>.\<close>

fun join_with :: "string \<Rightarrow> string list \<Rightarrow> string" where
  "join_with sep [] = []"
| "join_with sep [x] = x"
| "join_with sep (x # y # xs) = x @ sep @ join_with sep (y # xs)"

lemma utf8_valid_join: "utf8_valid sep \<Longrightarrow> list_all utf8_valid ps \<Longrightarrow> utf8_valid (join_with sep ps)"
  by (induction ps rule: induct_list012) (auto intro: utf8_valid_append)

text \<open>
  A part is clean for a separator when the separator, appended to the part, is found
  there at its end only. A part without any character of the separator is clean.
\<close>

fun clean :: "string \<Rightarrow> string \<Rightarrow> bool" where
  "clean sep [] = True"
| "clean sep (c # cs) = (\<not> prefix sep ((c # cs) @ sep) \<and> clean sep cs)"

lemma split_on_nonempty [simp]: "split_on sep s \<noteq> []"
  by (cases s) (auto split: list.splits)

lemma clean_disjoint: "sep \<noteq> [] \<Longrightarrow> set p \<inter> set sep = {} \<Longrightarrow> clean sep p"
proof (induction p)
  case (Cons c cs)
  then have "\<not> prefix sep ((c # cs) @ sep)"
    by (cases sep) auto
  with Cons show ?case by auto
qed simp

lemma clean_split: "sep \<noteq> [] \<Longrightarrow> clean sep p \<Longrightarrow> split_on sep p = [p]"
proof (induction p)
  case (Cons c cs)
  have "\<not> prefix sep (c # cs)"
    using Cons.prems(2) by (auto dest: prefix_prefix [where ys = "c # cs" and zs = sep])
  with Cons show ?case by simp
qed simp

lemma clean_split_append:
  assumes "sep \<noteq> []" and "clean sep p"
  shows "split_on sep (p @ sep @ rest) = p # split_on sep rest"
  using assms(2)
proof (induction p)
  case Nil
  obtain x xs where s: "sep = x # xs" using assms(1) by (cases sep) auto
  show ?case by (simp add: s)
next
  case (Cons c cs)
  have "\<not> prefix sep (c # cs @ sep @ rest)"
  proof
    assume "prefix sep (c # cs @ sep @ rest)"
    then have "prefix sep ((c # cs @ sep) @ rest)" by simp
    then have "prefix sep (c # cs @ sep)"
      by (rule prefix_take_enough) simp
    with Cons.prems show False by simp
  qed
  with Cons show ?case by simp
qed

lemma join_split: "sep \<noteq> [] \<Longrightarrow> join_with sep (split_on sep s) = s"
proof (induction sep s rule: split_on.induct)
  case (2 sep c cs)
  show ?case
  proof (cases "prefix sep (c # cs)")
    case True
    then obtain rest where r: "c # cs = sep @ rest" by (auto elim: prefixE)
    obtain x xs where s: "sep = x # xs" using 2 by (cases sep) auto
    have rest: "drop (length sep - 1) cs = rest" using r s by simp
    with 2 True have "join_with sep (split_on sep rest) = rest" by simp
    moreover obtain p ps where "split_on sep rest = p # ps"
      using split_on_nonempty by (meson neq_Nil_conv)
    moreover have "split_on sep (c # cs) = [] # split_on sep rest"
      using True rest by simp
    ultimately have "join_with sep (split_on sep (c # cs)) = sep @ rest" by simp
    then show ?thesis by (simp only: r)
  next
    case False
    obtain p ps where p: "split_on sep cs = p # ps"
      using split_on_nonempty by (meson neq_Nil_conv)
    have "join_with sep (p # ps) = cs" using 2 False p by simp
    then have "join_with sep ((c # p) # ps) = c # cs" by (cases ps) auto
    with False p show ?thesis by simp
  qed
qed simp

text \<open>The contract of a separator, and what a codec built on it gets.\<close>

locale delimiter =
  fixes sep :: string
  assumes sep_nonempty: "sep \<noteq> []"
begin

lemma split_join:
  assumes "ps \<noteq> []" and "\<And>p. p \<in> set ps \<Longrightarrow> clean sep p"
  shows "split_on sep (join_with sep ps) = ps"
  using assms
proof (induction ps rule: induct_list012)
  case (2 x)
  then show ?case by (simp add: clean_split sep_nonempty)
next
  case (3 x y zs)
  then have "split_on sep (join_with sep (y # zs)) = y # zs" by auto
  with 3 show ?case by (simp add: clean_split_append sep_nonempty)
qed simp

lemma join_inject:
  assumes "ps \<noteq> []" "qs \<noteq> []"
    and "\<And>p. p \<in> set ps \<Longrightarrow> clean sep p" "\<And>q. q \<in> set qs \<Longrightarrow> clean sep q"
    and "join_with sep ps = join_with sep qs"
  shows "ps = qs"
  using assms split_join by metis

lemma head_part:
  assumes "clean sep p" and "ps \<noteq> []"
  shows "split_on sep (join_with sep (p # ps)) = p # split_on sep (join_with sep ps)"
  using assms by (cases ps) (simp_all add: clean_split_append sep_nonempty)

lemma parts_join: "join_with sep (split_on sep s) = s"
  by (rule join_split) (rule sep_nonempty)

end

section \<open>Trimming\<close>

text \<open>The UTF-8 encodings of the characters with the property \<open>White_Space\<close>.\<close>

definition ws_encodings :: "string list" where
  "ws_encodings = map (map char_of)
     ([[9], [10], [11], [12], [13], [32], [194, 133], [194, 160], [225, 154, 128],
       [226, 128, 128], [226, 128, 129], [226, 128, 130], [226, 128, 131], [226, 128, 132],
       [226, 128, 133], [226, 128, 134], [226, 128, 135], [226, 128, 136], [226, 128, 137],
       [226, 128, 138], [226, 128, 168], [226, 128, 169], [226, 128, 175], [226, 129, 159],
       [227, 128, 128]] :: nat list list)"

definition ws_prefix_len :: "string list \<Rightarrow> string \<Rightarrow> nat" where
  "ws_prefix_len encs s = (case find (\<lambda>w. prefix w s) encs of None \<Rightarrow> 0 | Some w \<Rightarrow> length w)"

function strip_start :: "string list \<Rightarrow> string \<Rightarrow> string" where
  "strip_start encs s =
     (let n = ws_prefix_len encs s in
      if n = 0 \<or> s = [] then s else strip_start encs (drop n s))"
  by pat_completeness auto
termination by (relation "measure (\<lambda>(encs, s). length s)") auto

declare strip_start.simps [simp del]

definition trim :: "string \<Rightarrow> string" where
  "trim s = rev (strip_start (map rev ws_encodings) (rev (strip_start ws_encodings s)))"

text \<open>\<open>trim_matches(|c| c == '[' || c == ']')\<close>.\<close>

definition trim_brackets :: "string \<Rightarrow> string" where
  "trim_brackets s =
     (let br = (\<lambda>c. c = CHR ''['' \<or> c = CHR '']'') in
      rev (dropWhile br (rev (dropWhile br s))))"

section \<open>Decimal numbers\<close>

definition digit_char :: "nat \<Rightarrow> char" where
  "digit_char d = char_of (48 + d)"

fun show_nat :: "nat \<Rightarrow> string" where
  "show_nat n = (if n < 10 then [digit_char n] else show_nat (n div 10) @ [digit_char (n mod 10)])"

declare show_nat.simps [simp del]

fun digits_val :: "nat \<Rightarrow> string \<Rightarrow> nat option" where
  "digits_val acc [] = Some acc"
| "digits_val acc (c # cs) =
     (if 48 \<le> code_of c \<and> code_of c \<le> 57 then digits_val (10 * acc + (code_of c - 48)) cs
      else None)"

text \<open>\<open>str::parse\<close> for an unsigned type with the given maximum: an optional \<open>+\<close>, then
  at least one digit, and no overflow.\<close>

definition parse_uint :: "nat \<Rightarrow> string \<Rightarrow> nat option" where
  "parse_uint mx s =
     (let t = (case s of c # d # cs \<Rightarrow> if c = CHR ''+'' then d # cs else s | _ \<Rightarrow> s) in
      if t = [] then None
      else (case digits_val 0 t of
              None \<Rightarrow> None
            | Some n \<Rightarrow> if n \<le> mx then Some n else None))"

definition parse_u64 :: "string \<Rightarrow> u64 option" where
  "parse_u64 s = map_option of_nat (parse_uint (2 ^ 64 - 1) s)"

definition parse_u16 :: "string \<Rightarrow> u16 option" where
  "parse_u16 s = map_option of_nat (parse_uint (2 ^ 16 - 1) s)"

definition parse_u8 :: "string \<Rightarrow> nat option" where
  "parse_u8 s = parse_uint 255 s"

definition show_u64 :: "u64 \<Rightarrow> string" where
  "show_u64 w = show_nat (unat w)"

lemma code_of_digit [simp]: "d < 10 \<Longrightarrow> code_of (digit_char d) = 48 + d"
  by (simp add: code_of_def digit_char_def)

lemma digits_val_append:
  "digits_val a (xs @ ys) = Option.bind (digits_val a xs) (\<lambda>b. digits_val b ys)"
  by (induction xs arbitrary: a) auto

lemma digits_val_show: "digits_val 0 (show_nat n) = Some n"
proof (induction n rule: show_nat.induct)
  case (1 n)
  show ?case
  proof (cases "n < 10")
    case True
    then show ?thesis by (simp add: show_nat.simps [of n])
  next
    case False
    then have "digits_val 0 (show_nat (n div 10)) = Some (n div 10)" by (rule 1)
    with False show ?thesis
      by (simp add: show_nat.simps [of n] digits_val_append)
  qed
qed

lemma show_nat_digits: "c \<in> set (show_nat n) \<Longrightarrow> 48 \<le> code_of c \<and> code_of c \<le> 57"
proof (induction n rule: show_nat.induct)
  case (1 n)
  show ?case
  proof (cases "n < 10")
    case True
    with "1.prems" show ?thesis by (simp add: show_nat.simps [of n])
  next
    case False
    with 1 show ?thesis by (auto simp: show_nat.simps [of n])
  qed
qed

lemma show_nat_nonempty [simp]: "show_nat n \<noteq> []"
  by (subst show_nat.simps) simp

lemma show_nat_no_plus: "show_nat n = c # cs \<Longrightarrow> c \<noteq> CHR ''+''"
  using show_nat_digits [of c n] by (auto simp: code_of_def)

lemma parse_show: "n \<le> mx \<Longrightarrow> parse_uint mx (show_nat n) = Some n"
proof -
  assume n: "n \<le> mx"
  have "(case show_nat n of c # d # cs \<Rightarrow> if c = CHR ''+'' then d # cs else show_nat n
         | _ \<Rightarrow> show_nat n) = show_nat n"
    using show_nat_no_plus [of n] by (auto split: list.splits)
  with n show ?thesis
    by (simp add: parse_uint_def digits_val_show)
qed

lemma parse_show_u64 [simp]: "parse_u64 (show_u64 w) = Some w"
proof -
  from parse_show [OF unat_u64_le [of w]] show ?thesis
    by (simp add: parse_u64_def show_u64_def)
qed

lemma show_u64_ascii: "ascii (show_u64 w)"
  using show_nat_digits by (fastforce simp: ascii_def show_u64_def list_all_iff)

lemma clean_show_u64:
  assumes "sep \<noteq> []" and "\<And>c. c \<in> set sep \<Longrightarrow> code_of c < 48 \<or> 57 < code_of c"
  shows "clean sep (show_u64 w)"
proof (rule clean_disjoint [OF assms(1)])
  show "set (show_u64 w) \<inter> set sep = {}"
    using assms(2) show_nat_digits by (fastforce simp: show_u64_def)
qed

section \<open>Lower case\<close>

text \<open>
  \<open>str::to_lowercase\<close> as far as the result can be an ASCII word: the capital letters,
  and the Kelvin sign (U+212A), whose lower case is \<open>k\<close>. Every other character that is
  not ASCII keeps a non-ASCII byte, so it can never make the result equal an ASCII word.
\<close>

definition lower_char :: "char \<Rightarrow> char" where
  "lower_char c =
     (if 65 \<le> code_of c \<and> code_of c \<le> 90 then char_of (code_of c + 32) else c)"

fun to_lowercase :: "string \<Rightarrow> string" where
  "to_lowercase [] = []"
| "to_lowercase (c # cs) =
     (if prefix (map char_of [226, 132, 170 :: nat]) (c # cs)
      then CHR ''k'' # to_lowercase (drop 2 cs)
      else lower_char c # to_lowercase cs)"

end
