(* ===== verification/BTree_Model.thy ===== *)
theory BTree_Model
  imports Rust_Text "HOL-Library.List_Lexorder" "HOL-Library.Char_ord"
begin

text \<open>
  \<open>BTreeSet\<close> and \<open>BTreeMap\<close> of the Rust standard library as lists in strictly increasing
  key order. The order of a \<open>BTreeSet\<close> is the element type's \<open>Ord\<close>, given here by a key
  function, because \<open>ReplBufferData\<close> compares by two of its fields only: inserting an
  element whose key is present leaves the set unchanged, as \<open>BTreeSet::insert\<close> does.
  The locale \<open>ordered_store\<close> is the contract the replica buffer relies on.
\<close>

section \<open>Sets ordered by a key\<close>

fun bset_insert :: "('v \<Rightarrow> 'k::linorder) \<Rightarrow> 'v \<Rightarrow> 'v list \<Rightarrow> 'v list" where
  "bset_insert key x [] = [x]"
| "bset_insert key x (y # ys) =
     (if key x < key y then x # y # ys
      else if key x = key y then y # ys
      else y # bset_insert key x ys)"

fun bset_remove :: "('v \<Rightarrow> 'k::linorder) \<Rightarrow> 'v \<Rightarrow> 'v list \<Rightarrow> 'v list" where
  "bset_remove key x [] = []"
| "bset_remove key x (y # ys) = (if key x = key y then ys else y # bset_remove key x ys)"

definition bset_first :: "'v list \<Rightarrow> 'v option" where
  "bset_first xs = (case xs of [] \<Rightarrow> None | x # _ \<Rightarrow> Some x)"

definition bset_last :: "'v list \<Rightarrow> 'v option" where
  "bset_last xs = (if xs = [] then None else Some (last xs))"

definition bset_wf :: "('v \<Rightarrow> 'k::linorder) \<Rightarrow> 'v list \<Rightarrow> bool" where
  "bset_wf key xs = sorted_wrt (<) (map key xs)"

definition bset_keys :: "('v \<Rightarrow> 'k) \<Rightarrow> 'v list \<Rightarrow> 'k set" where
  "bset_keys key xs = key ` set xs"

definition bset_of_list :: "('v \<Rightarrow> 'k::linorder) \<Rightarrow> 'v list \<Rightarrow> 'v list" where
  "bset_of_list key xs = foldl (\<lambda>s x. bset_insert key x s) [] xs"

lemma bset_wf_simps [simp]:
  "bset_wf key []"
  "bset_wf key (x # xs) \<longleftrightarrow> (\<forall>y \<in> set xs. key x < key y) \<and> bset_wf key xs"
  by (auto simp: bset_wf_def)

lemma bset_first_simps [simp]: "bset_first [] = None" "bset_first (x # xs) = Some x"
  by (simp_all add: bset_first_def)

lemma keys_bset_insert: "bset_keys key (bset_insert key x xs) = insert (key x) (bset_keys key xs)"
  unfolding bset_keys_def by (induction key x xs rule: bset_insert.induct) auto

lemma set_bset_insert: "set (bset_insert key x xs) \<subseteq> insert x (set xs)"
  by (induction key x xs rule: bset_insert.induct) auto

lemma set_bset_insert_mono: "set xs \<subseteq> set (bset_insert key x xs)"
  by (induction key x xs rule: bset_insert.induct) auto

lemma bset_insert_new: "key x \<notin> bset_keys key xs \<Longrightarrow> set (bset_insert key x xs) = insert x (set xs)"
  unfolding bset_keys_def by (induction key x xs rule: bset_insert.induct) auto

lemma bset_insert_old:
  "bset_wf key xs \<Longrightarrow> key x \<in> bset_keys key xs \<Longrightarrow> bset_insert key x xs = xs"
  unfolding bset_keys_def by (induction key x xs rule: bset_insert.induct) auto

lemma wf_bset_insert: "bset_wf key xs \<Longrightarrow> bset_wf key (bset_insert key x xs)"
proof (induction key x xs rule: bset_insert.induct)
  case (2 key x y ys)
  then show ?case
    using set_bset_insert [of key x ys] by (auto intro: order.strict_trans)
qed simp

lemma set_bset_remove:
  "bset_wf key xs \<Longrightarrow> set (bset_remove key x xs) = {y \<in> set xs. key y \<noteq> key x}"
  by (induction key x xs rule: bset_remove.induct) auto

lemma wf_bset_remove: "bset_wf key xs \<Longrightarrow> bset_wf key (bset_remove key x xs)"
  by (induction key x xs rule: bset_remove.induct) (auto simp: set_bset_remove)

lemma keys_bset_remove:
  "bset_wf key xs \<Longrightarrow> bset_keys key (bset_remove key x xs) = bset_keys key xs - {key x}"
  by (auto simp: bset_keys_def set_bset_remove)

lemma wf_bset_filter: "bset_wf key xs \<Longrightarrow> bset_wf key (filter P xs)"
  by (induction xs) auto

lemma distinct_bset_wf: "bset_wf key xs \<Longrightarrow> distinct (map key xs)"
  by (induction xs) auto

lemma length_bset_wf: "bset_wf key xs \<Longrightarrow> length xs = card (bset_keys key xs)"
proof -
  assume "bset_wf key xs"
  then have "card (set (map key xs)) = length (map key xs)"
    by (intro distinct_card distinct_bset_wf)
  then show ?thesis by (simp add: bset_keys_def)
qed

lemma wf_bset_of_list: "bset_wf key (bset_of_list key xs)"
  unfolding bset_of_list_def by (rule foldl_invariant) (auto intro: wf_bset_insert)

lemma keys_bset_of_list: "bset_keys key (bset_of_list key xs) = key ` set xs"
proof -
  have "bset_keys key (foldl (\<lambda>s x. bset_insert key x s) s xs) = bset_keys key s \<union> key ` set xs"
    for s by (induction xs arbitrary: s) (auto simp: keys_bset_insert)
  then show ?thesis by (simp add: bset_of_list_def bset_keys_def)
qed

lemma bset_insert_last:
  "bset_wf key (xs @ [x]) \<Longrightarrow> bset_insert key x xs = xs @ [x]"
  by (induction xs) (auto dest: less_imp_not_less)

lemma bset_insert_sorted_id: "bset_wf key xs \<Longrightarrow> bset_of_list key xs = xs"
proof (induction xs rule: rev_induct)
  case (snoc x xs)
  then have "bset_wf key xs" by (simp add: bset_wf_def sorted_wrt_append)
  with snoc show ?case
    using bset_insert_last [of key xs x] by (simp add: bset_of_list_def)
qed (simp add: bset_of_list_def)

section \<open>Maps ordered by their key\<close>

fun bmap_insert :: "'k::linorder \<Rightarrow> 'v \<Rightarrow> ('k \<times> 'v) list \<Rightarrow> ('k \<times> 'v) list" where
  "bmap_insert k v [] = [(k, v)]"
| "bmap_insert k v ((k', v') # kvs) =
     (if k < k' then (k, v) # (k', v') # kvs
      else if k = k' then (k, v) # kvs
      else (k', v') # bmap_insert k v kvs)"

definition bmap_remove :: "'k::linorder \<Rightarrow> ('k \<times> 'v) list \<Rightarrow> ('k \<times> 'v) list" where
  "bmap_remove k kvs = filter (\<lambda>kv. fst kv \<noteq> k) kvs"

lemma keys_bmap_insert: "bset_keys fst (bmap_insert k v kvs) = insert k (bset_keys fst kvs)"
  unfolding bset_keys_def by (induction k v kvs rule: bmap_insert.induct) auto

lemma set_bmap_insert: "set (bmap_insert k v kvs) \<subseteq> insert (k, v) (set kvs)"
  by (induction k v kvs rule: bmap_insert.induct) auto

lemma wf_bmap_insert: "bset_wf fst kvs \<Longrightarrow> bset_wf fst (bmap_insert k v kvs)"
proof (induction k v kvs rule: bmap_insert.induct)
  case (2 k v k' v' kvs)
  have above: "fst y = k \<or> y \<in> set kvs" if "y \<in> set (bmap_insert k v kvs)" for y
    using that set_bmap_insert [of k v kvs] by auto
  show ?case
  proof (cases "k < k'")
    case True
    with 2 show ?thesis by (auto intro: order.strict_trans)
  next
    case False
    have "k' < fst y" if "k \<noteq> k'" "y \<in> set (bmap_insert k v kvs)" for y
      using above [OF that(2)] that(1) False 2 by auto
    with 2 False show ?thesis by simp
  qed
qed simp

lemma map_of_bmap_insert: "map_of (bmap_insert k v kvs) = (map_of kvs)(k \<mapsto> v)"
  by (induction k v kvs rule: bmap_insert.induct) (auto simp: fun_upd_twist)

lemma map_of_bmap_remove: "map_of (bmap_remove k kvs) = (map_of kvs)(k := None)"
  by (induction kvs) (auto simp: bmap_remove_def)

section \<open>The contract of an ordered store\<close>

locale ordered_store =
  fixes ins :: "'v \<Rightarrow> 's \<Rightarrow> 's"
    and del :: "'v \<Rightarrow> 's \<Rightarrow> 's"
    and least :: "'s \<Rightarrow> 'v option"
    and len :: "'s \<Rightarrow> nat"
    and keys :: "'s \<Rightarrow> 'k::linorder set"
    and key :: "'v \<Rightarrow> 'k"
    and inv :: "'s \<Rightarrow> bool"
  assumes keys_ins: "inv s \<Longrightarrow> keys (ins x s) = insert (key x) (keys s)"
    and keys_del: "inv s \<Longrightarrow> keys (del x s) = keys s - {key x}"
    and inv_ins: "inv s \<Longrightarrow> inv (ins x s)"
    and inv_del: "inv s \<Longrightarrow> inv (del x s)"
    and finite_keys: "finite (keys s)"
    and len_keys: "inv s \<Longrightarrow> len s = card (keys s)"
    and least_None: "inv s \<Longrightarrow> least s = None \<longleftrightarrow> keys s = {}"
    and least_Some: "inv s \<Longrightarrow> least s = Some x \<Longrightarrow> key x \<in> keys s \<and> (\<forall>k \<in> keys s. key x \<le> k)"
begin

lemma least_Min: "inv s \<Longrightarrow> least s = Some x \<Longrightarrow> key x = Min (keys s)"
  using least_Some finite_keys by (metis Min_eqI)

lemma len_0_iff: "inv s \<Longrightarrow> len s = 0 \<longleftrightarrow> keys s = {}"
  by (simp add: len_keys finite_keys)

lemma least_exists: "inv s \<Longrightarrow> 0 < len s \<Longrightarrow> \<exists>x. least s = Some x"
  using least_None len_0_iff by fastforce

lemma len_del_least: "inv s \<Longrightarrow> least s = Some x \<Longrightarrow> len (del x s) = len s - 1"
  using least_Some by (simp add: len_keys inv_del keys_del finite_keys)

lemma len_del_le: "inv s \<Longrightarrow> len (del x s) \<le> len s"
  by (simp add: len_keys inv_del keys_del card_mono finite_keys)

lemma len_ins_le: "inv s \<Longrightarrow> len (ins x s) \<le> Suc (len s)"
  by (simp add: len_keys inv_ins keys_ins finite_keys card_insert_if)

lemma len_ins_below: "inv s \<Longrightarrow> len s < n \<Longrightarrow> len (ins x s) \<le> n"
  using len_ins_le [of s x] by simp

lemma del_many: "inv s \<Longrightarrow> inv (foldl (\<lambda>t x. del x t) s xs)
    \<and> keys (foldl (\<lambda>t x. del x t) s xs) = keys s - key ` set xs"
  by (induction xs arbitrary: s) (auto simp: inv_del keys_del)

lemma len_del_many: "inv s \<Longrightarrow> len (foldl (\<lambda>t x. del x t) s xs) \<le> len s"
  using del_many [of s xs] by (auto simp: len_keys card_mono finite_keys)

lemma ins_many: "inv s \<Longrightarrow> inv (foldl (\<lambda>t x. ins x t) s xs)
    \<and> keys (foldl (\<lambda>t x. ins x t) s xs) = keys s \<union> key ` set xs"
  by (induction xs arbitrary: s) (auto simp: inv_ins keys_ins)

end

text \<open>\<open>BTreeMap\<close> keeps the contract with the entries as elements.\<close>

interpretation btree_map: ordered_store
  "\<lambda>kv. bmap_insert (fst kv) (snd kv)" "\<lambda>kv. bmap_remove (fst kv)" bset_first length
  "bset_keys fst" fst "bset_wf fst"
proof (unfold_locales, goal_cases)
  case (1 s x) show ?case by (rule keys_bmap_insert)
next
  case (2 s x) show ?case by (auto simp: bset_keys_def bmap_remove_def)
next
  case (3 s x) then show ?case by (rule wf_bmap_insert)
next
  case (4 s x) then show ?case by (simp add: bmap_remove_def wf_bset_filter)
next
  case (5 s) show ?case by (simp add: bset_keys_def)
next
  case (6 s) then show ?case by (rule length_bset_wf)
next
  case (7 s) show ?case by (simp add: bset_first_def bset_keys_def split: list.splits)
next
  case (8 s x) then show ?case by (cases s) (auto simp: bset_keys_def intro: less_imp_le)
qed

end
