(* ===== verification/Net_Types.thy ===== *)
theory Net_Types
  imports Rust_Text
begin

text \<open>
  The data types of \<open>swarm-nl/src/prelude.rs\<close> and \<open>swarm-nl/src/core/prelude.rs\<close>:
  errors, requests, responses, events, and the configuration of the protocols, with the
  constructors of the source (a suffix where two enums share a name).

  Types of libp2p are carried as opaque data: a \<open>PeerId\<close> is the byte string of its
  multihash, a \<open>Multiaddr\<close> its text, the identifiers of listeners and connections are
  numbers, a duration or an instant a number. Their text forms are not computed here:
  \<open>codecs\<close> collects the conversions that libp2p, base58 and serde_json provide, and every
  definition that needs one takes it as an argument.
\<close>

section \<open>Opaque data of libp2p\<close>

datatype peer_id = PeerId bytes

type_synonym peer_id_string = string
type_synonym multiaddr_string = string
type_synonym multiaddr = string
type_synonym listener_id = nat
type_synonym connection_id = nat
type_synonym duration = nat
type_synonym instant = nat
type_synonym public_key = bytes
type_synonym msg_id = string
type_synonym rpc_data = byte_vector
type_synonym shard_id = string
type_synonym shard_image = "string \<rightharpoonup> peer_id set"

datatype connected_point = Dialer multiaddr | Listener multiaddr multiaddr

text \<open>
  \<open>peer_str\<close> and \<open>parse_peer\<close> are \<open>PeerId::to_string\<close> (base58, also \<open>to_base58\<close>) and its
  \<open>FromStr\<close>; \<open>base58_peer\<close> is \<open>PeerId::from_bytes\<close> after \<open>from_base58\<close>; \<open>parse_addr\<close> is
  \<open>Multiaddr::from_str\<close>, giving its canonical text; \<open>json_image\<close> and \<open>image_json\<close> are
  serde_json on a map of string sets.
\<close>

record codecs =
  peer_str :: "peer_id \<Rightarrow> string"
  parse_peer :: "string \<Rightarrow> peer_id option"
  base58_peer :: "string \<Rightarrow> peer_id option"
  parse_addr :: "string \<Rightarrow> multiaddr option"
  image_json :: "(string \<rightharpoonup> string set) \<Rightarrow> bytes option"
  json_image :: "bytes \<Rightarrow> (string \<rightharpoonup> string set) option"

text \<open>The documented behaviour of the conversions: parsing undoes printing. For serde_json it is
  asked of one map at a time.\<close>

definition peer_text_ok :: "codecs \<Rightarrow> bool" where
  "peer_text_ok cd = (\<forall>p. parse_peer cd (peer_str cd p) = Some p)"

definition json_ok :: "codecs \<Rightarrow> (string \<rightharpoonup> string set) \<Rightarrow> bool" where
  "json_ok cd m = (\<exists>b. image_json cd m = Some b \<and> json_image cd b = Some m)"

section \<open>Library errors and constants (prelude.rs)\<close>

datatype tcp_config = TcpDefault | TcpCustom (ttl: u32) (nodelay: bool) (backlog: u32)

datatype transport_opts = TcpQuic tcp_config

datatype swarm_nl_error =
    BoostrapFileReadError string
  | BoostrapDataParseError string
  | TransportConfigError transport_opts
  | DNSConfigError
  | ProtocolConfigError
  | MultiaddressListenError string
  | RemotePeerDialError string
  | NetworkIdParseError string
  | GossipConfigError

type_synonym 'a swarm_nl_result = "(swarm_nl_error, 'a) result"
type_synonym nodes_map = "peer_id_string \<rightharpoonup> multiaddr_string"

definition MIN_PORT :: port where "MIN_PORT = 1000"
definition MAX_PORT :: port where "MAX_PORT = 65535"
definition DEFAULT_NETWORK_ID :: string where "DEFAULT_NETWORK_ID = ''/swarmnl/1.0''"
definition MIN_NETWORK_ID_LENGTH :: nat where "MIN_NETWORK_ID_LENGTH = 4"
definition DEFAULT_KEEP_ALIVE_DURATION :: seconds where "DEFAULT_KEEP_ALIVE_DURATION = 60"
definition DEFAULT_IP_ADDRESS :: string where "DEFAULT_IP_ADDRESS = ''0.0.0.0''"

datatype key_type = Ed25519 | RSA | Secp256k1 | Ecdsa

text \<open>\<open>CustomFrom::from\<close> for \<open>KeyType\<close>.\<close>

definition key_type_from :: "string \<Rightarrow> key_type option" where
  "key_type_from s =
     (let l = to_lowercase s in
      if l = ''ed25519'' then Some Ed25519
      else if l = ''rsa'' then Some RSA
      else if l = ''secp256k1'' then Some Secp256k1
      else if l = ''ecdsa'' then Some Ecdsa
      else None)"

section \<open>Network errors (core/prelude.rs)\<close>

definition NETWORK_READ_TIMEOUT :: nat where "NETWORK_READ_TIMEOUT = 30"
definition TASK_SLEEP_DURATION :: nat where "TASK_SLEEP_DURATION = 3"
definition MAX_QUEUE_ELEMENTS :: nat where "MAX_QUEUE_ELEMENTS = 300"

datatype network_error =
    NetworkReadTimeout
  | StreamBufferOverflow
  | KadStoreRecordError bytes
  | RpcDataFetchError
  | KadFetchRecordError bytes
  | InternalTaskError
  | DailPeerError
  | GossipsubBroadcastMessageError
  | GossipsubJoinNetworkError
  | GossipsubExitNetworkError
  | InternalStreamError
  | MissingReplNetwork
  | MissingShardingNetworkIdError
  | DataForwardingError
  | ShardingFailureError
  | ShardingFetchError
  | ShardNotFound
  | MissingShardNodesError

type_synonym 'a network_result = "(network_error, 'a) result"

section \<open>Requests and responses\<close>

datatype stream_id = StreamId u32

datatype app_data =
    Echo string
  | DailPeer peer_id multiaddr_string
  | KademliaStoreRecord bytes bytes "instant option" "peer_id_string list option"
  | KademliaLookupRecord bytes
  | KademliaGetProviders bytes
  | KademliaStopProviding bytes
  | KademliaDeleteRecord bytes
  | KademliaGetRoutingTableInfo
  | SendRpc rpc_data peer_id
  | GetNetworkInfo
  | GossipsubBroadcastMessage string byte_vector
  | GossipsubJoinNetwork string
  | GossipsubGetInfo
  | GossipsubExitNetwork string
  | GossipsubBlacklistPeer peer_id
  | GossipsubFilterBlacklist peer_id

datatype app_response =
    Echo_Resp string
  | DailPeerSuccess string
  | KademliaStoreRecordSuccess
  | KademliaLookupSuccess bytes
  | KademliaGetProviders_Resp bytes "peer_id_string list"
  | KademliaNoProvidersFound
  | KademliaGetRoutingTableInfo_Resp string
  | SendRpc_Resp rpc_data
  | Error_Resp network_error
  | GetNetworkInfo_Resp peer_id "peer_id list" "multiaddr_string list"
  | GossipsubBroadcastSuccess
  | GossipsubJoinSuccess
  | GossipsubExitSuccess
  | GossipsubGetInfo_Resp string_vector "(peer_id \<times> string_vector) list" "peer_id set"
  | GossipsubBlacklistSuccess

type_synonym app_response_result = "(network_error, app_response) result"

datatype stream_data =
    FromApplication stream_id app_data
  | ToApplication stream_id app_response

datatype rpc = ReqResponse rpc_data

datatype rpc_config = RpcDefault | RpcCustom duration nat

section \<open>Events shown to the application\<close>

record identify_info =
  public_key :: public_key
  listen_addrs :: "multiaddr list"
  protocols :: "string list"
  observed_addr :: multiaddr

datatype network_event =
    NewListenAddr peer_id listener_id multiaddr
  | RoutingTableUpdated peer_id
  | ConnectionEstablished peer_id connection_id connected_point u32 duration
  | ConnectionClosed peer_id connection_id connected_point u32
  | ExpiredListenAddr listener_id multiaddr
  | ListenerClosed listener_id "multiaddr list"
  | ListenerError listener_id
  | Dialing "peer_id option" connection_id
  | NewExternalAddrCandidate multiaddr
  | ExternalAddrConfirmed multiaddr
  | ExternalAddrExpired multiaddr
  | IncomingConnection connection_id multiaddr multiaddr
  | IncomingConnectionError connection_id multiaddr multiaddr
  | OutgoingConnectionError connection_id "peer_id option"
  | OutboundPingSuccess peer_id duration
  | OutboundPingError peer_id
  | IdentifyInfoReceived peer_id identify_info
  | KademliaPutRecordSuccess bytes
  | KademliaPutRecordError
  | KademliaStartProvidingSuccess bytes
  | KademliaStartProvidingError
  | RpcIncomingMessageHandled rpc_data
  | GossipsubUnsubscribeMessageReceived peer_id string
  | GossipsubSubscribeMessageReceived peer_id string
  | ReplicaDataIncoming string_vector string seconds seconds string peer_id
  | IncomingForwardedData string_vector peer_id
  | GossipsubIncomingMessageHandled peer_id string_vector

section \<open>Ping and gossip state\<close>

datatype ping_error_policy =
    NoDisconnect
  | DisconnectAfterMaxErrors u16
  | DisconnectAfterMaxTimeouts u16

record ping_manager =
  timeouts :: "peer_id \<rightharpoonup> u16"
  outbound_errors :: "peer_id \<rightharpoonup> u16"

record ping_info =
  policy :: ping_error_policy
  manager :: ping_manager

record ping_config =
  interval :: duration
  timeout :: duration
  err_policy :: ping_error_policy

record blacklist_rec =
  list_of :: "peer_id set"

datatype gossipsub_config = GossipDefault | GossipCustom string string

definition blacklist_into_inner :: "blacklist_rec \<Rightarrow> peer_id set" where
  "blacklist_into_inner b = list_of b"

section \<open>The delimiters and flags of Core\<close>

definition GOSSIP_MESSAGE_SEPARATOR :: string where "GOSSIP_MESSAGE_SEPARATOR = ''~~##~~''"
definition REPL_GOSSIP_FLAG :: string where "REPL_GOSSIP_FLAG = ''REPL_GOSSIP_FLAG__@@''"
definition RPC_DATA_FORWARDING_FLAG :: string where
  "RPC_DATA_FORWARDING_FLAG = ''RPC_DATA_FORWARDING_FLAG__@@''"
definition STRONG_CONSISTENCY_FLAG :: string where "STRONG_CONSISTENCY_FLAG = ''STRONG_CON__@@''"
definition EVENTUAL_CONSISTENCY_FLAG :: string where "EVENTUAL_CONSISTENCY_FLAG = ''EVENTUAL_CON_@@''"
definition RPC_SYNC_PULL_FLAG :: string where "RPC_SYNC_PULL_FLAG = ''RPC_SYNC_PULL_FLAG__@@''"
definition SHARD_RPC_SYNC_FLAG :: string where "SHARD_RPC_SYNC_FLAG = ''SHARD_RPC_SYNC_FLAG__@@''"
definition SHARD_GOSSIP_JOIN_FLAG :: string where
  "SHARD_GOSSIP_JOIN_FLAG = ''SHARD_GOSSIP_JOIN_FLAG__@@''"
definition SHARD_GOSSIP_EXIT_FLAG :: string where
  "SHARD_GOSSIP_EXIT_FLAG = ''SHARD_GOSSIP_EXIT_FLAG__@@''"
definition SHARD_RPC_REQUEST_FLAG :: string where
  "SHARD_RPC_REQUEST_FLAG = ''SHARD_RPC_REQUEST_FLAG__@@''"
definition FIELD_DELIMITER :: string where "FIELD_DELIMITER = ''_@_''"
definition ENTRY_DELIMITER :: string where "ENTRY_DELIMITER = ''@@@''"
definition DATA_DELIMITER :: string where "DATA_DELIMITER = ''$$''"

lemmas flag_defs =
  REPL_GOSSIP_FLAG_def RPC_DATA_FORWARDING_FLAG_def STRONG_CONSISTENCY_FLAG_def
  EVENTUAL_CONSISTENCY_FLAG_def RPC_SYNC_PULL_FLAG_def SHARD_RPC_SYNC_FLAG_def
  SHARD_GOSSIP_JOIN_FLAG_def SHARD_GOSSIP_EXIT_FLAG_def SHARD_RPC_REQUEST_FLAG_def

lemmas delimiter_defs =
  GOSSIP_MESSAGE_SEPARATOR_def FIELD_DELIMITER_def ENTRY_DELIMITER_def DATA_DELIMITER_def

interpretation gossip_sep: delimiter GOSSIP_MESSAGE_SEPARATOR
  by unfold_locales (simp add: GOSSIP_MESSAGE_SEPARATOR_def)

interpretation field_sep: delimiter FIELD_DELIMITER
  by unfold_locales (simp add: FIELD_DELIMITER_def)

interpretation entry_sep: delimiter ENTRY_DELIMITER
  by unfold_locales (simp add: ENTRY_DELIMITER_def)

interpretation data_sep: delimiter DATA_DELIMITER
  by unfold_locales (simp add: DATA_DELIMITER_def)

lemma flags_clean_gossip:
  "clean GOSSIP_MESSAGE_SEPARATOR REPL_GOSSIP_FLAG"
  "clean GOSSIP_MESSAGE_SEPARATOR STRONG_CONSISTENCY_FLAG"
  "clean GOSSIP_MESSAGE_SEPARATOR EVENTUAL_CONSISTENCY_FLAG"
  "clean GOSSIP_MESSAGE_SEPARATOR SHARD_GOSSIP_JOIN_FLAG"
  "clean GOSSIP_MESSAGE_SEPARATOR SHARD_GOSSIP_EXIT_FLAG"
  by (rule clean_disjoint; simp add: flag_defs GOSSIP_MESSAGE_SEPARATOR_def)+

lemma flags_distinct:
  "distinct [REPL_GOSSIP_FLAG, STRONG_CONSISTENCY_FLAG, EVENTUAL_CONSISTENCY_FLAG,
     SHARD_GOSSIP_JOIN_FLAG, SHARD_GOSSIP_EXIT_FLAG]"
  "distinct [RPC_SYNC_PULL_FLAG, SHARD_RPC_SYNC_FLAG, RPC_DATA_FORWARDING_FLAG,
     SHARD_RPC_REQUEST_FLAG]"
  by (simp_all add: flag_defs)

lemma rpc_flags_ascii:
  "from_utf8_lossy SHARD_RPC_SYNC_FLAG = SHARD_RPC_SYNC_FLAG"
  "from_utf8_lossy RPC_SYNC_PULL_FLAG = RPC_SYNC_PULL_FLAG"
  "from_utf8_lossy RPC_DATA_FORWARDING_FLAG = RPC_DATA_FORWARDING_FLAG"
  "from_utf8_lossy SHARD_RPC_REQUEST_FLAG = SHARD_RPC_REQUEST_FLAG"
  by (rule from_utf8_lossy_ascii, simp add: flag_defs ascii_def code_of_def)+

lemma rpc_flags_differ:
  "SHARD_RPC_SYNC_FLAG \<noteq> RPC_SYNC_PULL_FLAG" "RPC_DATA_FORWARDING_FLAG \<noteq> RPC_SYNC_PULL_FLAG"
  "RPC_DATA_FORWARDING_FLAG \<noteq> SHARD_RPC_SYNC_FLAG" "SHARD_RPC_REQUEST_FLAG \<noteq> RPC_SYNC_PULL_FLAG"
  "SHARD_RPC_REQUEST_FLAG \<noteq> SHARD_RPC_SYNC_FLAG" "SHARD_RPC_REQUEST_FLAG \<noteq> RPC_DATA_FORWARDING_FLAG"
  using flags_distinct(2) by auto

end
