(* ===== verification/Stream_Buffers.thy ===== *)
theory Stream_Buffers
  imports Net_Types
begin

text \<open>
  The bookkeeping between the application and the network task
  (\<open>swarm-nl/src/core/prelude.rs\<close>): stream identifiers, the set of tracked requests, the
  map of responses that wait to be read, and the bounded FIFO queues. The locale
  \<open>bounded_store\<close> is the contract the two buffers share, \<open>fifo\<close> the one of \<open>DataQueue\<close>.
\<close>

section \<open>Stream identifiers\<close>

definition stream_id_new :: stream_id where
  "stream_id_new = StreamId 0"

fun stream_id_next :: "stream_id \<Rightarrow> stream_id" where
  "stream_id_next (StreamId n) = StreamId (n + 1)"

fun stream_id_num :: "stream_id \<Rightarrow> nat" where
  "stream_id_num (StreamId n) = unat n"

lemma stream_id_num_inject: "stream_id_num a = stream_id_num b \<longleftrightarrow> a = b"
  by (cases a; cases b) (simp add: word_unat_eq_iff)

lemma stream_id_num_iterate:
  "stream_id_num ((stream_id_next ^^ k) s) = (stream_id_num s + k) mod 2 ^ 32"
proof (induction k)
  case 0
  obtain n where s: "s = StreamId n" by (cases s)
  have "unat n < 2 ^ 32" using unsigned_less [of n] by simp
  then show ?case by (simp add: s)
next
  case (Suc k)
  obtain n where "(stream_id_next ^^ k) s = StreamId n" by (cases "(stream_id_next ^^ k) s")
  with Suc show ?case
    by (simp add: unat_word_ariths mod_Suc_eq)
qed

section \<open>The contract of a buffer with a capacity\<close>

locale bounded_store =
  fixes put :: "'k \<Rightarrow> 'v \<Rightarrow> 'b \<Rightarrow> 'b \<times> bool"
    and count :: "'b \<Rightarrow> nat"
    and limit :: "'b \<Rightarrow> nat"
    and held :: "'b \<Rightarrow> 'k set"
    and inv :: "'b \<Rightarrow> bool"
  assumes put_room: "inv b \<Longrightarrow> count b < limit b \<Longrightarrow>
      snd (put k v b) \<and> held (fst (put k v b)) = insert k (held b)"
    and put_full: "limit b \<le> count b \<Longrightarrow> put k v b = (b, False)"
    and put_inv: "inv b \<Longrightarrow> inv (fst (put k v b))"
    and put_limit: "limit (fst (put k v b)) = limit b"
    and count_held: "inv b \<Longrightarrow> count b = card (held b)"
    and held_finite: "inv b \<Longrightarrow> finite (held b)"
begin

definition put_all :: "('k \<times> 'v) list \<Rightarrow> 'b \<Rightarrow> 'b" where
  "put_all kvs b = foldl (\<lambda>b kv. fst (put (fst kv) (snd kv) b)) b kvs"

lemma put_accepts_iff: "inv b \<Longrightarrow> snd (put k v b) \<longleftrightarrow> count b < limit b"
  using put_room put_full by (metis not_le snd_conv)

lemma put_count:
  "inv b \<Longrightarrow> count (fst (put k v b)) =
     (if count b < limit b \<and> k \<notin> held b then Suc (count b) else count b)"
proof (cases "count b < limit b")
  case True
  assume i: "inv b"
  then have "held (fst (put k v b)) = insert k (held b)"
    using put_room True by blast
  then show ?thesis
    using True i by (simp add: count_held put_inv held_finite card_insert_if)
next
  case False
  assume "inv b"
  with False show ?thesis by (simp add: put_full)
qed

lemma put_within: "inv b \<Longrightarrow> count b \<le> limit b \<Longrightarrow> count (fst (put k v b)) \<le> limit b"
  by (auto simp: put_count)

lemma put_held_mono: "inv b \<Longrightarrow> held b \<subseteq> held (fst (put k v b))"
  using put_room put_full by (metis fst_conv not_le subset_insertI subset_refl)

lemma put_all_within:
  assumes "inv b" and "count b \<le> limit b"
  shows "inv (put_all kvs b) \<and> count (put_all kvs b) \<le> limit b
     \<and> limit (put_all kvs b) = limit b"
  unfolding put_all_def
  by (rule foldl_invariant) (use assms put_inv put_limit put_within in fastforce)+

lemma put_all_fills:
  assumes "inv b" and "distinct ks" and "set ks \<inter> held b = {}"
    and "count b + length ks \<le> limit b"
  shows "count (put_all (map (\<lambda>k. (k, v)) ks) b) = count b + length ks"
  using assms
proof (induction ks arbitrary: b)
  case (Cons k ks)
  let ?b = "fst (put k v b)"
  have room: "count b < limit b" using Cons.prems by simp
  then have h: "held ?b = insert k (held b)" using Cons.prems put_room by blast
  have "count ?b = Suc (count b)" using room Cons.prems by (simp add: put_count)
  moreover have "count (put_all (map (\<lambda>k. (k, v)) ks) ?b) = count ?b + length ks"
    by (rule Cons.IH) (use Cons.prems h \<open>count ?b = Suc (count b)\<close> in
      \<open>auto simp: put_inv put_limit\<close>)
  ultimately show ?case by (simp add: put_all_def)
qed (simp add: put_all_def)

end

section \<open>Requests tracked by the node\<close>

record stream_request_buffer =
  req_size :: nat
  req_buffer :: "stream_id set"

definition request_buffer_new :: "nat \<Rightarrow> stream_request_buffer" where
  "request_buffer_new n = \<lparr>req_size = n, req_buffer = {}\<rparr>"

definition request_insert :: "stream_id \<Rightarrow> stream_request_buffer \<Rightarrow> stream_request_buffer \<times> bool" where
  "request_insert sid b =
     (if card (req_buffer b) < req_size b
      then (b\<lparr>req_buffer := insert sid (req_buffer b)\<rparr>, True)
      else (b, False))"

definition request_buffer_inv :: "stream_request_buffer \<Rightarrow> bool" where
  "request_buffer_inv b = finite (req_buffer b)"

interpretation request_store: bounded_store
  "\<lambda>sid (_ :: unit). request_insert sid" "\<lambda>b. card (req_buffer b)" req_size req_buffer
  request_buffer_inv
  by unfold_locales (auto simp: request_insert_def request_buffer_inv_def)

section \<open>Responses waiting to be read\<close>

record stream_response_buffer =
  resp_size :: nat
  resp_buffer :: "(stream_id \<times> app_response_result) list"

definition response_buffer_new :: "nat \<Rightarrow> stream_response_buffer" where
  "response_buffer_new n = \<lparr>resp_size = n, resp_buffer = []\<rparr>"

definition response_insert ::
    "stream_id \<Rightarrow> app_response_result \<Rightarrow> stream_response_buffer
      \<Rightarrow> stream_response_buffer \<times> bool" where
  "response_insert sid r b =
     (if length (resp_buffer b) < resp_size b
      then (b\<lparr>resp_buffer := AList.update sid r (resp_buffer b)\<rparr>, True)
      else (b, False))"

definition response_remove ::
    "stream_id \<Rightarrow> stream_response_buffer
      \<Rightarrow> stream_response_buffer \<times> app_response_result option" where
  "response_remove sid b =
     (b\<lparr>resp_buffer := AList.delete sid (resp_buffer b)\<rparr>, map_of (resp_buffer b) sid)"

definition response_buffer_inv :: "stream_response_buffer \<Rightarrow> bool" where
  "response_buffer_inv b = distinct (map fst (resp_buffer b))"

lemma length_distinct_fst: "distinct (map fst al) \<Longrightarrow> length al = card (fst ` set al)"
  using distinct_card by fastforce

interpretation response_store: bounded_store
  response_insert "\<lambda>b. length (resp_buffer b)" resp_size "\<lambda>b. fst ` set (resp_buffer b)"
  response_buffer_inv
  by unfold_locales
    (simp_all add: response_insert_def response_buffer_inv_def dom_update distinct_update
       length_distinct_fst)

lemma response_remove_inv:
  "response_buffer_inv b \<Longrightarrow> response_buffer_inv (fst (response_remove sid b))"
  by (simp add: response_buffer_inv_def response_remove_def distinct_delete)

lemma response_insert_remove:
  assumes "length (resp_buffer b) < resp_size b" and "sid \<notin> fst ` set (resp_buffer b)"
  shows "response_remove sid (fst (response_insert sid r b)) = (b, Some r)"
  using assms
  by (simp add: response_insert_def response_remove_def update_conv' delete_update_same
      delete_idem)

lemma response_remove_frame:
  "sid' \<noteq> sid \<Longrightarrow> map_of (resp_buffer (fst (response_remove sid b))) sid'
     = map_of (resp_buffer b) sid'"
  by (simp add: response_remove_def delete_conv')

section \<open>The bounded queue\<close>

type_synonym 'a data_queue = "'a list"

definition dq_new :: "'a data_queue" where
  "dq_new = []"

definition dq_pop :: "'a data_queue \<Rightarrow> 'a option \<times> 'a data_queue" where
  "dq_pop q = (case q of [] \<Rightarrow> (None, []) | x # xs \<Rightarrow> (Some x, xs))"

definition dq_push :: "'a \<Rightarrow> 'a data_queue \<Rightarrow> 'a data_queue" where
  "dq_push item q = (if MAX_QUEUE_ELEMENTS \<le> length q then drop 1 q else q) @ [item]"

definition dq_into_inner :: "'a data_queue \<Rightarrow> 'a list" where
  "dq_into_inner q = q"

definition dq_drain :: "'a data_queue \<Rightarrow> 'a data_queue" where
  "dq_drain q = []"

text \<open>
  A queue that keeps the newest \<open>cap\<close> elements: what was pushed comes out in order, and
  only the oldest elements are lost.
\<close>

locale fifo =
  fixes push :: "'a \<Rightarrow> 'q \<Rightarrow> 'q"
    and pop :: "'q \<Rightarrow> 'a option \<times> 'q"
    and items :: "'q \<Rightarrow> 'a list"
    and cap :: nat
  assumes cap_pos: "0 < cap"
    and items_push: "length (items q) \<le> cap \<Longrightarrow>
      items (push x q) = drop (Suc (length (items q)) - cap) (items q @ [x])"
    and pop_empty: "items q = [] \<Longrightarrow> fst (pop q) = None \<and> items (snd (pop q)) = []"
    and pop_nonempty: "items q = x # xs \<Longrightarrow> fst (pop q) = Some x \<and> items (snd (pop q)) = xs"
begin

definition push_all :: "'a list \<Rightarrow> 'q \<Rightarrow> 'q" where
  "push_all xs q = foldl (\<lambda>q x. push x q) q xs"

lemma push_bound: "length (items q) \<le> cap \<Longrightarrow> length (items (push x q)) \<le> cap"
  by (simp add: items_push)

lemma pop_bound: "length (items q) \<le> cap \<Longrightarrow> length (items (snd (pop q))) \<le> cap"
  using pop_empty pop_nonempty by (cases "items q") fastforce+

lemma push_last: "length (items q) \<le> cap \<Longrightarrow> last (items (push x q)) = x"
  using cap_pos by (simp add: items_push)

lemma push_in: "length (items q) \<le> cap \<Longrightarrow> x \<in> set (items (push x q))"
  using cap_pos by (auto simp: items_push)

lemma push_all_items:
  assumes "length (items q) \<le> cap"
  shows "items (push_all xs q)
     = drop (length (items q) + length xs - cap) (items q @ xs)"
  using assms
proof (induction xs arbitrary: q)
  case (Cons x xs)
  let ?q = "push x q"
  have "length (items ?q) \<le> cap" by (rule push_bound) (rule Cons.prems)
  then have "items (push_all xs ?q)
      = drop (length (items ?q) + length xs - cap) (items ?q @ xs)"
    by (rule Cons.IH)
  also have "\<dots> = drop (length (items q) + length (x # xs) - cap) (items q @ x # xs)"
  proof (cases "length (items q) < cap")
    case True
    then have "items ?q = items q @ [x]" using Cons.prems by (simp add: items_push)
    then show ?thesis by simp
  next
    case False
    then have l: "length (items q) = cap" using Cons.prems by simp
    then have i: "items ?q = drop 1 (items q @ [x])" using Cons.prems by (simp add: items_push)
    obtain y ys where y: "items q = y # ys" using l cap_pos by (cases "items q") auto
    then show ?thesis using i l by auto
  qed
  finally show ?case by (simp add: push_all_def)
qed (simp add: push_all_def)

lemma push_all_keeps:
  "length (items q) + length xs \<le> cap \<Longrightarrow> items (push_all xs q) = items q @ xs"
  by (simp add: push_all_items)

end

interpretation data_queue: fifo dq_push dq_pop dq_into_inner MAX_QUEUE_ELEMENTS
proof (unfold_locales, goal_cases)
  case 1 show ?case by (simp add: MAX_QUEUE_ELEMENTS_def)
next
  case (2 q x)
  then show ?case by (auto simp: dq_push_def dq_into_inner_def MAX_QUEUE_ELEMENTS_def)
next
  case (3 q) then show ?case by (simp add: dq_pop_def dq_into_inner_def)
next
  case (4 q x xs) then show ?case by (simp add: dq_pop_def dq_into_inner_def)
qed

lemma dq_push_bound [intro]:
  "length q \<le> MAX_QUEUE_ELEMENTS \<Longrightarrow> length (dq_push x q) \<le> MAX_QUEUE_ELEMENTS"
  using data_queue.push_bound by (simp add: dq_into_inner_def)

lemma dq_pop_bound:
  "length q \<le> MAX_QUEUE_ELEMENTS \<Longrightarrow> dq_pop q = (r, q') \<Longrightarrow> length q' \<le> MAX_QUEUE_ELEMENTS"
  using data_queue.pop_bound [of q] by (simp add: dq_into_inner_def)

lemma set_dq_push: "set (dq_push x q) \<subseteq> insert x (set q)"
  by (auto simp: dq_push_def dest: in_set_dropD)

lemma set_dq_pop: "dq_pop q = (r, q') \<Longrightarrow> set q' \<subseteq> set q"
  by (auto simp: dq_pop_def split: list.splits)

lemma dq_pop_Some: "dq_pop q = (Some x, q') \<longleftrightarrow> q = x # q'"
  by (auto simp: dq_pop_def split: list.splits)

lemma dq_pop_None: "dq_pop q = (None, q') \<longleftrightarrow> q = [] \<and> q' = []"
  by (auto simp: dq_pop_def split: list.splits)

end
