(* ===== verification/Repl_Data.thy ===== *)
theory Repl_Data
  imports BTree_Model Stream_Buffers
begin

text \<open>
  Replicated data (\<open>swarm-nl/src/core/replication.rs\<close> and the codecs of
  \<open>swarm-nl/src/util.rs\<close>): the configuration types, \<open>ReplBufferData\<close> with its order, and
  the wire format in which a node hands its buffer to another
  (\<open>pull_missing_data\<close> writes it, \<open>unmarshal_messages\<close> reads it).
\<close>

section \<open>Configuration\<close>

datatype consensus_model = All_Peers | MinPeers u64

datatype consistency_model = Eventual | Strong consensus_model

datatype repl_network_config =
    ReplCustom (queue_length: u64) (expiry_time: "seconds option") (sync_wait_time: seconds)
      (custom_model: consistency_model) (data_aging_period: seconds)
  | ReplDefault

definition MAX_CAPACITY :: u64 where "MAX_CAPACITY = 150"
definition EXPIRY_TIME :: seconds where "EXPIRY_TIME = 60"
definition SYNC_WAIT_TIME :: seconds where "SYNC_WAIT_TIME = 5"
definition DATA_AGING_PERIOD :: seconds where "DATA_AGING_PERIOD = 5"

record repl_config_data =
  cfg_clock :: nonce
  last_clock :: nonce
  cfg_nodes :: "string \<rightharpoonup> string"

fun consistency_model_of :: "repl_network_config \<Rightarrow> consistency_model" where
  "consistency_model_of ReplDefault = Eventual"
| "consistency_model_of (ReplCustom _ _ _ m _) = m"

section \<open>Buffered data and its order\<close>

record repl_buffer_data =
  rdata :: string_vector
  lamport_clock :: nonce
  outgoing_timestamp :: seconds
  incoming_timestamp :: seconds
  message_id :: string
  sender :: peer_id
  confirmations :: "nonce option"

datatype ordering = Less | Equal | Greater

definition cmp :: "'a::linorder \<Rightarrow> 'a \<Rightarrow> ordering" where
  "cmp a b = (if a < b then Less else if a = b then Equal else Greater)"

fun then_with :: "ordering \<Rightarrow> ordering \<Rightarrow> ordering" where
  "then_with Equal o2 = o2"
| "then_with o1 _ = o1"

text \<open>\<open>Ord::cmp\<close> and \<open>PartialEq::eq\<close> of \<open>ReplBufferData\<close>.\<close>

definition repl_cmp :: "repl_buffer_data \<Rightarrow> repl_buffer_data \<Rightarrow> ordering" where
  "repl_cmp a b =
     then_with (cmp (lamport_clock a) (lamport_clock b)) (cmp (message_id a) (message_id b))"

definition repl_eq :: "repl_buffer_data \<Rightarrow> repl_buffer_data \<Rightarrow> bool" where
  "repl_eq a b = (lamport_clock a = lamport_clock b \<and> message_id a = message_id b)"

text \<open>The two compared fields as a type of its own, with the order of the source.\<close>

datatype repl_key = ReplKey nonce string

instantiation repl_key :: linorder
begin

fun less_eq_repl_key :: "repl_key \<Rightarrow> repl_key \<Rightarrow> bool" where
  "less_eq_repl_key (ReplKey c i) (ReplKey d j) \<longleftrightarrow> c < d \<or> c = d \<and> i \<le> j"

fun less_repl_key :: "repl_key \<Rightarrow> repl_key \<Rightarrow> bool" where
  "less_repl_key (ReplKey c i) (ReplKey d j) \<longleftrightarrow> c < d \<or> c = d \<and> i < j"

instance
proof
  fix x y z :: repl_key
  show "x < y \<longleftrightarrow> x \<le> y \<and> \<not> y \<le> x" by (cases x; cases y) auto
  show "x \<le> x" by (cases x) simp
  show "x \<le> y \<Longrightarrow> y \<le> z \<Longrightarrow> x \<le> z" by (cases x; cases y; cases z) auto
  show "x \<le> y \<Longrightarrow> y \<le> x \<Longrightarrow> x = y" by (cases x; cases y) auto
  show "x \<le> y \<or> y \<le> x" by (cases x; cases y) auto
qed

end

definition repl_key :: "repl_buffer_data \<Rightarrow> repl_key" where
  "repl_key d = ReplKey (lamport_clock d) (message_id d)"

lemma repl_cmp_key:
  "repl_cmp a b = cmp (repl_key a) (repl_key b)"
  by (auto simp: repl_cmp_def cmp_def repl_key_def)

lemma repl_eq_key: "repl_eq a b \<longleftrightarrow> repl_key a = repl_key b"
  by (simp add: repl_eq_def repl_key_def)

lemma repl_key_clock_le: "repl_key a \<le> repl_key b \<Longrightarrow> lamport_clock a \<le> lamport_clock b"
  by (auto simp: repl_key_def)

text \<open>\<open>BTreeSet<ReplBufferData>\<close>: the ordered store on this key.\<close>

type_synonym repl_set = "repl_buffer_data list"

definition rset_insert :: "repl_buffer_data \<Rightarrow> repl_set \<Rightarrow> repl_set" where
  "rset_insert = bset_insert repl_key"

definition rset_remove :: "repl_buffer_data \<Rightarrow> repl_set \<Rightarrow> repl_set" where
  "rset_remove = bset_remove repl_key"

definition rset_wf :: "repl_set \<Rightarrow> bool" where
  "rset_wf = bset_wf repl_key"

definition rset_keys :: "repl_set \<Rightarrow> repl_key set" where
  "rset_keys = bset_keys repl_key"

interpretation repl_store: ordered_store
  rset_insert rset_remove bset_first length rset_keys repl_key rset_wf
proof (unfold_locales, goal_cases)
  case (1 s x) show ?case by (simp add: rset_keys_def rset_insert_def keys_bset_insert)
next
  case (2 s x)
  then show ?case by (simp add: rset_keys_def rset_remove_def rset_wf_def keys_bset_remove)
next
  case (3 s x) then show ?case by (simp add: rset_wf_def rset_insert_def wf_bset_insert)
next
  case (4 s x) then show ?case by (simp add: rset_wf_def rset_remove_def wf_bset_remove)
next
  case (5 s) show ?case by (simp add: rset_keys_def bset_keys_def)
next
  case (6 s) then show ?case by (simp add: rset_wf_def rset_keys_def length_bset_wf)
next
  case (7 s)
  show ?case by (simp add: bset_first_def rset_keys_def bset_keys_def split: list.splits)
next
  case (8 s x)
  then show ?case
    by (cases s) (auto simp: rset_wf_def rset_keys_def bset_keys_def intro: less_imp_le)
qed

lemma rset_wf_Nil [simp]: "rset_wf []"
  by (simp add: rset_wf_def)

lemma rset_wf_filter: "rset_wf q \<Longrightarrow> rset_wf (filter P q)"
  by (simp add: rset_wf_def wf_bset_filter)

lemma rset_keys_set: "rset_keys q = repl_key ` set q"
  by (simp add: rset_keys_def bset_keys_def)

section \<open>The wire format of buffer entries\<close>

text \<open>One entry, as \<open>pull_missing_data\<close> appends it.\<close>

definition marshal_entry :: "codecs \<Rightarrow> repl_buffer_data \<Rightarrow> bytes" where
  "marshal_entry cd msg =
     join_with DATA_DELIMITER (rdata msg)
     @ FIELD_DELIMITER @ show_u64 (lamport_clock msg)
     @ FIELD_DELIMITER @ show_u64 (outgoing_timestamp msg)
     @ FIELD_DELIMITER @ show_u64 (incoming_timestamp msg)
     @ FIELD_DELIMITER @ message_id msg
     @ FIELD_DELIMITER @ peer_str cd (sender msg)"

definition marshal_step :: "codecs \<Rightarrow> bytes \<Rightarrow> repl_buffer_data \<Rightarrow> bytes" where
  "marshal_step cd result msg =
     (if result \<noteq> [] then result @ ENTRY_DELIMITER else result) @ marshal_entry cd msg"

definition marshal_entries :: "codecs \<Rightarrow> repl_buffer_data list \<Rightarrow> bytes" where
  "marshal_entries cd msgs = foldl (marshal_step cd) [] msgs"

text \<open>One entry, as \<open>unmarshal_messages\<close> reads it back; malformed entries are skipped.\<close>

definition parse_or_0 :: "string \<Rightarrow> u64" where
  "parse_or_0 s = (case parse_u64 s of None \<Rightarrow> 0 | Some n \<Rightarrow> n)"

definition unmarshal_entry :: "codecs \<Rightarrow> string \<Rightarrow> repl_buffer_data option" where
  "unmarshal_entry cd entry =
     (let fields = split_on FIELD_DELIMITER entry in
      if length fields < 6 then None
      else map_option
        (\<lambda>peer. \<lparr>rdata = split_on DATA_DELIMITER (fields ! 0),
                lamport_clock = parse_or_0 (fields ! 1),
                outgoing_timestamp = parse_or_0 (fields ! 2),
                incoming_timestamp = parse_or_0 (fields ! 3),
                message_id = fields ! 4,
                sender = peer,
                confirmations = None\<rparr>)
        (parse_peer cd (fields ! 5)))"

definition unmarshal_messages :: "codecs \<Rightarrow> byte_vector \<Rightarrow> repl_buffer_data list" where
  "unmarshal_messages cd msgs =
     concat (map (\<lambda>entry. List.map_filter (unmarshal_entry cd)
       (split_on ENTRY_DELIMITER (from_utf8_lossy entry))) msgs)"

text \<open>
  What the format can carry: text that no delimiter cuts at the wrong place. Rust's
  \<open>String\<close> is always valid UTF-8.
\<close>

definition wire_clean :: "codecs \<Rightarrow> repl_buffer_data \<Rightarrow> bool" where
  "wire_clean cd m \<longleftrightarrow>
     rdata m \<noteq> [] \<and> list_all (clean DATA_DELIMITER) (rdata m)
     \<and> clean FIELD_DELIMITER (join_with DATA_DELIMITER (rdata m))
     \<and> clean FIELD_DELIMITER (message_id m) \<and> clean FIELD_DELIMITER (peer_str cd (sender m))
     \<and> clean ENTRY_DELIMITER (marshal_entry cd m)"

definition text_valid :: "codecs \<Rightarrow> repl_buffer_data \<Rightarrow> bool" where
  "text_valid cd m \<longleftrightarrow> list_all utf8_valid (rdata m) \<and> utf8_valid (message_id m)
     \<and> utf8_valid (peer_str cd (sender m))"

section \<open>Reading back what was written\<close>

lemma join_with_snoc:
  "join_with sep (xs @ [x]) = (if xs = [] then x else join_with sep xs @ sep @ x)"
  by (induction xs rule: induct_list012) auto

lemma marshal_entry_join:
  "marshal_entry cd m = join_with FIELD_DELIMITER
     [join_with DATA_DELIMITER (rdata m), show_u64 (lamport_clock m),
      show_u64 (outgoing_timestamp m), show_u64 (incoming_timestamp m), message_id m,
      peer_str cd (sender m)]"
  by (simp add: marshal_entry_def)

lemma marshal_entry_nonempty [simp]: "marshal_entry cd m \<noteq> []"
  by (simp add: marshal_entry_def FIELD_DELIMITER_def)

lemma marshal_entries_join:
  "marshal_entries cd msgs = join_with ENTRY_DELIMITER (map (marshal_entry cd) msgs)"
proof (induction msgs rule: rev_induct)
  case (snoc m msgs)
  have "marshal_entries cd msgs = [] \<longleftrightarrow> msgs = []"
  proof (cases msgs rule: rev_cases)
    case (snoc ys y)
    then show ?thesis by (simp add: marshal_entries_def marshal_step_def)
  qed (simp add: marshal_entries_def)
  moreover have "marshal_entries cd (msgs @ [m]) = marshal_step cd (marshal_entries cd msgs) m"
    by (simp add: marshal_entries_def)
  ultimately show ?case
    using snoc by (simp add: marshal_step_def join_with_snoc)
qed (simp add: marshal_entries_def)

lemma clean_number_field: "clean FIELD_DELIMITER (show_u64 w)"
  by (rule clean_show_u64) (auto simp: FIELD_DELIMITER_def code_of_def)

lemma split_marshal_entry:
  assumes "wire_clean cd m"
  shows "split_on FIELD_DELIMITER (marshal_entry cd m) =
     [join_with DATA_DELIMITER (rdata m), show_u64 (lamport_clock m),
      show_u64 (outgoing_timestamp m), show_u64 (incoming_timestamp m), message_id m,
      peer_str cd (sender m)]"
  unfolding marshal_entry_join
  by (rule field_sep.split_join) (use assms clean_number_field in \<open>auto simp: wire_clean_def\<close>)

lemma unmarshal_marshal_entry:
  assumes "wire_clean cd m" and "peer_text_ok cd"
  shows "unmarshal_entry cd (marshal_entry cd m) = Some (m\<lparr>confirmations := None\<rparr>)"
proof -
  have "split_on DATA_DELIMITER (join_with DATA_DELIMITER (rdata m)) = rdata m"
    by (rule data_sep.split_join) (use assms(1) in \<open>auto simp: wire_clean_def list_all_iff\<close>)
  then show ?thesis
    using assms by (simp add: unmarshal_entry_def split_marshal_entry parse_or_0_def peer_text_ok_def)
qed

lemma utf8_delimiters:
  "utf8_valid FIELD_DELIMITER" "utf8_valid ENTRY_DELIMITER" "utf8_valid DATA_DELIMITER"
  by (rule ascii_utf8_valid, simp add: delimiter_defs ascii_def code_of_def)+

lemma utf8_marshal_entry: "text_valid cd m \<Longrightarrow> utf8_valid (marshal_entry cd m)"
  unfolding marshal_entry_def text_valid_def
  by (auto intro!: utf8_valid_append utf8_valid_join utf8_delimiters
      ascii_utf8_valid [OF show_u64_ascii])

lemma map_filter_all_Some:
  "(\<And>x. x \<in> set xs \<Longrightarrow> f (g x) = Some (h x)) \<Longrightarrow> List.map_filter f (map g xs) = map h xs"
  by (induction xs) (auto simp: List.map_filter_simps)

lemma unmarshal_marshal_entries:
  assumes peer: "peer_text_ok cd"
    and clean: "list_all (wire_clean cd) msgs" and valid: "list_all (text_valid cd) msgs"
  shows "unmarshal_messages cd [marshal_entries cd msgs]
     = map (\<lambda>m. m\<lparr>confirmations := None\<rparr>) msgs"
proof (cases "msgs = []")
  case True
  then show ?thesis
    by (simp add: unmarshal_messages_def marshal_entries_def List.map_filter_simps
        unmarshal_entry_def)
next
  case False
  have "utf8_valid (marshal_entries cd msgs)"
    unfolding marshal_entries_join
    using valid by (intro utf8_valid_join utf8_delimiters) (auto simp: list_all_iff utf8_marshal_entry)
  moreover have "split_on ENTRY_DELIMITER (marshal_entries cd msgs) = map (marshal_entry cd) msgs"
    unfolding marshal_entries_join
    by (rule entry_sep.split_join)
      (use False clean in \<open>auto simp: list_all_iff wire_clean_def\<close>)
  moreover have "List.map_filter (unmarshal_entry cd) (map (marshal_entry cd) msgs)
      = map (\<lambda>m. m\<lparr>confirmations := None\<rparr>) msgs"
    by (rule map_filter_all_Some)
      (use clean peer in \<open>auto simp: list_all_iff unmarshal_marshal_entry\<close>)
  ultimately show ?thesis
    by (simp add: unmarshal_messages_def from_utf8_lossy_valid)
qed

end
