(* ===== verification/Repl_Queue.thy ===== *)
theory Repl_Queue
  imports Repl_Data
begin

text \<open>
  The queues of \<open>ReplicaBufferQueue\<close> (\<open>swarm-nl/src/core/replication.rs\<close>) without the
  network: making room and inserting, taking the earliest element, counting a
  confirmation, and selecting what a peer asks for. \<open>Repl_Sync\<close> composes them with the
  requests the operations send.

  The eviction loops need not stop (a queue length of 0 never leaves room), so they are
  partial functions, \<open>None\<close> being the loop that runs for ever. The wall clock is a stream
  of readings, one for each time the code looks at it.
\<close>

section \<open>The state\<close>

type_synonym temp_queue = "(string \<times> repl_buffer_data) list"

record replica_buffer_queue =
  config :: repl_network_config
  temporary_queue :: "string \<rightharpoonup> temp_queue"
  queue :: "string \<rightharpoonup> repl_set"

definition replica_buffer_new :: "repl_network_config \<Rightarrow> replica_buffer_queue" where
  "replica_buffer_new cfg =
     \<lparr>config = cfg, temporary_queue = Map.empty, queue = Map.empty\<rparr>"

definition or_default :: "('k \<rightharpoonup> 'v list) \<Rightarrow> 'k \<Rightarrow> 'v list" where
  "or_default m k = (case m k of None \<Rightarrow> [] | Some v \<Rightarrow> v)"

definition consistency_model :: "replica_buffer_queue \<Rightarrow> consistency_model" where
  "consistency_model rb = consistency_model_of (config rb)"

definition buffer_init :: "string \<Rightarrow> replica_buffer_queue \<Rightarrow> replica_buffer_queue" where
  "buffer_init repl_network rb =
     (let rb1 = rb\<lparr>queue := (queue rb)(repl_network \<mapsto> [])\<rparr> in
      if consistency_model rb \<noteq> Eventual
      then rb1\<lparr>temporary_queue := (temporary_queue rb1)(repl_network \<mapsto> [])\<rparr>
      else rb1)"

section \<open>Making room\<close>

definition expired :: "seconds \<Rightarrow> seconds \<Rightarrow> repl_buffer_data \<Rightarrow> bool" where
  "expired expiry now entry = (expiry \<le> saturating_sub now (outgoing_timestamp entry))"

definition remove_all :: "repl_buffer_data list \<Rightarrow> repl_set \<Rightarrow> repl_set" where
  "remove_all xs q = foldl (\<lambda>q x. rset_remove x q) q xs"

text \<open>The test \<open>queue.len() as u64 >= capacity\<close>.\<close>

definition full :: "u64 \<Rightarrow> 'a list \<Rightarrow> bool" where
  "full cap q = (unat cap \<le> length q)"

definition pop_first :: "repl_set \<Rightarrow> repl_set" where
  "pop_first q = (case bset_first q of None \<Rightarrow> q | Some first \<Rightarrow> rset_remove first q)"

text \<open>One turn of the loop of \<open>push\<close>: drop what has expired (where expiry is configured),
  then the earliest element if that made no room.\<close>

definition evict_round :: "u64 \<Rightarrow> seconds option \<Rightarrow> seconds \<Rightarrow> repl_set \<Rightarrow> repl_set" where
  "evict_round cap expiry now q =
     (let q1 = (case expiry of
                  None \<Rightarrow> q
                | Some e \<Rightarrow> remove_all (filter (expired e now) q) q) in
      if full cap q1 then pop_first q1 else q1)"

partial_function (option) evict_loop ::
    "u64 \<Rightarrow> seconds option \<Rightarrow> (nat \<Rightarrow> seconds) \<Rightarrow> nat \<Rightarrow> repl_set \<Rightarrow> repl_set option" where
  "evict_loop cap expiry clock i q =
     (if full cap q
      then evict_loop cap expiry clock (Suc i) (evict_round cap expiry (clock i) q)
      else Some q)"

text \<open>\<open>push\<close> under the default configuration and under eventual consistency.\<close>

definition push_queue ::
    "u64 \<Rightarrow> seconds option \<Rightarrow> (nat \<Rightarrow> seconds) \<Rightarrow> repl_buffer_data \<Rightarrow> repl_set \<Rightarrow> repl_set option"
  where
  "push_queue cap expiry clock data q =
     map_option (rset_insert data) (evict_loop cap expiry clock 0 q)"

definition push_limits :: "repl_network_config \<Rightarrow> u64 \<times> seconds option" where
  "push_limits cfg =
     (case cfg of
        ReplDefault \<Rightarrow> (MAX_CAPACITY, Some EXPIRY_TIME)
      | ReplCustom ql ex _ _ _ \<Rightarrow> (ql, ex))"

definition push_public ::
    "(nat \<Rightarrow> seconds) \<Rightarrow> string \<Rightarrow> repl_buffer_data \<Rightarrow> replica_buffer_queue
      \<Rightarrow> replica_buffer_queue option" where
  "push_public clock repl_network data rb =
     (let (cap, expiry) = push_limits (config rb) in
      map_option (\<lambda>q. rb\<lparr>queue := (queue rb)(repl_network \<mapsto> q)\<rparr>)
        (push_queue cap expiry clock data (or_default (queue rb) repl_network)))"

text \<open>The temporary queue of strong consistency: at most one element is dropped, the one
  with the least message id, and no decay applies.\<close>

definition push_temporary_room :: "temp_queue \<Rightarrow> temp_queue" where
  "push_temporary_room tq =
     (if full MAX_CAPACITY tq
      then (case bset_first tq of None \<Rightarrow> tq | Some kv \<Rightarrow> bmap_remove (fst kv) tq)
      else tq)"

definition push_temporary :: "repl_buffer_data \<Rightarrow> temp_queue \<Rightarrow> temp_queue" where
  "push_temporary data tq = bmap_insert (message_id data) data tq"

section \<open>Taking the earliest element\<close>

definition pop_front_queue ::
    "string \<Rightarrow> replica_buffer_queue \<Rightarrow> repl_buffer_data option \<times> replica_buffer_queue" where
  "pop_front_queue repl_network rb =
     (case queue rb repl_network of
        None \<Rightarrow> (None, rb)
      | Some q \<Rightarrow>
          (case bset_first q of
             None \<Rightarrow> (None, rb)
           | Some first \<Rightarrow>
               (Some first, rb\<lparr>queue := (queue rb)(repl_network \<mapsto> rset_remove first q)\<rparr>)))"

section \<open>Confirmations\<close>

text \<open>
  Counting one confirmation of an entry of the temporary queue, and whether the entry is
  now fully confirmed. The unwrap of the count panics on an entry without one: the outer
  option is \<open>None\<close> then.
\<close>

definition confirm_entry :: "u64 \<Rightarrow> repl_buffer_data \<Rightarrow> (repl_buffer_data \<times> bool) option" where
  "confirm_entry peers_count d =
     (case confirmations d of
        None \<Rightarrow> None
      | Some c \<Rightarrow>
          (let d' = (if c < peers_count then d\<lparr>confirmations := Some (c + 1)\<rparr> else d) in
           Some (d', peers_count \<noteq> 0 \<and> confirmations d' = Some peers_count)))"

definition confirm_temp ::
    "u64 \<Rightarrow> string \<Rightarrow> string \<Rightarrow> replica_buffer_queue \<Rightarrow> (replica_buffer_queue \<times> bool) option" where
  "confirm_temp peers_count repl_network msg rb =
     (case temporary_queue rb repl_network of
        None \<Rightarrow> Some (rb, False)
      | Some tq \<Rightarrow>
          (case map_of tq msg of
             None \<Rightarrow> Some (rb, False)
           | Some d \<Rightarrow>
               map_option
                 (\<lambda>(d', flag). (rb\<lparr>temporary_queue :=
                    (temporary_queue rb)(repl_network \<mapsto> bmap_insert msg d' tq)\<rparr>, flag))
                 (confirm_entry peers_count d)))"

text \<open>The clean-up of the public queue before a confirmed entry moves there: expired
  entries first (once), then the earliest ones until there is room.\<close>

partial_function (option) drop_loop :: "u64 \<Rightarrow> repl_set \<Rightarrow> repl_set option" where
  "drop_loop cap q = (if full cap q then drop_loop cap (pop_first q) else Some q)"

definition confirm_cleanup :: "repl_network_config \<Rightarrow> seconds \<Rightarrow> repl_set \<Rightarrow> repl_set option" where
  "confirm_cleanup cfg now q =
     (case cfg of
        ReplDefault \<Rightarrow> Some q
      | ReplCustom ql ex _ _ _ \<Rightarrow>
          drop_loop ql
            (if full ql q
             then (case ex of None \<Rightarrow> q | Some e \<Rightarrow> filter (\<lambda>d. \<not> expired e now d) q)
             else q))"

definition confirm_move ::
    "seconds \<Rightarrow> string \<Rightarrow> string \<Rightarrow> replica_buffer_queue \<Rightarrow> replica_buffer_queue option" where
  "confirm_move now repl_network msg rb =
     map_option
       (\<lambda>q. let rb1 = rb\<lparr>queue := (queue rb)(repl_network \<mapsto> q)\<rparr> in
            (case temporary_queue rb repl_network of
               None \<Rightarrow> rb1
             | Some tq \<Rightarrow>
                 (case map_of tq msg of
                    None \<Rightarrow> rb1
                  | Some d \<Rightarrow>
                      rb1\<lparr>temporary_queue := (temporary_queue rb)(repl_network \<mapsto> bmap_remove msg tq),
                          queue := (queue rb1)(repl_network \<mapsto> rset_insert d q)\<rparr>)))
       (confirm_cleanup (config rb) now (or_default (queue rb) repl_network))"

text \<open>\<open>handle_data_confirmation\<close> once the number of peers is known. \<open>None\<close>: the task
  panics or never comes back.\<close>

definition confirm_with ::
    "u64 \<Rightarrow> seconds \<Rightarrow> string \<Rightarrow> string \<Rightarrow> replica_buffer_queue \<Rightarrow> replica_buffer_queue option" where
  "confirm_with peers_count now repl_network msg rb =
     Option.bind (confirm_temp peers_count repl_network msg rb)
       (\<lambda>(rb1, flag). if flag then confirm_move now repl_network msg rb1 else Some rb1)"

section \<open>Selecting messages\<close>

text \<open>\<open>pull_missing_data\<close>: the request names messages by id; an empty first id asks for
  the whole buffer; no id at all panics.\<close>

definition select_requested :: "byte_vector \<Rightarrow> repl_set \<Rightarrow> repl_buffer_data list option" where
  "select_requested ids q =
     map_option (\<lambda>i0. if i0 = [] then q else filter (\<lambda>d. message_id d \<in> set ids) q)
       (index ids 0)"

definition pull_missing_data ::
    "codecs \<Rightarrow> string \<Rightarrow> byte_vector \<Rightarrow> replica_buffer_queue \<Rightarrow> byte_vector option" where
  "pull_missing_data cd repl_network ids rb =
     (case queue rb repl_network of
        None \<Rightarrow> Some []
      | Some q \<Rightarrow> map_option (\<lambda>msgs. [marshal_entries cd msgs]) (select_requested ids q))"

text \<open>What \<open>sync_with_eventual_consistency\<close> announces: the aged entries, their bounds and
  their identifiers. The clock is read once for each entry.\<close>

definition aged_entries ::
    "seconds \<Rightarrow> (nat \<Rightarrow> seconds) \<Rightarrow> repl_set \<Rightarrow> repl_buffer_data list" where
  "aged_entries aging clock q =
     map snd (filter (\<lambda>(i, d). aging < saturating_sub (clock i) (incoming_timestamp d))
       (zip [0..<length q] q))"

definition clock_bounds :: "repl_buffer_data list \<Rightarrow> u64 \<times> u64" where
  "clock_bounds local_data =
     (case (bset_first local_data, bset_last local_data) of
        (Some f, Some l) \<Rightarrow> (lamport_clock f, lamport_clock l)
      | _ \<Rightarrow> (0, 0))"

definition sync_id :: "codecs \<Rightarrow> repl_buffer_data \<Rightarrow> bytes" where
  "sync_id cd d = message_id d @ ENTRY_DELIMITER @ peer_str cd (sender d)"

text \<open>\<open>sync_buffer_image\<close>: the announced messages that are not ours and not in the buffer.\<close>

definition contains :: "string \<Rightarrow> string \<Rightarrow> bool" where
  "contains s pat = list_ex (\<lambda>i. prefix pat (drop i s)) [0..<Suc (length s)]"

definition announced_ids :: "codecs \<Rightarrow> peer_id \<Rightarrow> string_vector \<Rightarrow> string list" where
  "announced_ids cd me state =
     bset_of_list id (map (\<lambda>i. hd (split_on ENTRY_DELIMITER i))
       (filter (\<lambda>i. \<not> contains i (peer_str cd me)) state))"

definition missing_ids ::
    "codecs \<Rightarrow> peer_id \<Rightarrow> u64 \<times> u64 \<Rightarrow> string_vector \<Rightarrow> repl_set \<Rightarrow> string list" where
  "missing_ids cd me bound state local_state =
     (let local_ids = map message_id (filter (\<lambda>d. fst bound \<le> lamport_clock d \<and>
            lamport_clock d \<le> snd bound) local_state) in
      filter (\<lambda>i. i \<notin> set local_ids) (announced_ids cd me state))"

definition insert_all :: "repl_buffer_data list \<Rightarrow> repl_set \<Rightarrow> repl_set" where
  "insert_all msgs q = foldl (\<lambda>q m. rset_insert m q) q msgs"

section \<open>Making room: the lemmas\<close>

lemma pop_first_tl: "pop_first q = tl q"
  by (cases q) (simp_all add: pop_first_def rset_remove_def)

lemma rset_wf_tl: "rset_wf q \<Longrightarrow> rset_wf (tl q)"
  by (cases q) (auto simp: rset_wf_def)

lemma rset_remove_filter:
  "rset_wf q \<Longrightarrow> rset_remove x q = filter (\<lambda>d. repl_key d \<noteq> repl_key x) q"
proof (induction q)
  case (Cons a q)
  then have "filter (\<lambda>d. repl_key d \<noteq> repl_key a) q = q"
    by (auto simp: rset_wf_def filter_id_conv)
  with Cons show ?case by (auto simp: rset_remove_def rset_wf_def)
qed (simp add: rset_remove_def)

lemma remove_all_filter:
  "rset_wf q \<Longrightarrow> remove_all xs q = filter (\<lambda>d. repl_key d \<notin> repl_key ` set xs) q"
proof (induction xs arbitrary: q)
  case (Cons x xs)
  then have "remove_all (x # xs) q
      = filter (\<lambda>d. repl_key d \<notin> repl_key ` set xs) (rset_remove x q)"
    by (simp add: remove_all_def repl_store.inv_del)
  also have "\<dots> = filter (\<lambda>d. repl_key d \<notin> repl_key ` set (x # xs)) q"
    using Cons.prems by (simp add: rset_remove_filter conj_commute)
  finally show ?case .
qed (simp add: remove_all_def)

lemma rset_key_inj: "rset_wf q \<Longrightarrow> inj_on repl_key (set q)"
  using distinct_bset_wf by (auto simp: rset_wf_def distinct_map)

lemma remove_filtered:
  assumes "rset_wf q" shows "remove_all (filter P q) q = filter (\<lambda>d. \<not> P d) q"
proof -
  have "repl_key d \<in> repl_key ` set (filter P q) \<longleftrightarrow> P d" if "d \<in> set q" for d
    using that rset_key_inj [OF assms] by (auto simp: inj_on_def)
  then show ?thesis
    by (simp add: remove_all_filter assms) (rule filter_cong; simp)
qed

definition unexpired :: "seconds option \<Rightarrow> seconds \<Rightarrow> repl_set \<Rightarrow> repl_set" where
  "unexpired expiry now q =
     (case expiry of None \<Rightarrow> q | Some e \<Rightarrow> filter (\<lambda>d. \<not> expired e now d) q)"

lemma evict_round_eq:
  "rset_wf q \<Longrightarrow> evict_round cap expiry now q =
     (let q1 = unexpired expiry now q in if full cap q1 then tl q1 else q1)"
  by (cases expiry) (simp_all add: evict_round_def unexpired_def remove_filtered pop_first_tl Let_def)

lemma rset_wf_unexpired: "rset_wf q \<Longrightarrow> rset_wf (unexpired expiry now q)"
  by (simp add: unexpired_def rset_wf_filter split: option.split)

lemma unexpired_subset: "set (unexpired expiry now q) \<subseteq> set q"
  by (auto simp: unexpired_def split: option.splits)

lemma length_unexpired: "length (unexpired expiry now q) \<le> length q"
  by (simp add: unexpired_def split: option.split)

lemma rset_wf_round: "rset_wf q \<Longrightarrow> rset_wf (evict_round cap expiry now q)"
  by (simp add: evict_round_eq Let_def rset_wf_unexpired rset_wf_tl)

lemma set_tl_subset: "set (tl xs) \<subseteq> set xs"
  by (cases xs) auto

lemma evict_round_subset: "rset_wf q \<Longrightarrow> set (evict_round cap expiry now q) \<subseteq> set q"
  using unexpired_subset [of expiry now q] set_tl_subset [of "unexpired expiry now q"]
  by (auto simp: evict_round_eq Let_def)

lemma evict_round_shrinks:
  assumes "0 < cap" "rset_wf q" "full cap q"
  shows "length (evict_round cap expiry now q) < length q"
proof -
  have "0 < unat cap" using assms(1) by (simp add: word_less_nat_alt)
  then show ?thesis
    using assms length_unexpired [of expiry now q] by (auto simp: evict_round_eq Let_def full_def)
qed

text \<open>What a turn drops has expired or is below everything it leaves.\<close>

definition dropped_ok ::
    "seconds option \<Rightarrow> (nat \<Rightarrow> seconds) \<Rightarrow> repl_set \<Rightarrow> repl_buffer_data \<Rightarrow> bool" where
  "dropped_ok expiry clock rest d \<longleftrightarrow>
     (\<exists>e j. expiry = Some e \<and> expired e (clock j) d) \<or> (\<forall>y \<in> set rest. repl_key d < repl_key y)"

lemma dropped_ok_mono: "dropped_ok ex cl q d \<Longrightarrow> set r \<subseteq> set q \<Longrightarrow> dropped_ok ex cl r d"
  by (auto simp: dropped_ok_def)

lemma evict_round_dropped:
  assumes "rset_wf q" "d \<in> set q" "d \<notin> set (evict_round cap expiry (clock i) q)"
  shows "dropped_ok expiry clock (evict_round cap expiry (clock i) q) d"
proof (cases "d \<in> set (unexpired expiry (clock i) q)")
  case True
  then obtain x xs where u: "unexpired expiry (clock i) q = x # xs"
    by (cases "unexpired expiry (clock i) q") auto
  have "rset_wf (x # xs)" using rset_wf_unexpired [OF assms(1)] u by metis
  then show ?thesis
    using assms True u by (auto simp: evict_round_eq Let_def dropped_ok_def rset_wf_def split: if_splits)
next
  case False
  then show ?thesis using assms(2) by (auto simp: unexpired_def dropped_ok_def split: option.splits)
qed

lemma evict_loop_total:
  assumes "0 < cap" "rset_wf q"
  shows "\<exists>q'. evict_loop cap expiry clock i q = Some q' \<and> rset_wf q' \<and> \<not> full cap q'
     \<and> set q' \<subseteq> set q \<and> (\<forall>d \<in> set q - set q'. dropped_ok expiry clock q' d)"
  using assms(2)
proof (induction "length q" arbitrary: q i rule: less_induct)
  case less
  show ?case
  proof (cases "full cap q")
    case False
    with less.prems show ?thesis by (subst evict_loop.simps) auto
  next
    case True
    let ?r = "evict_round cap expiry (clock i) q"
    obtain q' where q': "evict_loop cap expiry clock (Suc i) ?r = Some q'" "rset_wf q'"
      "\<not> full cap q'" "set q' \<subseteq> set ?r" "\<forall>d \<in> set ?r - set q'. dropped_ok expiry clock q' d"
      using less.hyps [OF evict_round_shrinks] assms(1) less.prems True rset_wf_round by blast
    have "\<forall>d \<in> set q - set q'. dropped_ok expiry clock q' d"
      using evict_round_dropped less.prems q'(4,5) dropped_ok_mono by blast
    moreover have "set q' \<subseteq> set q" using q'(4) evict_round_subset [OF less.prems] by blast
    moreover have "evict_loop cap expiry clock i q = Some q'"
      using True q'(1) by (subst evict_loop.simps) simp
    ultimately show ?thesis using q' by blast
  qed
qed

lemma evict_loop_room: "\<not> full cap q \<Longrightarrow> evict_loop cap expiry clock i q = Some q"
  by (subst evict_loop.simps) simp

lemma evict_loop_zero: "evict_loop 0 expiry clock i q = None"
proof -
  have "False" if "evict_loop 0 expiry clock i q = Some r" for r
  proof -
    have "c \<noteq> 0" if "evict_loop c ex cl j p = Some t" for c ex cl j p t
      by (rule evict_loop.raw_induct [where P = "\<lambda>c _ _ _ _ _. c \<noteq> 0", OF _ that])
        (auto simp: full_def split: if_splits)
    then show False using that by blast
  qed
  then show ?thesis by fastforce
qed

lemma drop_loop_total:
  assumes "0 < cap"
  shows "drop_loop cap q = Some (drop (Suc (length q) - unat cap) q)"
proof (induction "length q" arbitrary: q rule: less_induct)
  case less
  have c: "0 < unat cap" using assms by (simp add: word_less_nat_alt)
  show ?case
  proof (cases "full cap q")
    case True
    then obtain x xs where q: "q = x # xs" using c by (cases q) (auto simp: full_def)
    have "drop_loop cap xs = Some (drop (Suc (length xs) - unat cap) xs)"
      by (rule less) (simp add: q)
    with True c show ?thesis
      by (subst drop_loop.simps) (simp add: q pop_first_tl full_def Suc_diff_le)
  qed (subst drop_loop.simps, simp add: full_def)
qed

lemma drop_loop_zero: "drop_loop 0 q = None"
proof -
  have "c \<noteq> 0" if "drop_loop c p = Some t" for c p t
    by (rule drop_loop.raw_induct [where P = "\<lambda>c _ _. c \<noteq> 0", OF _ that])
      (auto simp: full_def split: if_splits)
  then show ?thesis by fastforce
qed

section \<open>Pushing\<close>

lemma push_queue_total:
  assumes "0 < cap" "rset_wf q"
  shows "\<exists>q'. push_queue cap expiry clock d q = Some q' \<and> rset_wf q' \<and> length q' \<le> unat cap
     \<and> repl_key d \<in> rset_keys q' \<and> set q' \<subseteq> insert d (set q)"
proof -
  obtain r where r: "evict_loop cap expiry clock 0 q = Some r" "rset_wf r" "\<not> full cap r"
    "set r \<subseteq> set q"
    using evict_loop_total [OF assms] by blast
  have "length (rset_insert d r) \<le> unat cap"
    by (rule repl_store.len_ins_below) (use r in \<open>auto simp: full_def\<close>)
  moreover have "set (rset_insert d r) \<subseteq> insert d (set q)"
    using set_bset_insert [of repl_key d r] r(4) by (auto simp: rset_insert_def)
  ultimately show ?thesis
    using r by (simp add: push_queue_def repl_store.inv_ins repl_store.keys_ins)
qed

lemma rset_insert_new:
  "repl_key d \<notin> rset_keys q \<Longrightarrow> set (rset_insert d q) = insert d (set q)"
  by (simp add: rset_insert_def rset_keys_def bset_insert_new)

lemma rset_insert_old:
  "rset_wf q \<Longrightarrow> repl_key d \<in> rset_keys q \<Longrightarrow> rset_insert d q = q"
  by (simp add: rset_insert_def rset_keys_def rset_wf_def bset_insert_old)

lemma insert_all_wf: "rset_wf q \<Longrightarrow> rset_wf (insert_all msgs q)"
  and insert_all_keys: "rset_wf q \<Longrightarrow> rset_keys (insert_all msgs q) = rset_keys q \<union> repl_key ` set msgs"
  using repl_store.ins_many [of q msgs] by (simp_all add: insert_all_def)

text \<open>What is there stays; the rest of the new entries is added.\<close>

lemma insert_all_elements:
  "rset_wf q \<Longrightarrow> distinct (map repl_key ds) \<Longrightarrow>
     set (insert_all ds q) = set q \<union> {d \<in> set ds. repl_key d \<notin> rset_keys q}"
proof (induction ds arbitrary: q)
  case Nil
  then show ?case by (simp add: insert_all_def)
next
  case (Cons d ds)
  have step: "insert_all (d # ds) q = insert_all ds (rset_insert d q)" by (simp add: insert_all_def)
  have fresh: "repl_key x \<noteq> repl_key d" if "x \<in> set ds" for x
  proof -
    have "repl_key x \<in> repl_key ` set ds" using that by simp
    moreover have "repl_key d \<notin> repl_key ` set ds" using Cons.prems(2) by simp
    ultimately show ?thesis by metis
  qed
  show ?case
  proof (cases "repl_key d \<in> rset_keys q")
    case True
    then show ?thesis using Cons by (auto simp: step rset_insert_old)
  next
    case False
    have "rset_wf (rset_insert d q)" "rset_keys (rset_insert d q) = insert (repl_key d) (rset_keys q)"
      using Cons.prems(1) by (simp_all add: repl_store.inv_ins repl_store.keys_ins)
    with Cons show ?thesis using False fresh by (auto simp: step rset_insert_new)
  qed
qed

end
