(* ===== verification/Boot_Config.thy ===== *)
theory Boot_Config
  imports Net_Types
begin

text \<open>
  Node configuration (\<open>swarm-nl/src/setup.rs\<close>, the INI part of \<open>swarm-nl/src/util.rs\<close> and
  \<open>Core::save_keypair_offline\<close>): the builder \<open>BootstrapConfig\<close>, the parsers for the list
  and map values of the file, and reading and writing the file.

  The INI document is a map from sections to maps of keys (rust-ini compares both with
  case, its default). Key generation and decoding belong to libp2p: \<open>key_ops\<close> collects them.
\<close>

section \<open>Keys and documents\<close>

datatype keypair = Keypair (keypair_type: key_type) (keypair_bytes: bytes)

record key_ops =
  generate_key :: "key_type \<Rightarrow> keypair"
  from_protobuf_encoding :: "bytes \<Rightarrow> keypair option"
  to_protobuf_encoding :: "keypair \<Rightarrow> bytes option"
  rsa_from_pkcs8 :: "bytes \<Rightarrow> keypair option"
  read_file :: "string \<Rightarrow> bytes option"

text \<open>Documented: keys are generated with the type asked for, encoding round-trips.\<close>

definition key_ops_ok :: "key_ops \<Rightarrow> bool" where
  "key_ops_ok ko \<longleftrightarrow>
     (\<forall>t. keypair_type (generate_key ko t) = t)
     \<and> (\<forall>b k. rsa_from_pkcs8 ko b = Some k \<longrightarrow> keypair_type k = RSA)
     \<and> (\<forall>k b. to_protobuf_encoding ko k = Some b \<longrightarrow> from_protobuf_encoding ko b = Some k)"

type_synonym ini_section = "string \<rightharpoonup> string"
type_synonym ini_doc = "string \<rightharpoonup> ini_section"

section \<open>BootstrapConfig\<close>

record bootstrap_config =
  tcp_port :: port
  udp_port :: port
  bc_keypair :: keypair
  boot_nodes :: nodes_map
  bc_blacklist :: blacklist_rec

definition bootstrap_new :: "key_ops \<Rightarrow> bootstrap_config" where
  "bootstrap_new ko =
     \<lparr>tcp_port = MIN_PORT, udp_port = MAX_PORT, bc_keypair = generate_key ko Ed25519,
      boot_nodes = Map.empty, bc_blacklist = \<lparr>list_of = {}\<rparr>\<rparr>"

definition with_bootnodes :: "nodes_map \<Rightarrow> bootstrap_config \<Rightarrow> bootstrap_config" where
  "with_bootnodes ns c = c\<lparr>boot_nodes := boot_nodes c ++ ns\<rparr>"

definition with_blacklist :: "peer_id list \<Rightarrow> bootstrap_config \<Rightarrow> bootstrap_config" where
  "with_blacklist ps c = c\<lparr>bc_blacklist := \<lparr>list_of = list_of (bc_blacklist c) \<union> set ps\<rparr>\<rparr>"

definition with_tcp :: "port \<Rightarrow> bootstrap_config \<Rightarrow> bootstrap_config" where
  "with_tcp p c = (if MIN_PORT < p \<and> p < MAX_PORT then c\<lparr>tcp_port := p\<rparr> else c)"

definition with_udp :: "port \<Rightarrow> bootstrap_config \<Rightarrow> bootstrap_config" where
  "with_udp p c = (if MIN_PORT < p \<and> p < MAX_PORT then c\<lparr>udp_port := p\<rparr> else c)"

text \<open>The two key setters; \<open>None\<close> is the documented panic.\<close>

definition generate_keypair ::
    "key_ops \<Rightarrow> key_type \<Rightarrow> string option \<Rightarrow> bootstrap_config \<Rightarrow> bootstrap_config option" where
  "generate_keypair ko kt path c =
     (if path = None \<and> kt = RSA then None
      else map_option (\<lambda>k. c\<lparr>bc_keypair := k\<rparr>)
        (case kt of
           RSA \<Rightarrow> (case path of
                     None \<Rightarrow> None
                   | Some f \<Rightarrow> rsa_from_pkcs8 ko
                       (case read_file ko f of None \<Rightarrow> [] | Some b \<Rightarrow> b))
         | _ \<Rightarrow> Some (generate_key ko kt)))"

text \<open>\<open>try_into_ed25519\<close> and its kin succeed on a key of that type only.\<close>

definition try_into :: "key_type \<Rightarrow> keypair \<Rightarrow> keypair option" where
  "try_into kt k = (if keypair_type k = kt then Some k else None)"

definition generate_keypair_from_protobuf ::
    "key_ops \<Rightarrow> string \<Rightarrow> bytes \<Rightarrow> bootstrap_config \<Rightarrow> bootstrap_config option" where
  "generate_keypair_from_protobuf ko key_type_str b c =
     (case key_type_from key_type_str of
        None \<Rightarrow> Some (c\<lparr>bc_keypair := generate_key ko Ed25519\<rparr>)
      | Some kt \<Rightarrow>
          (case from_protobuf_encoding ko b of
             None \<Rightarrow> None
           | Some raw \<Rightarrow>
               map_option (\<lambda>k. c\<lparr>bc_keypair := k\<rparr>)
                 (case kt of RSA \<Rightarrow> rsa_from_pkcs8 ko b | _ \<Rightarrow> try_into kt raw)))"

definition ports :: "bootstrap_config \<Rightarrow> port \<times> port" where
  "ports c = (tcp_port c, udp_port c)"

section \<open>List and map values of the file\<close>

definition string_to_vec :: "(string \<Rightarrow> 'a option) \<Rightarrow> string \<Rightarrow> 'a list" where
  "string_to_vec parse input =
     List.map_filter (\<lambda>s. parse (trim s)) (split_on '','' (trim_brackets input))"

text \<open>\<open>splitn(2, ':')\<close> of a string: the part before the first colon and the rest.\<close>

definition splitn2 :: "string \<Rightarrow> string \<times> string option" where
  "splitn2 s =
     (let key = takeWhile (\<lambda>c. c \<noteq> CHR '':'') s; rest = dropWhile (\<lambda>c. c \<noteq> CHR '':'') s in
      (key, if rest = [] then None else Some (tl rest)))"

definition hashmap_step :: "(string \<rightharpoonup> string) \<Rightarrow> string \<Rightarrow> (string \<rightharpoonup> string)" where
  "hashmap_step acc s =
     (case splitn2 (trim s) of
        (key, Some value) \<Rightarrow>
          (if 1 < length key then acc(trim key \<mapsto> trim value) else acc)
      | (_, None) \<Rightarrow> acc)"

definition string_to_hashmap :: "string \<Rightarrow> (string \<rightharpoonup> string)" where
  "string_to_hashmap input =
     foldl hashmap_step Map.empty
       (filter (\<lambda>s. CHR '':'' \<in> set s) (split_on '','' (trim_brackets input)))"

section \<open>Reading the file\<close>

definition get_default :: "ini_section \<Rightarrow> string \<Rightarrow> string" where
  "get_default sec key = (case sec key of None \<Rightarrow> [] | Some v \<Rightarrow> v)"

definition parse_port :: "string \<Rightarrow> port" where
  "parse_port s = (case parse_u16 s of None \<Rightarrow> 0 | Some p \<Rightarrow> p)"

definition ini_ports :: "ini_doc \<Rightarrow> port \<times> port" where
  "ini_ports cfg =
     (case cfg ''ports'' of
        Some sec \<Rightarrow> (parse_port (get_default sec ''tcp''), parse_port (get_default sec ''udp''))
      | None \<Rightarrow> (MIN_PORT, MAX_PORT))"

definition ini_auth :: "ini_doc \<Rightarrow> string \<times> bytes" where
  "ini_auth cfg =
     (case cfg ''auth'' of
        Some sec \<Rightarrow>
          (get_default sec ''crypto'',
           map char_of (string_to_vec parse_u8 (get_default sec ''protobuf_keypair'')))
      | None \<Rightarrow> ([], []))"

definition ini_blacklist :: "codecs \<Rightarrow> ini_doc \<Rightarrow> peer_id list" where
  "ini_blacklist cd cfg =
     (case cfg ''blacklist'' of
        Some sec \<Rightarrow> string_to_vec (parse_peer cd) (get_default sec ''blacklist'')
      | None \<Rightarrow> [])"

text \<open>The inner option is the panic of the key setter; the document is what the INI
  library read from the path, if it could.\<close>

definition read_ini_file ::
    "codecs \<Rightarrow> key_ops \<Rightarrow> (string \<rightharpoonup> ini_doc) \<Rightarrow> string
      \<Rightarrow> bootstrap_config swarm_nl_result option" where
  "read_ini_file cd ko files path =
     (case files path of
        None \<Rightarrow> Some (Inl (BoostrapFileReadError path))
      | Some cfg \<Rightarrow>
          (case cfg ''bootstrap'' of
             None \<Rightarrow> Some (Inl (BoostrapFileReadError path))
           | Some sec \<Rightarrow>
               (let (tcp, udp) = ini_ports cfg;
                    (kt, kp) = ini_auth cfg;
                    ns = string_to_hashmap (get_default sec ''boot_nodes'');
                    bl = ini_blacklist cd cfg in
                map_option
                  (\<lambda>c. Inr (with_udp udp (with_tcp tcp (with_blacklist bl (with_bootnodes ns c)))))
                  (generate_keypair_from_protobuf ko kt kp (bootstrap_new ko)))))"

definition from_file ::
    "codecs \<Rightarrow> key_ops \<Rightarrow> (string \<rightharpoonup> ini_doc) \<Rightarrow> string \<Rightarrow> bootstrap_config option" where
  "from_file cd ko files path =
     (case read_ini_file cd ko files path of
        Some (Inr c) \<Rightarrow> Some c
      | _ \<Rightarrow> None)"

section \<open>Writing the file\<close>

text \<open>Whether the INI library can write a path back is the outside world's answer.\<close>

definition write_config ::
    "(string \<Rightarrow> bool) \<Rightarrow> string \<Rightarrow> string \<Rightarrow> string \<Rightarrow> string \<Rightarrow> (string \<rightharpoonup> ini_doc)
      \<Rightarrow> (string \<rightharpoonup> ini_doc) \<times> bool" where
  "write_config writable sec key new_value path files =
     (case files path of
        None \<Rightarrow> (files, False)
      | Some doc \<Rightarrow>
          (let old = (case doc sec of None \<Rightarrow> Map.empty | Some m \<Rightarrow> m);
               doc' = doc(sec \<mapsto> old(key \<mapsto> new_value)) in
           if writable path then (files(path \<mapsto> doc'), True) else (files, False)))"

text \<open>\<open>format!("{:?}", bytes)\<close> of a byte vector.\<close>

definition debug_bytes :: "bytes \<Rightarrow> string" where
  "debug_bytes b = ''['' @ join_with '', '' (map (\<lambda>c. show_nat (code_of c)) b) @ '']''"

definition key_type_name :: "key_type \<Rightarrow> string" where
  "key_type_name kt =
     (case kt of Ed25519 \<Rightarrow> ''Ed25519'' | RSA \<Rightarrow> ''RSA'' | Secp256k1 \<Rightarrow> ''Secp256k1''
      | Ecdsa \<Rightarrow> ''Ecdsa'')"

text \<open>\<open>Core::save_keypair_offline\<close>. A missing file is created, empty; the panic on a
  failure to create it is the caller's (\<open>creatable\<close> false).\<close>

definition save_keypair_offline ::
    "key_ops \<Rightarrow> (string \<Rightarrow> bool) \<Rightarrow> (string \<Rightarrow> bool) \<Rightarrow> keypair \<Rightarrow> string
      \<Rightarrow> (string \<rightharpoonup> ini_doc) \<Rightarrow> ((string \<rightharpoonup> ini_doc) \<times> bool) option" where
  "save_keypair_offline ko creatable writable kp path files =
     (if files path = None \<and> \<not> creatable path then None
      else
       (let files1 = (if files path = None then files(path \<mapsto> Map.empty) else files) in
        if keypair_type kp \<noteq> RSA then
          (case to_protobuf_encoding ko kp of
             Some proto \<Rightarrow>
               (let (files2, ok1) =
                      write_config writable ''auth'' ''protobuf_keypair'' (debug_bytes proto) path files1
                in if ok1
                   then Some (write_config writable ''auth'' ''Crypto''
                          (key_type_name (keypair_type kp)) path files2)
                   else Some (files2, False))
           | None \<Rightarrow> Some (files1, False))
        else Some (files1, False)))"

end
