(* ===== verification/Shard_State.thy ===== *)
theory Shard_State
  imports Net_Types
begin

text \<open>
  The view a node keeps of the shard network (\<open>Core::update_shard_state\<close> in
  \<open>swarm-nl/src/core/mod.rs\<close>, the image functions of \<open>swarm-nl/src/util.rs\<close>): which peers
  are in which shard, how an announcement changes it, and how the image a peer sends is
  merged. The locale \<open>image_merge\<close> is the contract that makes the order and repetition of
  images irrelevant.
\<close>

section \<open>Announcements\<close>

definition update_shard_state :: "peer_id \<Rightarrow> shard_id \<Rightarrow> bool \<Rightarrow> shard_image \<Rightarrow> shard_image" where
  "update_shard_state peer sid join st =
     (let entry = (case st sid of None \<Rightarrow> {} | Some ps \<Rightarrow> ps) in
      if join then st(sid \<mapsto> insert peer entry)
      else (let rest = Set.filter (\<lambda>p. p \<noteq> peer) entry in
            if rest = {} then st(sid := None) else st(sid \<mapsto> rest)))"

section \<open>Images\<close>

definition text_image :: "codecs \<Rightarrow> shard_image \<Rightarrow> (string \<rightharpoonup> string set)" where
  "text_image cd img = (\<lambda>sid. map_option (\<lambda>ps. peer_str cd ` ps) (img sid))"

definition shard_image_to_bytes :: "codecs \<Rightarrow> shard_image \<Rightarrow> bytes option" where
  "shard_image_to_bytes cd img =
     image_json cd (text_image cd img)"

definition bytes_to_shard_image :: "codecs \<Rightarrow> bytes \<Rightarrow> shard_image" where
  "bytes_to_shard_image cd b =
     (case json_image cd b of
        Some m \<Rightarrow> (\<lambda>sid. map_option (\<lambda>ss. Option.these (parse_peer cd ` ss)) (m sid))
      | None \<Rightarrow> Map.empty)"

text \<open>\<open>merge_shard_states\<close> walks the incoming map in the iteration order of its table, here
  any list of its entries.\<close>

definition merge_entry :: "shard_image \<Rightarrow> string \<times> peer_id set \<Rightarrow> shard_image" where
  "merge_entry st e =
     (case st (fst e) of
        Some local_peers \<Rightarrow> st(fst e \<mapsto> local_peers \<union> snd e)
      | None \<Rightarrow> st(fst e \<mapsto> snd e))"

definition merge_shard_states ::
    "shard_image \<Rightarrow> (string \<times> peer_id set) list \<Rightarrow> shard_image" where
  "merge_shard_states local_state incoming = foldl merge_entry local_state incoming"

definition enumerates :: "('k \<times> 'v) list \<Rightarrow> ('k \<rightharpoonup> 'v) \<Rightarrow> bool" where
  "enumerates es m = (distinct (map fst es) \<and> map_of es = m)"

text \<open>The abstract merge of two images: the union of the peers of every shard.\<close>

definition merged :: "shard_image \<Rightarrow> shard_image \<Rightarrow> shard_image" where
  "merged st m =
     (\<lambda>sid. case m sid of
        None \<Rightarrow> st sid
      | Some ps \<Rightarrow> Some (case st sid of None \<Rightarrow> ps | Some l \<Rightarrow> l \<union> ps))"

section \<open>The contract of a merge\<close>

locale image_merge =
  fixes merge :: "'s \<Rightarrow> 's \<Rightarrow> 's"
  assumes merge_assoc: "merge (merge a b) c = merge a (merge b c)"
    and merge_comm: "merge a b = merge b a"
    and merge_idem: "merge a a = a"
begin

definition merge_all :: "'s \<Rightarrow> 's list \<Rightarrow> 's" where
  "merge_all s is = foldl merge s is"

lemma merge_left_comm: "merge (merge s a) b = merge (merge s b) a"
  using merge_assoc merge_comm by metis

lemma merge_absorb: "merge (merge s a) a = merge s a"
  using merge_assoc merge_idem by metis

lemma merge_all_out: "merge_all (merge s a) is = merge (merge_all s is) a"
proof (induction "is" arbitrary: s)
  case (Cons i "is")
  show ?case
    using Cons [of "merge s i"] by (simp add: merge_all_def merge_left_comm [of s a i])
qed (simp add: merge_all_def)

lemma merge_all_member: "a \<in> set is \<Longrightarrow> merge (merge_all s is) a = merge_all s is"
proof (induction "is" arbitrary: s)
  case (Cons i "is")
  show ?case
  proof (cases "a = i")
    case True
    then show ?thesis
      using merge_all_out [of s i "is"] by (simp add: merge_all_def merge_absorb)
  next
    case False
    with Cons show ?thesis by (simp add: merge_all_def)
  qed
qed simp

lemma merge_all_merge_all: "set js \<subseteq> set is \<Longrightarrow> merge_all (merge_all s is) js = merge_all s is"
proof (induction js)
  case (Cons j js)
  have "merge_all (merge_all s is) (j # js) = merge_all (merge (merge_all s is) j) js"
    by (simp add: merge_all_def)
  then show ?case using Cons by (simp add: merge_all_member)
qed (simp add: merge_all_def)

lemma merge_all_append: "merge_all s (is @ js) = merge_all (merge_all s is) js"
  by (simp add: merge_all_def)

lemma merge_all_swap: "merge_all s (is @ js) = merge_all s (js @ is)"
proof (induction "is" arbitrary: s)
  case (Cons i "is")
  have "merge_all s ((i # is) @ js) = merge_all (merge s i) (is @ js)"
    by (simp add: merge_all_def)
  also have "\<dots> = merge_all (merge_all (merge s i) js) is"
    using Cons [of "merge s i"] merge_all_append by metis
  also have "\<dots> = merge_all (merge (merge_all s js) i) is"
    by (simp add: merge_all_out)
  also have "\<dots> = merge_all s (js @ i # is)"
    by (simp add: merge_all_def)
  finally show ?case .
qed simp

text \<open>Convergence: only the set of the images received matters.\<close>

lemma merge_all_set_eq:
  assumes "set is = set js"
  shows "merge_all s is = merge_all s js"
proof -
  have "merge_all s is = merge_all s (is @ js)"
    using assms by (simp add: merge_all_append merge_all_merge_all)
  also have "\<dots> = merge_all s (js @ is)"
    by (rule merge_all_swap)
  also have "\<dots> = merge_all s js"
    using assms by (simp add: merge_all_append merge_all_merge_all)
  finally show ?thesis .
qed

end

interpretation shard_merge: image_merge merged
  by unfold_locales (auto simp: merged_def fun_eq_iff split: option.splits)

section \<open>Lemmas\<close>

lemma merge_entry_merged: "merge_entry st e = merged st [fst e \<mapsto> snd e]"
  by (auto simp: merge_entry_def merged_def fun_eq_iff split: option.splits)

lemma merged_empty [simp]: "merged st Map.empty = st"
  by (simp add: merged_def)

lemma merge_shard_states_merged:
  "enumerates es m \<Longrightarrow> merge_shard_states st es = merged st m"
proof (induction es arbitrary: st m)
  case Nil
  then have "m = Map.empty" by (simp add: enumerates_def)
  then show ?case by (simp add: merge_shard_states_def)
next
  case (Cons e es)
  then have "merge_shard_states (merge_entry st e) es = merged (merge_entry st e) (map_of es)"
    by (simp add: enumerates_def)
  moreover have "merged (merge_entry st e) (map_of es) = merged st m"
  proof -
    obtain k v where e: "e = (k, v)" by (cases e)
    have "map_of es k = None" "m = (map_of es)(k \<mapsto> v)"
      using Cons.prems by (auto simp: enumerates_def e map_of_eq_None_iff)
    then show ?thesis
      by (auto simp: e merge_entry_def merged_def fun_eq_iff split: option.splits)
  qed
  ultimately show ?case by (simp add: merge_shard_states_def)
qed

lemma bytes_image_roundtrip:
  assumes "peer_text_ok cd" and "json_ok cd (text_image cd m)"
  shows "\<exists>b. shard_image_to_bytes cd m = Some b \<and> bytes_to_shard_image cd b = m"
proof -
  obtain b where b: "shard_image_to_bytes cd m = Some b"
    "json_image cd b = Some (text_image cd m)"
    using assms(2) unfolding json_ok_def shard_image_to_bytes_def by blast
  have "Option.these (parse_peer cd ` peer_str cd ` ps) = ps" for ps
  proof -
    have "parse_peer cd ` peer_str cd ` ps = Some ` ps"
      using assms(1) by (auto simp: peer_text_ok_def image_image)
    then show ?thesis by simp
  qed
  with b show ?thesis
    by (auto simp: bytes_to_shard_image_def text_image_def option.map_comp comp_def option.map_ident)
qed

definition no_empty_shard :: "shard_image \<Rightarrow> bool" where
  "no_empty_shard st \<longleftrightarrow> (\<forall>sid ps. st sid = Some ps \<longrightarrow> ps \<noteq> {})"

definition members :: "shard_image \<Rightarrow> shard_id \<Rightarrow> peer_id set" where
  "members st sid = (case st sid of None \<Rightarrow> {} | Some ps \<Rightarrow> ps)"

lemma update_no_empty: "no_empty_shard st \<Longrightarrow> no_empty_shard (update_shard_state p sid j st)"
  by (auto simp: no_empty_shard_def update_shard_state_def Let_def split: option.splits)

lemma update_members:
  "members (update_shard_state p sid j st) sid' =
     (if sid' = sid then (if j then insert p (members st sid) else members st sid - {p})
      else members st sid')"
  by (auto simp: members_def update_shard_state_def Let_def split: option.splits)

lemma merged_members: "members (merged st m) sid = members st sid \<union> members m sid"
  by (auto simp: members_def merged_def split: option.splits)

lemma merged_no_empty: "no_empty_shard st \<Longrightarrow> no_empty_shard m \<Longrightarrow> no_empty_shard (merged st m)"
  by (auto simp: no_empty_shard_def merged_def split: option.splits)

end
