(* ===== verification/Core_Net.thy ===== *)
theory Core_Net
  imports Repl_Queue Boot_Config Shard_State
begin

text \<open>
  The state of a node's \<open>Core\<close> (\<open>swarm-nl/src/core/mod.rs\<close>) and its traffic with the
  network task: \<open>send_to_network\<close>, \<open>recv_from_network\<close>, \<open>query_network\<close> and the task that
  files responses, \<open>handle_network_response\<close>.

  The clones of a \<open>Core\<close> share their buffers, so one record is passed along. What the rest
  of the world does during an operation is a parameter, \<open>env\<close>: whether the channel to the
  network task is open, the messages that reach the response task before each look at the
  response buffer, the readings of the wall clock, and the order in which a set of peers
  is walked after a shuffle. A spawned task is recorded in \<open>tasks\<close>; \<open>Node_Machine\<close> runs it.
\<close>

section \<open>The state\<close>

text \<open>
  The functions the application supplies run inside the network task and may panic (\<open>None\<close>).
  A \<open>ShardStorage\<close> is an object: \<open>fetch_data\<close> answers and leaves it in its next state.
\<close>

type_synonym rpc_callback = "rpc_data \<Rightarrow> rpc_data option"
type_synonym gossip_callback =
  "peer_id \<Rightarrow> msg_id \<Rightarrow> peer_id option \<Rightarrow> string \<Rightarrow> string_vector \<Rightarrow> bool option"

codatatype shard_storage =
  Storage (fetch_data: "byte_vector \<Rightarrow> (byte_vector \<times> shard_storage) option")

text \<open>\<open>DefaultShardStorage\<close> answers with the key.\<close>

primcorec default_storage :: shard_storage where
  "default_storage = Storage (\<lambda>key. Some (key, default_storage))"

record sharding_info =
  sh_id :: string
  local_storage :: shard_storage
  sh_state :: shard_image

record network_info =
  net_id :: string
  ping :: ping_info
  gossip_blacklist :: blacklist_rec
  rpc_handler_fn :: rpc_callback
  gossip_filter_fn :: gossip_callback
  replication :: "string \<rightharpoonup> repl_config_data"
  sharding :: sharding_info

datatype task =
    InitSharding string
  | SyncEventual string
  | IncomingReplData string repl_buffer_data
  | DataConfirmation string string
  | SyncImage string string "u64 \<times> u64" string_vector
  | PublishShardState peer_id
  | IncomingShardData string peer_id byte_vector

record core =
  core_peer :: peer_id
  app_channel :: "stream_data list"
  response_buffer :: stream_response_buffer
  request_buffer :: stream_request_buffer
  current_stream_id :: stream_id
  event_queue :: "network_event data_queue"
  replica_buffer :: replica_buffer_queue
  network_info :: network_info
  tasks :: "task list"

record env =
  chan_open :: bool
  arrivals :: "stream_id \<Rightarrow> app_data \<Rightarrow> nat \<Rightarrow> stream_data list"
  clock :: "nat \<Rightarrow> seconds"
  shuffled :: "peer_id set \<Rightarrow> peer_id list"

definition push_event :: "network_event \<Rightarrow> core \<Rightarrow> core" where
  "push_event ev c = c\<lparr>event_queue := dq_push ev (event_queue c)\<rparr>"

definition spawn :: "task \<Rightarrow> core \<Rightarrow> core" where
  "spawn t c = c\<lparr>tasks := tasks c @ [t]\<rparr>"

definition set_replication :: "(string \<rightharpoonup> repl_config_data) \<Rightarrow> core \<Rightarrow> core" where
  "set_replication m c = c\<lparr>network_info := (network_info c)\<lparr>replication := m\<rparr>\<rparr>"

definition shard_view :: "core \<Rightarrow> shard_image" where
  "shard_view c = sh_state (sharding (network_info c))"

definition set_shard_view :: "shard_image \<Rightarrow> core \<Rightarrow> core" where
  "set_shard_view st c =
     c\<lparr>network_info := (network_info c)\<lparr>sharding := (sharding (network_info c))\<lparr>sh_state := st\<rparr>\<rparr>\<rparr>"

text \<open>\<open>Core::events\<close> and \<open>Core::next_event\<close>.\<close>

definition take_events :: "core \<Rightarrow> core \<times> network_event list" where
  "take_events c =
     (c\<lparr>event_queue := dq_drain (event_queue c)\<rparr>, dq_into_inner (event_queue c))"

text \<open>\<open>events\<close> takes the lock of the queue twice, to copy it and to empty it. Events the network task
  logs between the two are lost: they are not in the copy, and the queue is empty afterwards. So
  taking all events in one step, as above, comes to the same.\<close>

definition take_events_while :: "network_event list \<Rightarrow> core \<Rightarrow> core \<times> network_event list" where
  "take_events_while logged_between c =
     (let events = dq_into_inner (event_queue c);
          c1 = foldl (\<lambda>c e. push_event e c) c logged_between in
      (c1\<lparr>event_queue := dq_drain (event_queue c1)\<rparr>, events))"

lemma events_logged_between_are_lost: "take_events_while logged_between c = take_events c"
proof -
  have "(foldl (\<lambda>c e. push_event e c) c es)\<lparr>event_queue := q\<rparr> = c\<lparr>event_queue := q\<rparr>" for es q
    by (induction es arbitrary: c) (simp_all add: push_event_def)
  then show ?thesis by (simp add: take_events_while_def take_events_def dq_drain_def)
qed

definition next_event :: "core \<Rightarrow> core \<times> network_event option" where
  "next_event c = (let (r, q) = dq_pop (event_queue c) in (c\<lparr>event_queue := q\<rparr>, r))"

section \<open>Sending a request\<close>

fun untracked :: "app_data \<Rightarrow> bool" where
  "untracked (KademliaDeleteRecord _) = True"
| "untracked (KademliaStopProviding _) = True"
| "untracked _ = False"

text \<open>
  The identifier is read under its lock, which is released before the rest runs:
  \<open>send_with_id\<close> is what follows. Alone, the two are \<open>send_to_network\<close>; \<open>Send_Race\<close>
  interleaves them.
\<close>

definition channel_send :: "env \<Rightarrow> stream_data \<Rightarrow> core \<Rightarrow> core" where
  "channel_send env request c =
     (if chan_open env then c\<lparr>app_channel := app_channel c @ [request]\<rparr> else c)"

definition send_with_id ::
    "env \<Rightarrow> stream_id \<Rightarrow> app_data \<Rightarrow> core \<Rightarrow> core \<times> stream_id option" where
  "send_with_id env sid app_request c =
     (let request = FromApplication sid app_request in
      if untracked app_request then (channel_send env request c, None)
      else
       (let (rb, ok) = request_insert sid (request_buffer c) in
        if \<not> ok then (c, None)
        else if chan_open env
        then ((channel_send env request (c\<lparr>request_buffer := rb\<rparr>))\<lparr>current_stream_id := sid\<rparr>,
              Some sid)
        else (c\<lparr>request_buffer := rb\<rparr>, None)))"

definition send_to_network :: "env \<Rightarrow> app_data \<Rightarrow> core \<Rightarrow> core \<times> stream_id option" where
  "send_to_network env app_request c =
     send_with_id env (stream_id_next (current_stream_id c)) app_request c"

section \<open>Filing and reading responses\<close>

text \<open>One turn of \<open>handle_network_response\<close>.\<close>

definition response_result :: "app_response \<Rightarrow> app_response_result" where
  "response_result r = (case r of Error_Resp e \<Rightarrow> Inl e | res \<Rightarrow> Inr res)"

definition handle_network_response :: "stream_data \<Rightarrow> core \<Rightarrow> core" where
  "handle_network_response msg c =
     (case msg of
        ToApplication sid r \<Rightarrow>
          c\<lparr>response_buffer := fst (response_insert sid (response_result r) (response_buffer c))\<rparr>
      | FromApplication _ _ \<Rightarrow> c)"

text \<open>
  The polling loop: the messages \<open>arr n\<close> are filed before look number \<open>n\<close>; the result
  carries the seconds slept. (The loop sleeps with the lock of the response buffer held, so
  responses are filed only between a sleep and the next look, as here.)
\<close>

function recv_loop ::
    "(nat \<Rightarrow> stream_data list) \<Rightarrow> stream_id \<Rightarrow> nat \<Rightarrow> core \<Rightarrow> core \<times> nat \<times> app_response_result"
  where
  "recv_loop arr sid loop_count c =
     (let c1 = foldl (\<lambda>c m. handle_network_response m c) c (arr loop_count);
          (buf, found) = response_remove sid (response_buffer c1);
          c2 = c1\<lparr>response_buffer := buf\<rparr> in
      case found of
        Some result \<Rightarrow> (c2, 0, result)
      | None \<Rightarrow>
          if loop_count < 10
          then (let (c3, slept, result) = recv_loop arr sid (loop_count + 1) c2 in
                (c3, slept + TASK_SLEEP_DURATION, result))
          else (c2, 0, Inl NetworkReadTimeout))"
  by pat_completeness auto
termination by (relation "measure (\<lambda>(arr, sid, n, c). 10 - n)") auto

declare recv_loop.simps [simp del]

definition recv_from_network ::
    "(nat \<Rightarrow> stream_data list) \<Rightarrow> stream_id \<Rightarrow> core \<Rightarrow> core \<times> app_response_result" where
  "recv_from_network arr sid c =
     (let (c', _, result) = recv_loop arr sid 0 c in (c', result))"

definition query_network :: "env \<Rightarrow> app_data \<Rightarrow> core \<Rightarrow> core \<times> app_response_result" where
  "query_network env request c =
     (case send_to_network env request c of
        (c1, Some sid) \<Rightarrow> recv_from_network (arrivals env sid request) sid c1
      | (c1, None) \<Rightarrow> (c1, Inl StreamBufferOverflow))"

text \<open>\<open>Core::replica_peers\<close>: the gossip peers subscribed to the network.\<close>

definition replica_peers :: "env \<Rightarrow> string \<Rightarrow> core \<Rightarrow> core \<times> peer_id list" where
  "replica_peers env repl_network c =
     (case query_network env GossipsubGetInfo c of
        (c1, Inr (GossipsubGetInfo_Resp _ mesh _)) \<Rightarrow>
          (c1, map fst (filter (\<lambda>(p, nets). repl_network \<in> set nets) mesh))
      | (c1, _) \<Rightarrow> (c1, []))"

section \<open>What the traffic leaves alone\<close>

text \<open>Everything but the channel, the two buffers and the stream identifier.\<close>

definition same_node :: "core \<Rightarrow> core \<Rightarrow> bool" where
  "same_node c c' \<longleftrightarrow> core_peer c' = core_peer c \<and> event_queue c' = event_queue c
     \<and> replica_buffer c' = replica_buffer c \<and> network_info c' = network_info c
     \<and> tasks c' = tasks c"

lemma same_node_refl [simp]: "same_node c c"
  by (simp add: same_node_def)

lemma same_node_trans [trans]: "same_node a b \<Longrightarrow> same_node b c \<Longrightarrow> same_node a c"
  by (simp add: same_node_def)

lemma same_node_fields [simp]:
  "same_node c (c\<lparr>response_buffer := rb\<rparr>)" "same_node c (c\<lparr>request_buffer := qb\<rparr>)"
  "same_node c (c\<lparr>app_channel := ch\<rparr>)" "same_node c (c\<lparr>current_stream_id := s\<rparr>)"
  by (simp_all add: same_node_def)

lemma same_node_send_id: "same_node c (fst (send_with_id env sid r c))"
  by (auto simp: send_with_id_def channel_send_def same_node_def Let_def split: prod.splits)

lemma same_node_send: "same_node c (fst (send_to_network env r c))"
  by (simp add: send_to_network_def same_node_send_id)

lemma same_node_handle: "same_node c (handle_network_response m c)"
  by (auto simp: handle_network_response_def split: stream_data.splits)

lemma same_node_handle_all: "same_node c (foldl (\<lambda>c m. handle_network_response m c) c ms)"
  by (rule foldl_invariant [where P = "same_node c"]) (auto intro: same_node_trans same_node_handle)

lemma same_node_recv_loop: "same_node c (fst (recv_loop arr sid n c))"
proof (induction arr sid n c rule: recv_loop.induct)
  case (1 arr sid n c)
  let ?c1 = "foldl (\<lambda>c m. handle_network_response m c) c (arr n)"
  let ?c2 = "?c1\<lparr>response_buffer := fst (response_remove sid (response_buffer ?c1))\<rparr>"
  have c2: "same_node c ?c2"
    using same_node_handle_all same_node_fields(1) same_node_trans by blast
  have eq: "response_remove sid (response_buffer ?c1)
      = (fst (response_remove sid (response_buffer ?c1)), snd (response_remove sid (response_buffer ?c1)))"
    by simp
  show ?case
  proof (cases "snd (response_remove sid (response_buffer ?c1)) = None \<and> n < 10")
    case True
    then have "same_node ?c2 (fst (recv_loop arr sid (n + 1) ?c2))"
      by (intro "1.IH" [OF refl eq [symmetric] refl]) auto
    with c2 have "same_node c (fst (recv_loop arr sid (n + 1) ?c2))"
      by (rule same_node_trans)
    with True show ?thesis
      by (subst recv_loop.simps) (simp add: Let_def case_prod_beta)
  next
    case False
    with c2 show ?thesis
      by (subst recv_loop.simps) (auto simp: Let_def case_prod_beta split: option.splits)
  qed
qed

lemma same_node_recv: "same_node c (fst (recv_from_network arr sid c))"
  using same_node_recv_loop [of c arr sid 0]
  by (simp add: recv_from_network_def case_prod_beta)

lemma same_node_query: "same_node c (fst (query_network env r c))"
  using same_node_send [of c env r] same_node_recv same_node_trans
  by (fastforce simp: query_network_def split: prod.splits option.splits)

lemma same_node_peers: "same_node c (fst (replica_peers env rn c))"
  using same_node_query [of c env GossipsubGetInfo]
  by (auto simp: replica_peers_def split: prod.splits sum.splits app_response.splits)

lemma query_frame [simp]:
  "core_peer (fst (query_network env r c)) = core_peer c"
  "event_queue (fst (query_network env r c)) = event_queue c"
  "replica_buffer (fst (query_network env r c)) = replica_buffer c"
  "network_info (fst (query_network env r c)) = network_info c"
  "tasks (fst (query_network env r c)) = tasks c"
  using same_node_query [of c env r] by (simp_all add: same_node_def)

lemma peers_frame [simp]:
  "core_peer (fst (replica_peers env r c)) = core_peer c"
  "event_queue (fst (replica_peers env r c)) = event_queue c"
  "replica_buffer (fst (replica_peers env r c)) = replica_buffer c"
  "network_info (fst (replica_peers env r c)) = network_info c"
  "tasks (fst (replica_peers env r c)) = tasks c"
  using same_node_peers [of c env r] by (simp_all add: same_node_def)

section \<open>Sending: lemmas\<close>

lemma send_with_id_Some:
  "send_with_id env sid r c = (c', Some s) \<Longrightarrow>
     s = sid \<and> current_stream_id c' = sid \<and> \<not> untracked r
     \<and> req_buffer (request_buffer c') = insert sid (req_buffer (request_buffer c))
     \<and> req_size (request_buffer c') = req_size (request_buffer c)
     \<and> card (req_buffer (request_buffer c)) < req_size (request_buffer c)
     \<and> app_channel c' = app_channel c @ [FromApplication sid r]
     \<and> response_buffer c' = response_buffer c"
  by (auto simp: send_with_id_def channel_send_def request_insert_def Let_def split: if_splits)

lemma send_accepts:
  "chan_open env \<Longrightarrow> \<not> untracked r
     \<Longrightarrow> card (req_buffer (request_buffer c)) < req_size (request_buffer c)
     \<Longrightarrow> snd (send_with_id env sid r c) = Some sid"
  by (simp add: send_with_id_def request_insert_def Let_def)

lemma send_full:
  "\<not> untracked r \<Longrightarrow> req_size (request_buffer c) \<le> card (req_buffer (request_buffer c))
     \<Longrightarrow> send_with_id env sid r c = (c, None)"
  by (simp add: send_with_id_def request_insert_def Let_def)

lemma send_untracked:
  "untracked r \<Longrightarrow> send_with_id env sid r c = (channel_send env (FromApplication sid r) c, None)"
  by (simp add: send_with_id_def)

text \<open>The identifiers that a list of requests gets, one after the other.\<close>

fun send_all :: "env \<Rightarrow> app_data list \<Rightarrow> core \<Rightarrow> core \<times> stream_id option list" where
  "send_all env [] c = (c, [])"
| "send_all env (r # rs) c =
     (let (c1, s) = send_to_network env r c; (c2, ss) = send_all env rs c1 in (c2, s # ss))"

lemma funpow_next: "(stream_id_next ^^ k) (stream_id_next s) = (stream_id_next ^^ Suc k) s"
  by (simp only: funpow_Suc_right comp_def)

lemma send_all_ids:
  assumes "chan_open env" and "list_all (\<lambda>r. \<not> untracked r) rs"
    and "finite (req_buffer (request_buffer c))"
    and "card (req_buffer (request_buffer c)) + length rs \<le> req_size (request_buffer c)"
  shows "snd (send_all env rs c)
     = map (\<lambda>k. Some ((stream_id_next ^^ Suc k) (current_stream_id c))) [0..<length rs]"
  using assms
proof (induction rs arbitrary: c)
  case (Cons r rs)
  let ?sid = "stream_id_next (current_stream_id c)"
  have "snd (send_with_id env ?sid r c) = Some ?sid"
    by (rule send_accepts) (use Cons.prems in auto)
  then obtain c1 where c1: "send_to_network env r c = (c1, Some ?sid)"
    by (metis prod.collapse send_to_network_def)
  note some = send_with_id_Some [OF c1 [unfolded send_to_network_def]]
  have "card (req_buffer (request_buffer c1)) \<le> Suc (card (req_buffer (request_buffer c)))"
    using some by (simp add: card_insert_le_m1 card_insert_if Cons.prems(3))
  then have rest: "snd (send_all env rs c1)
      = map (\<lambda>k. Some ((stream_id_next ^^ Suc k) (current_stream_id c1))) [0..<length rs]"
    using Cons some by auto
  have shift: "[0..<Suc (length rs)] = 0 # map Suc [0..<length rs]"
    by (simp only: map_Suc_upt upt_conv_Cons zero_less_Suc)
  have "current_stream_id c1 = ?sid" using some by simp
  then show ?case
    using c1 by (simp add: case_prod_beta Let_def rest shift funpow_next comp_def
        del: funpow.simps upt_Suc) simp
qed simp

section \<open>Waiting for a response: lemmas\<close>

lemma recv_loop_slept:
  "n \<le> 10 \<Longrightarrow> fst (snd (recv_loop arr sid n c)) \<le> (10 - n) * TASK_SLEEP_DURATION"
proof (induction "10 - n" arbitrary: n c)
  case 0
  then show ?case
    by (subst recv_loop.simps) (auto simp: Let_def case_prod_beta split: option.splits)
next
  case (Suc k)
  have "fst (snd (recv_loop arr sid (n + 1) c')) \<le> (10 - (n + 1)) * TASK_SLEEP_DURATION" for c'
    by (rule Suc.hyps(1)) (use Suc.hyps(2) in auto)
  then have step: "fst (snd (recv_loop arr sid (n + 1) c')) + TASK_SLEEP_DURATION
      \<le> (10 - n) * TASK_SLEEP_DURATION" for c'
  proof -
    have "10 - n = Suc (10 - (n + 1))" using Suc.hyps(2) by simp
    then show ?thesis
      using \<open>fst (snd (recv_loop arr sid (n + 1) c')) \<le> _\<close> by simp
  qed
  show ?case
    using step by (subst recv_loop.simps) (auto simp: Let_def case_prod_beta split: option.splits)
qed

text \<open>A message about another stream does not touch this one's slot.\<close>

fun about :: "stream_id \<Rightarrow> stream_data \<Rightarrow> bool" where
  "about sid (ToApplication s _) = (s = sid)"
| "about sid (FromApplication _ _) = False"

lemma handle_other:
  "\<not> about sid m \<Longrightarrow>
     map_of (resp_buffer (response_buffer (handle_network_response m c))) sid
       = map_of (resp_buffer (response_buffer c)) sid"
  by (cases m) (auto simp: handle_network_response_def response_insert_def update_conv')

lemma handle_all_other:
  assumes "list_all (\<lambda>m. \<not> about sid m) ms"
  shows "map_of (resp_buffer (response_buffer (foldl (\<lambda>c m. handle_network_response m c) c ms))) sid
     = map_of (resp_buffer (response_buffer c)) sid"
  using assms by (induction ms arbitrary: c) (auto simp: handle_other)

lemma response_remove_None:
  "map_of (resp_buffer b) sid = None \<Longrightarrow> response_remove sid b = (b, None)"
  by (simp add: response_remove_def delete_idem map_of_eq_None_iff)

lemma recv_loop_timeout:
  assumes "n \<le> 10" and "map_of (resp_buffer (response_buffer c)) sid = None"
    and "\<And>k. n \<le> k \<Longrightarrow> k \<le> 10 \<Longrightarrow> list_all (\<lambda>m. \<not> about sid m) (arr k)"
  shows "snd (recv_loop arr sid n c) = ((10 - n) * TASK_SLEEP_DURATION, Inl NetworkReadTimeout)"
  using assms
proof (induction "10 - n" arbitrary: n c)
  case 0
  let ?c1 = "foldl (\<lambda>c m. handle_network_response m c) c (arr n)"
  have "map_of (resp_buffer (response_buffer ?c1)) sid = None"
    using 0 by (simp add: handle_all_other)
  then have "response_remove sid (response_buffer ?c1) = (response_buffer ?c1, None)"
    by (rule response_remove_None)
  with 0 show ?case by (subst recv_loop.simps) (simp add: Let_def)
next
  case (Suc k)
  let ?c1 = "foldl (\<lambda>c m. handle_network_response m c) c (arr n)"
  have none: "map_of (resp_buffer (response_buffer ?c1)) sid = None"
    using Suc.prems by (simp add: handle_all_other)
  then have "response_remove sid (response_buffer ?c1) = (response_buffer ?c1, None)"
    by (rule response_remove_None)
  moreover have "snd (recv_loop arr sid (n + 1) ?c1)
      = ((10 - (n + 1)) * TASK_SLEEP_DURATION, Inl NetworkReadTimeout)"
    by (rule Suc.hyps(1)) (use Suc.hyps(2) Suc.prems none in auto)
  moreover have "n < 10" using Suc.hyps(2) by simp
  ultimately show ?case
    by (subst recv_loop.simps) (auto simp: Let_def case_prod_beta TASK_SLEEP_DURATION_def)
qed

lemma recv_loop_found:
  assumes "map_of (resp_buffer (response_buffer
     (foldl (\<lambda>c m. handle_network_response m c) c (arr n)))) sid = Some r"
  shows "snd (recv_loop arr sid n c) = (0, r)"
  using assms by (subst recv_loop.simps) (simp add: Let_def response_remove_def)

lemma handle_response_slot:
  assumes "length (resp_buffer (response_buffer c)) < resp_size (response_buffer c)"
  shows "map_of (resp_buffer (response_buffer
     (handle_network_response (ToApplication sid r) c))) sid = Some (response_result r)"
  using assms by (simp add: handle_network_response_def response_insert_def update_conv')

text \<open>A network that answers a request at once, while the response buffer has room.\<close>

lemma query_answered:
  assumes "snd (send_to_network env req c) = Some sid"
    and "arrivals env sid req 0 = [ToApplication sid r]"
    and "length (resp_buffer (response_buffer c)) < resp_size (response_buffer c)"
  shows "snd (query_network env req c) = response_result r"
proof -
  obtain c1 where c1: "send_to_network env req c = (c1, Some sid)"
    using assms(1) by (metis prod.collapse)
  then have "response_buffer c1 = response_buffer c"
    using send_with_id_Some by (metis send_to_network_def)
  then have "snd (recv_loop (arrivals env sid req) sid 0 c1) = (0, response_result r)"
    using assms by (intro recv_loop_found) (simp add: handle_response_slot)
  then show ?thesis
    by (simp add: query_network_def c1 recv_from_network_def case_prod_beta)
qed

end
