(* ===== verification/Repl_Sync.thy ===== *)
theory Repl_Sync
  imports Core_Net
begin

text \<open>
  Replication as the node runs it: the operations of \<open>ReplicaBufferQueue\<close> that talk to the
  network (\<open>swarm-nl/src/core/replication.rs\<close>) and the methods of \<open>Core\<close> that drive them
  (\<open>swarm-nl/src/core/mod.rs\<close>). A result of type \<open>core option\<close> is \<open>None\<close> where the task
  panics or its loop never ends.
\<close>

section \<open>Access to the buffers\<close>

definition set_buffer :: "replica_buffer_queue \<Rightarrow> core \<Rightarrow> core" where
  "set_buffer rb c = c\<lparr>replica_buffer := rb\<rparr>"

definition repl_cfg :: "core \<Rightarrow> string \<Rightarrow> repl_config_data option" where
  "repl_cfg c rn = replication (network_info c) rn"

definition public_queue :: "core \<Rightarrow> string \<Rightarrow> repl_set" where
  "public_queue c rn = or_default (queue (replica_buffer c)) rn"

definition temp_of :: "core \<Rightarrow> string \<Rightarrow> temp_queue" where
  "temp_of c rn = or_default (temporary_queue (replica_buffer c)) rn"

definition set_temp :: "string \<Rightarrow> temp_queue \<Rightarrow> core \<Rightarrow> core" where
  "set_temp rn tq c =
     set_buffer ((replica_buffer c)\<lparr>temporary_queue :=
       (temporary_queue (replica_buffer c))(rn \<mapsto> tq)\<rparr>) c"

definition set_public :: "string \<Rightarrow> repl_set \<Rightarrow> core \<Rightarrow> core" where
  "set_public rn q c =
     set_buffer ((replica_buffer c)\<lparr>queue := (queue (replica_buffer c))(rn \<mapsto> q)\<rparr>) c"

section \<open>Pushing incoming data\<close>

text \<open>The branch of strong consistency.\<close>

definition strong_message :: "string \<Rightarrow> string \<Rightarrow> byte_vector" where
  "strong_message rn mid = [STRONG_CONSISTENCY_FLAG, rn, mid]"

definition push_strong ::
    "env \<Rightarrow> consensus_model \<Rightarrow> string \<Rightarrow> repl_buffer_data \<Rightarrow> core \<Rightarrow> core" where
  "push_strong env consensus rn data c =
     (let c1 = set_temp rn (push_temporary_room (temp_of c rn)) c;
          (c2, peers) = replica_peers env rn c1 in
      if length peers = 1 \<or> consensus = MinPeers 1
      then set_public rn (rset_insert data (public_queue c2 rn)) c2
      else
        (let c3 = set_temp rn (push_temporary data (temp_of c2 rn)) c2 in
         fst (query_network env
           (GossipsubBroadcastMessage rn (strong_message rn (message_id data))) c3)))"

definition repl_push :: "env \<Rightarrow> string \<Rightarrow> repl_buffer_data \<Rightarrow> core \<Rightarrow> core option" where
  "repl_push env rn data c =
     (case consistency_model (replica_buffer c) of
        Eventual \<Rightarrow> map_option (\<lambda>rb. set_buffer rb c)
          (push_public (clock env) rn data (replica_buffer c))
      | Strong consensus \<Rightarrow> Some (push_strong env consensus rn data c))"

text \<open>\<open>Core::handle_incoming_repl_data\<close>.\<close>

definition bump_clock :: "nonce \<Rightarrow> repl_config_data \<Rightarrow> repl_config_data" where
  "bump_clock incoming d =
     d\<lparr>cfg_clock := saturating_add (max (cfg_clock d) incoming) 1\<rparr>"

definition handle_incoming_repl_data ::
    "env \<Rightarrow> string \<Rightarrow> repl_buffer_data \<Rightarrow> core \<Rightarrow> core option" where
  "handle_incoming_repl_data env rn d c =
     (let c1 = push_event (ReplicaDataIncoming (rdata d) rn (outgoing_timestamp d)
                  (incoming_timestamp d) (message_id d) (sender d)) c in
      case repl_cfg c1 rn of
        None \<Rightarrow> Some c1
      | Some cfg \<Rightarrow>
          repl_push env rn d
            (set_replication ((replication (network_info c1))
               (rn \<mapsto> bump_clock (lamport_clock d) cfg)) c1))"

section \<open>Consuming data\<close>

text \<open>\<open>pop_front\<close> and \<open>Core::consume_repl_data\<close>: the clock of the last data consumed is
  recorded, in a fresh entry if the network has none.\<close>

definition consume_repl_data :: "string \<Rightarrow> core \<Rightarrow> core \<times> repl_buffer_data option" where
  "consume_repl_data rn c =
     (case pop_front_queue rn (replica_buffer c) of
        (first, rb) \<Rightarrow>
          (case first of
             None \<Rightarrow> (c, None)
           | Some d \<Rightarrow>
               (let cfg = (case repl_cfg c rn of
                             None \<Rightarrow> \<lparr>cfg_clock = 0, last_clock = lamport_clock d,
                                      cfg_nodes = Map.empty\<rparr>
                           | Some cfg \<Rightarrow> cfg) in
                (set_replication ((replication (network_info c))
                    (rn \<mapsto> cfg\<lparr>last_clock := lamport_clock d\<rparr>)) (set_buffer rb c),
                 Some d))))"

section \<open>Confirmations\<close>

text \<open>How many peers must confirm; only \<open>All\<close> asks the network.\<close>

definition required_peers :: "env \<Rightarrow> string \<Rightarrow> core \<Rightarrow> core \<times> u64" where
  "required_peers env rn c =
     (case consistency_model (replica_buffer c) of
        Eventual \<Rightarrow> (c, 0)
      | Strong (MinPeers required) \<Rightarrow> (c, required)
      | Strong All_Peers \<Rightarrow>
          (let (c1, peers) = replica_peers env rn c in (c1, of_nat (length peers))))"

definition handle_data_confirmation :: "env \<Rightarrow> string \<Rightarrow> string \<Rightarrow> core \<Rightarrow> core option" where
  "handle_data_confirmation env rn mid c =
     (let (c1, peers_count) = required_peers env rn c in
      map_option (\<lambda>rb. set_buffer rb c1)
        (confirm_with peers_count (clock env 0) rn mid (replica_buffer c1)))"

section \<open>Eventual consistency\<close>

text \<open>One turn of \<open>sync_with_eventual_consistency\<close>, which repeats it for ever with a pause
  of \<open>SYNC_WAIT_TIME\<close> seconds.\<close>

definition aging_time :: "repl_network_config \<Rightarrow> seconds" where
  "aging_time cfg =
     (case cfg of ReplDefault \<Rightarrow> DATA_AGING_PERIOD | ReplCustom _ _ _ _ aging \<Rightarrow> aging)"

definition sync_message :: "codecs \<Rightarrow> peer_id \<Rightarrow> string \<Rightarrow> repl_buffer_data list \<Rightarrow> byte_vector" where
  "sync_message cd me rn local_data =
     [EVENTUAL_CONSISTENCY_FLAG, peer_str cd me, rn,
      show_u64 (fst (clock_bounds local_data)), show_u64 (snd (clock_bounds local_data))]
     @ map (sync_id cd) local_data"

definition sync_round :: "codecs \<Rightarrow> env \<Rightarrow> string \<Rightarrow> core \<Rightarrow> core" where
  "sync_round cd env rn c =
     (case queue (replica_buffer c) rn of
        None \<Rightarrow> c
      | Some q \<Rightarrow>
          (let local_data = aged_entries (aging_time (config (replica_buffer c))) (clock env) q in
           fst (query_network env
             (GossipsubBroadcastMessage rn (sync_message cd (core_peer c) rn local_data)) c)))"

text \<open>\<open>sync_buffer_image\<close>: what a peer announced is fetched from it where it is missing.\<close>

definition fetch_missing ::
    "codecs \<Rightarrow> env \<Rightarrow> string \<Rightarrow> string \<Rightarrow> string list \<Rightarrow> core \<Rightarrow> core" where
  "fetch_missing cd env peer_text rn missing c =
     (case parse_peer cd peer_text of
        None \<Rightarrow> c
      | Some peer \<Rightarrow>
          (case query_network env (SendRpc ([RPC_SYNC_PULL_FLAG, rn] @ missing) peer) c of
             (c1, Inr (SendRpc_Resp msgs)) \<Rightarrow>
               (case queue (replica_buffer c1) rn of
                  None \<Rightarrow> c1
                | Some q \<Rightarrow> set_public rn (insert_all (unmarshal_messages cd msgs) q) c1)
           | (c1, _) \<Rightarrow> c1))"

definition sync_buffer_image ::
    "codecs \<Rightarrow> env \<Rightarrow> string \<Rightarrow> string \<Rightarrow> u64 \<times> u64 \<Rightarrow> string_vector \<Rightarrow> core \<Rightarrow> core" where
  "sync_buffer_image cd env peer_text rn bound state c =
     (if (case repl_cfg c rn of None \<Rightarrow> False | Some cfg \<Rightarrow> snd bound \<le> last_clock cfg) then c
      else
        (case queue (replica_buffer c) rn of
           None \<Rightarrow> c
         | Some q \<Rightarrow>
             (let missing = missing_ids cd (core_peer c) bound state q in
              if missing = [] then c else fetch_missing cd env peer_text rn missing c)))"

section \<open>Networks: joining, leaving, replicating, cloning\<close>

definition join_repl_network :: "env \<Rightarrow> string \<Rightarrow> core \<Rightarrow> core \<times> unit network_result" where
  "join_repl_network env rn c =
     (let cfg = (case repl_cfg c rn of
                   None \<Rightarrow> \<lparr>cfg_clock = 0, last_clock = 0, cfg_nodes = Map.empty\<rparr>
                 | Some d \<Rightarrow> d);
          c1 = set_replication ((replication (network_info c))(rn \<mapsto> cfg)) c;
          c2 = set_buffer (buffer_init rn (replica_buffer c1)) c1 in
      case query_network env (GossipsubJoinNetwork rn) c2 of
        (c3, Inl e) \<Rightarrow> (c3, Inl e)
      | (c3, Inr _) \<Rightarrow>
          (if consistency_model (replica_buffer c3) = Eventual
           then (spawn (SyncEventual rn) c3, Inr ()) else (c3, Inr ())))"

definition leave_repl_network :: "env \<Rightarrow> string \<Rightarrow> core \<Rightarrow> core \<times> app_response_result" where
  "leave_repl_network env rn c = query_network env (GossipsubExitNetwork rn) c"

text \<open>\<open>Core::replicate\<close>.\<close>

definition repl_message :: "seconds \<Rightarrow> nonce \<Rightarrow> string \<Rightarrow> byte_vector \<Rightarrow> byte_vector" where
  "repl_message now clk rn data = [REPL_GOSSIP_FLAG, show_u64 now, show_u64 clk, rn] @ data"

definition replicate_data ::
    "env \<Rightarrow> byte_vector \<Rightarrow> string \<Rightarrow> core \<Rightarrow> core \<times> unit network_result" where
  "replicate_data env data rn c =
     (case repl_cfg c rn of
        None \<Rightarrow> (c, Inl MissingReplNetwork)
      | Some d \<Rightarrow>
          (let clk = saturating_add (cfg_clock d) 1;
               c1 = set_replication ((replication (network_info c))(rn \<mapsto> d\<lparr>cfg_clock := clk\<rparr>)) c in
           case query_network env
                  (GossipsubBroadcastMessage rn (repl_message (clock env 0) clk rn data)) c1 of
             (c2, Inl e) \<Rightarrow> (c2, Inl e)
           | (c2, Inr _) \<Rightarrow> (c2, Inr ())))"

text \<open>\<open>ReplicaBufferQueue::replicate_buffer\<close>: a pull without ids.\<close>

definition clone_request :: "string \<Rightarrow> peer_id \<Rightarrow> app_data" where
  "clone_request rn peer = SendRpc [RPC_SYNC_PULL_FLAG, rn, []] peer"

definition clone_buffer ::
    "codecs \<Rightarrow> env \<Rightarrow> string \<Rightarrow> peer_id \<Rightarrow> core \<Rightarrow> core \<times> unit network_result" where
  "clone_buffer cd env rn replica_node c =
     (case queue (replica_buffer c) rn of
        None \<Rightarrow> (c, Inl MissingReplNetwork)
      | Some q \<Rightarrow>
          (case query_network env (clone_request rn replica_node) c of
             (c1, Inl e) \<Rightarrow> (c1, Inl e)
           | (c1, Inr (SendRpc_Resp msgs)) \<Rightarrow>
               (set_public rn (insert_all (unmarshal_messages cd msgs) q) c1, Inr ())
           | (c1, Inr (Error_Resp e)) \<Rightarrow> (c1, Inl e)
           | (c1, Inr _) \<Rightarrow> (c1, Inl RpcDataFetchError)))"

text \<open>\<open>Core::replicate_buffer\<close> asks first whether the node is in the replica network.\<close>

definition replicate_buffer ::
    "codecs \<Rightarrow> env \<Rightarrow> string \<Rightarrow> peer_id \<Rightarrow> core \<Rightarrow> core \<times> unit network_result" where
  "replicate_buffer cd env rn replica_node c =
     (if repl_cfg c rn = None then (c, Inl MissingReplNetwork)
      else clone_buffer cd env rn replica_node c)"

section \<open>The invariant of the buffers\<close>

text \<open>
  Every public queue is in order. Under the configuration of eventual consistency no queue
  is longer than its capacity as long as data enters by \<open>push\<close>.
\<close>

definition queues_ordered :: "replica_buffer_queue \<Rightarrow> bool" where
  "queues_ordered rb \<longleftrightarrow> (\<forall>rn q. queue rb rn = Some q \<longrightarrow> rset_wf q)"

definition queues_bounded :: "replica_buffer_queue \<Rightarrow> bool" where
  "queues_bounded rb \<longleftrightarrow>
     (\<forall>rn q. queue rb rn = Some q \<longrightarrow> length q \<le> unat (fst (push_limits (config rb))))"

lemma or_default_ordered: "queues_ordered rb \<Longrightarrow> rset_wf (or_default (queue rb) rn)"
  by (auto simp: queues_ordered_def or_default_def split: option.split)

lemma set_fields [simp]:
  "replica_buffer (set_buffer rb c) = rb"
  "network_info (set_buffer rb c) = network_info c"
  "core_peer (set_buffer rb c) = core_peer c"
  "event_queue (set_buffer rb c) = event_queue c"
  "tasks (set_buffer rb c) = tasks c"
  "replica_buffer (set_replication m c) = replica_buffer c"
  "replication (network_info (set_replication m c)) = m"
  "event_queue (set_replication m c) = event_queue c"
  "core_peer (set_replication m c) = core_peer c"
  "tasks (set_replication m c) = tasks c"
  "sharding (network_info (set_replication m c)) = sharding (network_info c)"
  "replica_buffer (push_event ev c) = replica_buffer c"
  "network_info (push_event ev c) = network_info c"
  "core_peer (push_event ev c) = core_peer c"
  "replica_buffer (spawn t c) = replica_buffer c"
  "network_info (spawn t c) = network_info c"
  by (simp_all add: set_buffer_def set_replication_def push_event_def spawn_def)

lemma queue_set_public [simp]:
  "queue (replica_buffer (set_public rn q c)) = (queue (replica_buffer c))(rn \<mapsto> q)"
  "config (replica_buffer (set_public rn q c)) = config (replica_buffer c)"
  "temporary_queue (replica_buffer (set_public rn q c)) = temporary_queue (replica_buffer c)"
  "network_info (set_public rn q c) = network_info c"
  by (simp_all add: set_public_def)

lemma queue_set_temp [simp]:
  "queue (replica_buffer (set_temp rn tq c)) = queue (replica_buffer c)"
  "config (replica_buffer (set_temp rn tq c)) = config (replica_buffer c)"
  "temporary_queue (replica_buffer (set_temp rn tq c))
     = (temporary_queue (replica_buffer c))(rn \<mapsto> tq)"
  "network_info (set_temp rn tq c) = network_info c"
  by (simp_all add: set_temp_def)

lemma temp_of_set_temp [simp]: "temp_of (set_temp rn tq c) rn = tq"
  by (simp add: temp_of_def or_default_def)

end
