(* ===== verification/Shard_Ops.thy ===== *)
theory Shard_Ops
  imports Repl_Sync
begin

text \<open>
  Sharding as the node runs it (\<open>swarm-nl/src/core/sharding.rs\<close> and the methods of \<open>Core\<close>
  it needs): joining and leaving a shard, placing data, fetching data. The trait
  \<open>Sharding\<close> is a parameter of the operations, \<open>locate\<close>, a map from keys to the text of
  the shard; the policies of the two examples are at the end. The order in which peers are
  tried is \<open>shuffled\<close> of the environment.
\<close>

section \<open>Announcing the state\<close>

definition init_sharding :: "env \<Rightarrow> string \<Rightarrow> core \<Rightarrow> core" where
  "init_sharding env network_id c = fst (query_network env (GossipsubJoinNetwork network_id) c)"

definition update_shard_view :: "peer_id \<Rightarrow> shard_id \<Rightarrow> bool \<Rightarrow> core \<Rightarrow> core" where
  "update_shard_view peer sid join c =
     set_shard_view (update_shard_state peer sid join (shard_view c)) c"

definition publish_message :: "codecs \<Rightarrow> shard_image \<Rightarrow> byte_vector" where
  "publish_message cd st =
     [SHARD_RPC_SYNC_FLAG, (case shard_image_to_bytes cd st of None \<Rightarrow> [] | Some b \<Rightarrow> b)]"

definition publish_shard_state :: "codecs \<Rightarrow> env \<Rightarrow> peer_id \<Rightarrow> core \<Rightarrow> core" where
  "publish_shard_state cd env peer c =
     fst (query_network env (SendRpc (publish_message cd (shard_view c)) peer) c)"

text \<open>\<open>Core::handle_incoming_shard_data\<close>; bytes that are not text become a fixed string.\<close>

definition byte_vec_to_string_vec :: "byte_vector \<Rightarrow> string_vector" where
  "byte_vec_to_string_vec input =
     map (\<lambda>v. case from_utf8 v of None \<Rightarrow> ''Invalid UTF-8'' | Some s \<Rightarrow> s) input"

definition string_vec_to_byte_vec :: "string_vector \<Rightarrow> byte_vector" where
  "string_vec_to_byte_vec input = map (\<lambda>s. s) input"

definition handle_incoming_shard_data ::
    "env \<Rightarrow> shard_id \<Rightarrow> peer_id \<Rightarrow> byte_vector \<Rightarrow> core \<Rightarrow> core" where
  "handle_incoming_shard_data env sid source incoming c =
     fst (replicate_data env incoming sid
       (push_event (IncomingForwardedData (byte_vec_to_string_vec incoming) source) c))"

section \<open>Joining and leaving\<close>

definition shard_net :: "core \<Rightarrow> string" where
  "shard_net c = sh_id (sharding (network_info c))"

definition join_message :: "codecs \<Rightarrow> peer_id \<Rightarrow> shard_id \<Rightarrow> byte_vector" where
  "join_message cd me sid = [SHARD_GOSSIP_JOIN_FLAG, peer_str cd me, sid]"

definition exit_message :: "codecs \<Rightarrow> peer_id \<Rightarrow> shard_id \<Rightarrow> byte_vector" where
  "exit_message cd me sid = [SHARD_GOSSIP_EXIT_FLAG, peer_str cd me, sid]"

definition join_network ::
    "codecs \<Rightarrow> env \<Rightarrow> shard_id \<Rightarrow> core \<Rightarrow> core \<times> unit network_result" where
  "join_network cd env sid c =
     (if shard_net c = [] then (c, Inl MissingShardingNetworkIdError)
      else
        (case query_network env (GossipsubJoinNetwork (from_utf8_lossy (shard_net c))) c of
           (c1, Inl e) \<Rightarrow> (c1, Inl e)
         | (c1, Inr _) \<Rightarrow>
             (let c2 = update_shard_view (core_peer c1) sid True c1;
                  c3 = fst (join_repl_network env sid c2) in
              case query_network env
                     (GossipsubBroadcastMessage (from_utf8_lossy (shard_net c))
                        (join_message cd (core_peer c3) sid)) c3 of
                (c4, Inl e) \<Rightarrow> (c4, Inl e)
              | (c4, Inr _) \<Rightarrow> (c4, Inr ()))))"

text \<open>
  Whether the node is still in some shard decides the last step. The walk over the table
  is over the shards the view has, given by \<open>shards\<close>, any list of them; the request it
  sends is the one the source sends.
\<close>

definition in_any_shard :: "peer_id \<Rightarrow> shard_id list \<Rightarrow> shard_image \<Rightarrow> bool" where
  "in_any_shard me shards st = list_ex (\<lambda>s. me \<in> members st s) shards"

definition exit_network ::
    "codecs \<Rightarrow> env \<Rightarrow> (shard_image \<Rightarrow> shard_id list) \<Rightarrow> shard_id \<Rightarrow> core
      \<Rightarrow> core \<times> unit network_result" where
  "exit_network cd env shards sid c =
     (let c1 = update_shard_view (core_peer c) sid False c in
      case query_network env
             (GossipsubBroadcastMessage (shard_net c1) (exit_message cd (core_peer c1) sid)) c1 of
        (c2, Inl e) \<Rightarrow> (c2, Inl e)
      | (c2, Inr _) \<Rightarrow>
          (if \<not> in_any_shard (core_peer c2) (shards (shard_view c2)) (shard_view c2)
           then (case query_network env (GossipsubJoinNetwork (shard_net c2)) c2 of
                   (c3, Inl e) \<Rightarrow> (c3, Inl e)
                 | (c3, Inr _) \<Rightarrow> (c3, Inr ()))
           else (c2, Inr ())))"

section \<open>Placing and fetching data\<close>

text \<open>Try the peers in order until one answers.\<close>

fun forward_to ::
    "env \<Rightarrow> byte_vector \<Rightarrow> peer_id list \<Rightarrow> core \<Rightarrow> core \<times> bool" where
  "forward_to env message [] c = (c, False)"
| "forward_to env message (peer # rest) c =
     (case query_network env (SendRpc message peer) c of
        (c1, Inr _) \<Rightarrow> (c1, True)
      | (c1, Inl _) \<Rightarrow> forward_to env message rest c1)"

fun fetch_from ::
    "env \<Rightarrow> byte_vector \<Rightarrow> peer_id list \<Rightarrow> core \<Rightarrow> core \<times> byte_vector option" where
  "fetch_from env message [] c = (c, None)"
| "fetch_from env message (peer # rest) c =
     (case query_network env (SendRpc message peer) c of
        (c1, Inr (SendRpc_Resp data)) \<Rightarrow> (c1, Some data)
      | (c1, _) \<Rightarrow> fetch_from env message rest c1)"

definition shard_message :: "shard_id \<Rightarrow> byte_vector \<Rightarrow> byte_vector" where
  "shard_message sid data = [RPC_DATA_FORWARDING_FLAG, sid] @ data"

definition fetch_message :: "byte_vector \<Rightarrow> byte_vector" where
  "fetch_message data = [SHARD_RPC_REQUEST_FLAG] @ data"

definition shard ::
    "('k \<Rightarrow> shard_id option) \<Rightarrow> env \<Rightarrow> 'k \<Rightarrow> byte_vector \<Rightarrow> core
      \<Rightarrow> core \<times> byte_vector option network_result" where
  "shard locate env key data c =
     (case locate key of
        None \<Rightarrow> (c, Inl ShardNotFound)
      | Some sid \<Rightarrow>
          (case shard_view c sid of
             None \<Rightarrow> (c, Inl MissingShardNodesError)
           | Some nodes \<Rightarrow>
               (if core_peer c \<in> nodes
                then (fst (replicate_data env data sid c), Inr (Some data))
                else
                  (case forward_to env (shard_message sid data) (shuffled env nodes) c of
                     (c1, True) \<Rightarrow> (c1, Inr None)
                   | (c1, False) \<Rightarrow> (c1, Inl DataForwardingError)))))"

definition fetch ::
    "('k \<Rightarrow> shard_id option) \<Rightarrow> env \<Rightarrow> 'k \<Rightarrow> byte_vector \<Rightarrow> core
      \<Rightarrow> core \<times> byte_vector option network_result" where
  "fetch locate env key data c =
     (case locate key of
        None \<Rightarrow> (c, Inl ShardingFailureError)
      | Some sid \<Rightarrow>
          (case shard_view c sid of
             None \<Rightarrow> (c, Inl ShardingFetchError)
           | Some nodes \<Rightarrow>
               (if core_peer c \<in> nodes then (c, Inr None)
                else
                  (case fetch_from env (fetch_message data) (shuffled env nodes) c of
                     (c1, Some answer) \<Rightarrow> (c1, Inr (Some answer))
                   | (c1, None) \<Rightarrow> (c1, Inl ShardingFetchError)))))"

section \<open>The policies of the examples\<close>

text \<open>\<open>HashSharding\<close>: the sum of the bytes, with the first one counted twice.\<close>

definition hash_key :: "string \<Rightarrow> u64" where
  "hash_key key =
     (case key of
        [] \<Rightarrow> 0
      | c # _ \<Rightarrow> foldl (\<lambda>acc b. acc + of_nat (code_of b)) (of_nat (code_of c)) key)"

definition hash_locate :: "string \<Rightarrow> shard_id option" where
  "hash_locate key = Some (show_u64 (hash_key key))"

text \<open>\<open>RangeSharding\<close>: the first range, in the order of the upper bounds, that reaches the
  key.\<close>

definition range_locate :: "(u64 \<times> shard_id) list \<Rightarrow> u64 \<Rightarrow> shard_id option" where
  "range_locate ranges key = map_option snd (find (\<lambda>(upper, _). key \<le> upper) ranges)"

end
