(* ===== verification/App_Requests.thy ===== *)
theory App_Requests
  imports Shard_Ops
begin

text \<open>
  The network task's half that serves the application: the branch of
  \<open>Core::handle_async_operations\<close> (\<open>swarm-nl/src/core/mod.rs\<close>) that takes a request from
  the channel. The calls the task makes on the libp2p swarm are logged in the order they
  are made, in \<open>calls\<close>; what the swarm answers is the parameter \<open>swarm\<close>. Responses for
  the application collect in \<open>out_channel\<close>, the sending half of the second channel.
\<close>

section \<open>The swarm\<close>

datatype swarm_call =
    KadAddAddress peer_id multiaddr
  | KadPutRecord bytes bytes "instant option"
  | KadPutRecordTo bytes bytes "instant option" "peer_id list"
  | KadStartProviding bytes
  | KadStopProviding bytes
  | KadGetRecord bytes
  | KadGetProviders bytes
  | KadRemoveRecord bytes
  | KadBootstrap
  | KadSetServerMode
  | SwarmDial multiaddr "peer_id option"
  | SwarmListen multiaddr
  | SwarmDisconnect peer_id
  | RpcSendRequest peer_id byte_vector
  | RpcSendResponse nat byte_vector
  | GossipPublish string bytes
  | GossipSubscribe string
  | GossipUnsubscribe string
  | GossipBlacklist peer_id
  | GossipRemoveBlacklisted peer_id

text \<open>What the swarm answers while a request is served.\<close>

record swarm =
  call_ok :: "swarm_call \<Rightarrow> bool"
  connected_peers :: "peer_id list"
  listeners :: "multiaddr list"
  mesh_peers_of :: "string \<Rightarrow> peer_id list"
  gossip_topics :: "string list"
  gossip_peers :: "(peer_id \<times> string list) list"

section \<open>The state of the network task\<close>

text \<open>
  The task works on its own copy of the ping records and of the blacklist; the replication
  and sharding state it shares with the application, in \<open>node\<close>.
\<close>

record loop_state =
  node :: core
  calls :: "swarm_call list"
  out_channel :: "stream_data list"
  data_queue_1 :: "stream_id data_queue"
  data_queue_2 :: "stream_id data_queue"
  data_queue_3 :: "stream_id data_queue"
  data_queue_4 :: "stream_id data_queue"
  loop_ping :: ping_info
  loop_blacklist :: blacklist_rec

definition loop_start :: "core \<Rightarrow> loop_state" where
  "loop_start c =
     \<lparr>node = c, calls = [], out_channel = [], data_queue_1 = dq_new, data_queue_2 = dq_new,
      data_queue_3 = dq_new, data_queue_4 = dq_new, loop_ping = ping (network_info c),
      loop_blacklist = gossip_blacklist (network_info c)\<rparr>"

definition make_call :: "swarm_call \<Rightarrow> loop_state \<Rightarrow> loop_state" where
  "make_call x ls = ls\<lparr>calls := calls ls @ [x]\<rparr>"

definition respond :: "stream_id \<Rightarrow> app_response \<Rightarrow> loop_state \<Rightarrow> loop_state" where
  "respond sid r ls = ls\<lparr>out_channel := out_channel ls @ [ToApplication sid r]\<rparr>"

definition update_node :: "(core \<Rightarrow> core) \<Rightarrow> loop_state \<Rightarrow> loop_state" where
  "update_node f ls = ls\<lparr>node := f (node ls)\<rparr>"

definition log_event :: "network_event \<Rightarrow> loop_state \<Rightarrow> loop_state" where
  "log_event ev = update_node (push_event ev)"

section \<open>Requests to the DHT\<close>

definition handle_dial ::
    "codecs \<Rightarrow> swarm \<Rightarrow> stream_id \<Rightarrow> peer_id \<Rightarrow> multiaddr_string \<Rightarrow> loop_state \<Rightarrow> loop_state" where
  "handle_dial cd sw sid peer addr ls =
     (case parse_addr cd addr of
        None \<Rightarrow> ls
      | Some a \<Rightarrow>
          (let dial = SwarmDial a (Some peer);
               ls1 = make_call dial (make_call (KadAddAddress peer a) ls) in
           if call_ok sw dial then respond sid (DailPeerSuccess a) ls1
           else respond sid (Error_Resp DailPeerError) ls1))"

definition handle_store_record ::
    "codecs \<Rightarrow> swarm \<Rightarrow> stream_id \<Rightarrow> bytes \<Rightarrow> bytes \<Rightarrow> instant option
      \<Rightarrow> peer_id_string list option \<Rightarrow> loop_state \<Rightarrow> loop_state" where
  "handle_store_record cd sw sid key value expires explicit_peers ls =
     (let put = KadPutRecord key value expires; ls1 = make_call put ls in
      if call_ok sw put then
        (let ls2 = make_call (KadStartProviding key) ls1;
             ls3 = ls2\<lparr>data_queue_1 := dq_push sid (data_queue_1 ls2)\<rparr> in
         case explicit_peers of
           None \<Rightarrow> ls3
         | Some ps \<Rightarrow>
             make_call (KadPutRecordTo key value expires (List.map_filter (base58_peer cd) ps)) ls3)
      else respond sid (Error_Resp (KadStoreRecordError key)) ls1)"

definition handle_lookup :: "stream_id \<Rightarrow> bytes \<Rightarrow> loop_state \<Rightarrow> loop_state" where
  "handle_lookup sid key ls =
     (let ls1 = make_call (KadGetRecord key) ls in
      ls1\<lparr>data_queue_2 := dq_push sid (data_queue_2 ls1)\<rparr>)"

definition handle_get_providers :: "stream_id \<Rightarrow> bytes \<Rightarrow> loop_state \<Rightarrow> loop_state" where
  "handle_get_providers sid key ls =
     (let ls1 = make_call (KadGetProviders key) ls in
      ls1\<lparr>data_queue_3 := dq_push sid (data_queue_3 ls1)\<rparr>)"

section \<open>RPC and information requests\<close>

definition handle_send_rpc ::
    "stream_id \<Rightarrow> rpc_data \<Rightarrow> peer_id \<Rightarrow> loop_state \<Rightarrow> loop_state" where
  "handle_send_rpc sid keys peer ls =
     (let ls1 = make_call (RpcSendRequest peer keys) ls in
      ls1\<lparr>data_queue_4 := dq_push sid (data_queue_4 ls1)\<rparr>)"

definition network_info_response :: "swarm \<Rightarrow> core \<Rightarrow> app_response" where
  "network_info_response sw c =
     GetNetworkInfo_Resp (core_peer c) (connected_peers sw) (listeners sw)"

definition gossip_info_response :: "swarm \<Rightarrow> blacklist_rec \<Rightarrow> app_response" where
  "gossip_info_response sw bl =
     GossipsubGetInfo_Resp (gossip_topics sw) (gossip_peers sw) (blacklist_into_inner bl)"

section \<open>Gossip requests\<close>

definition handle_broadcast ::
    "swarm \<Rightarrow> stream_id \<Rightarrow> string \<Rightarrow> byte_vector \<Rightarrow> loop_state \<Rightarrow> loop_state" where
  "handle_broadcast sw sid topic message ls =
     (let is_subscribed = core_peer (node ls) \<in> set (mesh_peers_of sw topic);
          publish = GossipPublish topic (join_with GOSSIP_MESSAGE_SEPARATOR message);
          ls1 = make_call publish ls in
      if call_ok sw publish \<and> \<not> is_subscribed
      then respond sid GossipsubBroadcastSuccess ls1
      else respond sid (Error_Resp GossipsubBroadcastMessageError) ls1)"

definition handle_join :: "swarm \<Rightarrow> stream_id \<Rightarrow> string \<Rightarrow> loop_state \<Rightarrow> loop_state" where
  "handle_join sw sid topic ls =
     (let subscribe = GossipSubscribe topic; ls1 = make_call subscribe ls in
      if call_ok sw subscribe then respond sid GossipsubJoinSuccess ls1
      else respond sid (Error_Resp GossipsubJoinNetworkError) ls1)"

text \<open>A failed exit is reported as a failed join, as the source does.\<close>

definition handle_exit :: "swarm \<Rightarrow> stream_id \<Rightarrow> string \<Rightarrow> loop_state \<Rightarrow> loop_state" where
  "handle_exit sw sid topic ls =
     (let unsubscribe = GossipUnsubscribe topic; ls1 = make_call unsubscribe ls in
      if call_ok sw unsubscribe then respond sid GossipsubExitSuccess ls1
      else respond sid (Error_Resp GossipsubJoinNetworkError) ls1)"

definition handle_blacklist :: "stream_id \<Rightarrow> peer_id \<Rightarrow> loop_state \<Rightarrow> loop_state" where
  "handle_blacklist sid peer ls =
     (let ls1 = make_call (GossipBlacklist peer) ls;
          ls2 = ls1\<lparr>loop_blacklist := \<lparr>list_of = insert peer (list_of (loop_blacklist ls1))\<rparr>\<rparr> in
      respond sid GossipsubBlacklistSuccess ls2)"

definition handle_filter_blacklist :: "stream_id \<Rightarrow> peer_id \<Rightarrow> loop_state \<Rightarrow> loop_state" where
  "handle_filter_blacklist sid peer ls =
     (let ls1 = make_call (GossipRemoveBlacklisted peer) ls;
          ls2 = ls1\<lparr>loop_blacklist := \<lparr>list_of = list_of (loop_blacklist ls1) - {peer}\<rparr>\<rparr> in
      respond sid GossipsubBlacklistSuccess ls2)"

section \<open>One request\<close>

fun handle_app_data ::
    "codecs \<Rightarrow> swarm \<Rightarrow> stream_id \<Rightarrow> app_data \<Rightarrow> loop_state \<Rightarrow> loop_state" where
  "handle_app_data cd sw sid (Echo message) ls = respond sid (Echo_Resp message) ls"
| "handle_app_data cd sw sid (DailPeer peer addr) ls = handle_dial cd sw sid peer addr ls"
| "handle_app_data cd sw sid (KademliaStoreRecord key value expires peers) ls =
     handle_store_record cd sw sid key value expires peers ls"
| "handle_app_data cd sw sid (KademliaLookupRecord key) ls = handle_lookup sid key ls"
| "handle_app_data cd sw sid (KademliaGetProviders key) ls = handle_get_providers sid key ls"
| "handle_app_data cd sw sid (KademliaStopProviding key) ls = make_call (KadStopProviding key) ls"
| "handle_app_data cd sw sid (KademliaDeleteRecord key) ls = make_call (KadRemoveRecord key) ls"
| "handle_app_data cd sw sid KademliaGetRoutingTableInfo ls =
     respond sid (KademliaGetRoutingTableInfo_Resp (net_id (network_info (node ls)))) ls"
| "handle_app_data cd sw sid (SendRpc keys peer) ls = handle_send_rpc sid keys peer ls"
| "handle_app_data cd sw sid GetNetworkInfo ls =
     respond sid (network_info_response sw (node ls)) ls"
| "handle_app_data cd sw sid (GossipsubBroadcastMessage topic message) ls =
     handle_broadcast sw sid topic message ls"
| "handle_app_data cd sw sid (GossipsubJoinNetwork topic) ls = handle_join sw sid topic ls"
| "handle_app_data cd sw sid GossipsubGetInfo ls =
     respond sid (gossip_info_response sw (loop_blacklist ls)) ls"
| "handle_app_data cd sw sid (GossipsubExitNetwork topic) ls = handle_exit sw sid topic ls"
| "handle_app_data cd sw sid (GossipsubBlacklistPeer peer) ls = handle_blacklist sid peer ls"
| "handle_app_data cd sw sid (GossipsubFilterBlacklist peer) ls =
     handle_filter_blacklist sid peer ls"

text \<open>Taking the next item from the channel.\<close>

definition receive_request :: "codecs \<Rightarrow> swarm \<Rightarrow> loop_state \<Rightarrow> loop_state" where
  "receive_request cd sw ls =
     (case app_channel (node ls) of
        [] \<Rightarrow> ls
      | item # rest \<Rightarrow>
          (let ls1 = update_node (\<lambda>c. c\<lparr>app_channel := rest\<rparr>) ls in
           case item of
             FromApplication sid req \<Rightarrow> handle_app_data cd sw sid req ls1
           | ToApplication _ _ \<Rightarrow> ls1))"

end
