(* ===== verification/Event_Loop.thy ===== *)
theory Event_Loop
  imports App_Requests "HOL-Library.Monad_Syntax"
begin

text \<open>
  The network task's half that serves the swarm: the branch of
  \<open>Core::handle_async_operations\<close> (\<open>swarm-nl/src/core/mod.rs\<close>) that takes an event from
  libp2p. An event carries what the handlers read of it. A handler that indexes into data
  a remote peer sent returns \<open>None\<close> where the index is out of range: the task panics and
  the node serves nothing any more.
\<close>

section \<open>The events\<close>

datatype ping_failure = Ping_Timeout | Ping_Unsupported | Ping_Other

datatype kad_event =
    Found_Providers bytes "peer_id list"
  | Finished_With_No_Additional_Record
  | Get_Providers_Err
  | Found_Record bytes
  | Get_Record_Finished
  | Get_Record_Err bytes
  | Put_Record_Ok bytes
  | Put_Record_Err bytes
  | Start_Providing_Ok bytes
  | Start_Providing_Err
  | Kad_Routing_Updated peer_id
  | Kad_Other

record gossip_message =
  propagation_source :: peer_id
  gossip_id :: string
  gossip_source :: "peer_id option"
  gossip_payload :: bytes
  gossip_topic :: string

datatype swarm_event =
    New_Listen_Addr_Ev listener_id multiaddr
  | Ping_Ok peer_id duration
  | Ping_Err peer_id ping_failure
  | Kad_Ev kad_event
  | Identify_Received peer_id string identify_info
  | Identify_Other
  | Rpc_Request peer_id nat rpc_data
  | Rpc_Response rpc_data
  | Rpc_Outbound_Failure
  | Rpc_Other
  | Gossip_Message gossip_message
  | Gossip_Subscribed peer_id string
  | Gossip_Unsubscribed peer_id string
  | Gossip_Other
  | Connection_Established_Ev peer_id connection_id connected_point u32 duration
  | Connection_Closed_Ev peer_id connection_id connected_point u32
  | Expired_Listen_Addr_Ev listener_id multiaddr
  | Listener_Closed_Ev listener_id "multiaddr list"
  | Listener_Error_Ev listener_id
  | Dialing_Ev "peer_id option" connection_id
  | New_External_Addr_Candidate_Ev multiaddr
  | External_Addr_Confirmed_Ev multiaddr
  | External_Addr_Expired_Ev multiaddr
  | Incoming_Connection_Ev connection_id multiaddr multiaddr
  | Incoming_Connection_Error_Ev connection_id multiaddr multiaddr
  | Outgoing_Connection_Error_Ev connection_id "peer_id option"
  | Swarm_Other

section \<open>Ping\<close>

definition halve_count :: "peer_id \<Rightarrow> (peer_id \<rightharpoonup> u16) \<Rightarrow> (peer_id \<rightharpoonup> u16)" where
  "halve_count peer m = (case m peer of None \<Rightarrow> m | Some n \<Rightarrow> m(peer \<mapsto> n div 2))"

definition ping_decay :: "peer_id \<Rightarrow> ping_manager \<Rightarrow> ping_manager" where
  "ping_decay peer m =
     m\<lparr>outbound_errors := halve_count peer (outbound_errors m),
       timeouts := halve_count peer (timeouts m)\<rparr>"

definition handle_ping_ok :: "peer_id \<Rightarrow> duration \<Rightarrow> loop_state \<Rightarrow> loop_state" where
  "handle_ping_ok peer d ls =
     log_event (OutboundPingSuccess peer d)
       (ls\<lparr>loop_ping := (loop_ping ls)\<lparr>manager := ping_decay peer (manager (loop_ping ls))\<rparr>\<rparr>)"

text \<open>
  Counting an error against the limit of the policy: the entry is created at 0 if the peer
  has none; the result says whether the peer is disconnected. The test is the one of the
  source, \<open>!=\<close>. The sum wraps, as it does in a release build, where a debug build panics; no
  count of a node comes near that (\<open>count_error_stays_small\<close>).
\<close>

definition count_error :: "peer_id \<Rightarrow> u16 \<Rightarrow> (peer_id \<rightharpoonup> u16) \<Rightarrow> (peer_id \<rightharpoonup> u16) \<times> bool" where
  "count_error peer limit m =
     (let err_count = (case m peer of None \<Rightarrow> 0 | Some n \<Rightarrow> n) in
      if err_count \<noteq> limit then (m(peer := None), True)
      else (m(peer \<mapsto> err_count + 1), False))"

definition ping_failure_policy ::
    "peer_id \<Rightarrow> ping_failure \<Rightarrow> ping_info \<Rightarrow> ping_info \<times> bool" where
  "ping_failure_policy peer failure info =
     (let man = manager info in
      case policy info of
        NoDisconnect \<Rightarrow> (info, False)
      | DisconnectAfterMaxErrors max_errors \<Rightarrow>
          (let (m, gone) = count_error peer max_errors (outbound_errors man) in
           (info\<lparr>manager := man\<lparr>outbound_errors := m\<rparr>\<rparr>, gone))
      | DisconnectAfterMaxTimeouts max_timeouts \<Rightarrow>
          (if failure = Ping_Timeout
           then (let (m, gone) = count_error peer max_timeouts (timeouts man) in
                 (info\<lparr>manager := man\<lparr>timeouts := m\<rparr>\<rparr>, gone))
           else (info, False)))"

definition handle_ping_err :: "peer_id \<Rightarrow> ping_failure \<Rightarrow> loop_state \<Rightarrow> loop_state" where
  "handle_ping_err peer failure ls =
     (let (info, gone) = ping_failure_policy peer failure (loop_ping ls);
          ls1 = ls\<lparr>loop_ping := info\<rparr>;
          ls2 = (if gone then make_call (SwarmDisconnect peer) ls1 else ls1) in
      log_event (OutboundPingError peer) ls2)"

section \<open>Kademlia\<close>

text \<open>
  The next stream identifier of a queue gets the answer; without one the answer is
  dropped.
\<close>

definition answer_1 :: "app_response \<Rightarrow> loop_state \<Rightarrow> loop_state" where
  "answer_1 r ls =
     (case dq_pop (data_queue_1 ls) of
        (Some sid, q) \<Rightarrow> respond sid r (ls\<lparr>data_queue_1 := q\<rparr>)
      | (None, q) \<Rightarrow> ls\<lparr>data_queue_1 := q\<rparr>)"

definition answer_2 :: "app_response \<Rightarrow> loop_state \<Rightarrow> loop_state" where
  "answer_2 r ls =
     (case dq_pop (data_queue_2 ls) of
        (Some sid, q) \<Rightarrow> respond sid r (ls\<lparr>data_queue_2 := q\<rparr>)
      | (None, q) \<Rightarrow> ls\<lparr>data_queue_2 := q\<rparr>)"

definition answer_3 :: "app_response \<Rightarrow> loop_state \<Rightarrow> loop_state" where
  "answer_3 r ls =
     (case dq_pop (data_queue_3 ls) of
        (Some sid, q) \<Rightarrow> respond sid r (ls\<lparr>data_queue_3 := q\<rparr>)
      | (None, q) \<Rightarrow> ls\<lparr>data_queue_3 := q\<rparr>)"

definition answer_4 :: "app_response \<Rightarrow> loop_state \<Rightarrow> loop_state" where
  "answer_4 r ls =
     (case dq_pop (data_queue_4 ls) of
        (Some sid, q) \<Rightarrow> respond sid r (ls\<lparr>data_queue_4 := q\<rparr>)
      | (None, q) \<Rightarrow> ls\<lparr>data_queue_4 := q\<rparr>)"

fun handle_kad :: "codecs \<Rightarrow> kad_event \<Rightarrow> loop_state \<Rightarrow> loop_state" where
  "handle_kad cd (Found_Providers key providers) ls =
     answer_3 (KademliaGetProviders_Resp key (map (peer_str cd) providers)) ls"
| "handle_kad cd Finished_With_No_Additional_Record ls = answer_3 KademliaNoProvidersFound ls"
| "handle_kad cd Get_Providers_Err ls = answer_3 KademliaNoProvidersFound ls"
| "handle_kad cd (Found_Record val) ls = answer_2 (KademliaLookupSuccess val) ls"
| "handle_kad cd Get_Record_Finished ls = answer_2 (Error_Resp (KadFetchRecordError [])) ls"
| "handle_kad cd (Get_Record_Err key) ls = answer_2 (Error_Resp (KadFetchRecordError key)) ls"
| "handle_kad cd (Put_Record_Ok key) ls =
     log_event (KademliaPutRecordSuccess key) (answer_1 KademliaStoreRecordSuccess ls)"
| "handle_kad cd (Put_Record_Err key) ls =
     log_event KademliaPutRecordError (answer_1 (Error_Resp (KadStoreRecordError key)) ls)"
| "handle_kad cd (Start_Providing_Ok key) ls = log_event (KademliaStartProvidingSuccess key) ls"
| "handle_kad cd Start_Providing_Err ls = log_event KademliaStartProvidingError ls"
| "handle_kad cd (Kad_Routing_Updated peer) ls = log_event (RoutingTableUpdated peer) ls"
| "handle_kad cd Kad_Other ls = ls"

section \<open>Identify\<close>

definition handle_identify ::
    "peer_id \<Rightarrow> string \<Rightarrow> identify_info \<Rightarrow> loop_state \<Rightarrow> loop_state option" where
  "handle_identify peer protocol_version info ls =
     (let ls1 = log_event (IdentifyInfoReceived peer info) ls in
      if protocol_version \<noteq> net_id (network_info (node ls1))
      then Some (make_call (SwarmDisconnect peer) ls1)
      else map_option (\<lambda>addr. make_call (KadAddAddress peer addr) ls1)
             (index (listen_addrs info) 0))"

section \<open>Incoming RPCs\<close>

definition send_response :: "nat \<Rightarrow> byte_vector \<Rightarrow> loop_state \<Rightarrow> loop_state" where
  "send_response channel data = make_call (RpcSendResponse channel data)"

definition serve_sync_pull ::
    "codecs \<Rightarrow> nat \<Rightarrow> byte_vector \<Rightarrow> loop_state \<Rightarrow> loop_state option" where
  "serve_sync_pull cd channel data ls =
     do {
       raw \<leftarrow> index data 1;
       ids \<leftarrow> slice_from data 2;
       msgs \<leftarrow> pull_missing_data cd (case from_utf8 raw of None \<Rightarrow> [] | Some rn \<Rightarrow> rn) ids
                (replica_buffer (node ls));
       Some (send_response channel msgs ls)
     }"

text \<open>The entries of the incoming image may be walked in any order
  (\<open>merge_shard_states_merged\<close>), so the merge is taken in its closed form.\<close>

definition serve_shard_sync ::
    "codecs \<Rightarrow> nat \<Rightarrow> byte_vector \<Rightarrow> loop_state \<Rightarrow> loop_state option" where
  "serve_shard_sync cd channel data ls =
     do {
       raw \<leftarrow> index data 1;
       Some (send_response channel []
         (update_node
           (\<lambda>c. set_shard_view (merged (shard_view c) (bytes_to_shard_image cd raw)) c) ls))
     }"

definition serve_forwarded ::
    "peer_id \<Rightarrow> nat \<Rightarrow> byte_vector \<Rightarrow> loop_state \<Rightarrow> loop_state option" where
  "serve_forwarded peer channel data ls =
     do {
       raw \<leftarrow> index data 1;
       incoming \<leftarrow> slice_from data 2;
       Some (update_node (spawn (IncomingShardData (from_utf8_lossy raw) peer incoming))
         (send_response channel [] ls))
     }"

definition fetch_local :: "byte_vector \<Rightarrow> core \<Rightarrow> (core \<times> byte_vector) option" where
  "fetch_local key c =
     (let sh = sharding (network_info c) in
      map_option
        (\<lambda>(answer, storage).
           (c\<lparr>network_info := (network_info c)\<lparr>sharding := sh\<lparr>local_storage := storage\<rparr>\<rparr>\<rparr>, answer))
        (fetch_data (local_storage sh) key))"

definition serve_shard_request ::
    "nat \<Rightarrow> byte_vector \<Rightarrow> loop_state \<Rightarrow> loop_state option" where
  "serve_shard_request channel data ls =
     do {
       key \<leftarrow> slice_from data 1;
       (c, answer) \<leftarrow> fetch_local key (node ls);
       Some (send_response channel answer (ls\<lparr>node := c\<rparr>))
     }"

definition handle_rpc_request ::
    "codecs \<Rightarrow> peer_id \<Rightarrow> nat \<Rightarrow> rpc_data \<Rightarrow> loop_state \<Rightarrow> loop_state option" where
  "handle_rpc_request cd peer channel data ls =
     do {
       head \<leftarrow> index data 0;
       let flag = from_utf8_lossy head in
         if flag = RPC_SYNC_PULL_FLAG then serve_sync_pull cd channel data ls
         else if flag = SHARD_RPC_SYNC_FLAG then serve_shard_sync cd channel data ls
         else if flag = RPC_DATA_FORWARDING_FLAG then serve_forwarded peer channel data ls
         else if flag = SHARD_RPC_REQUEST_FLAG then serve_shard_request channel data ls
         else map_option (\<lambda>answer. send_response channel answer ls)
                (rpc_handler_fn (network_info (node ls)) data)
     }"

section \<open>Incoming gossip\<close>

definition gossip_fields :: "bytes \<Rightarrow> string_vector" where
  "gossip_fields payload = split_on GOSSIP_MESSAGE_SEPARATOR (from_utf8_lossy payload)"

definition incoming_repl ::
    "seconds \<Rightarrow> gossip_message \<Rightarrow> string_vector \<Rightarrow> core \<Rightarrow> (string \<times> repl_buffer_data) option" where
  "incoming_repl now msg gossip_data c =
     do {
       payload \<leftarrow> slice_from gossip_data 4;
       clk \<leftarrow> index gossip_data 2;
       out_time \<leftarrow> index gossip_data 1;
       rn \<leftarrow> index gossip_data 3;
       Some (rn, \<lparr>rdata = payload, lamport_clock = parse_or_0 clk,
         outgoing_timestamp = parse_or_0 out_time, incoming_timestamp = now,
         message_id = gossip_id msg,
         sender = (case gossip_source msg of Some p \<Rightarrow> p | None \<Rightarrow> propagation_source msg),
         confirmations =
           (if consistency_model (replica_buffer c) = Eventual then None else Some 1)\<rparr>)
     }"

definition handle_repl_gossip ::
    "seconds \<Rightarrow> gossip_message \<Rightarrow> string_vector \<Rightarrow> loop_state \<Rightarrow> loop_state option" where
  "handle_repl_gossip now msg gossip_data ls =
     map_option (\<lambda>(rn, d). update_node (spawn (IncomingReplData rn d)) ls)
       (incoming_repl now msg gossip_data (node ls))"

definition handle_strong_gossip :: "string_vector \<Rightarrow> loop_state \<Rightarrow> loop_state option" where
  "handle_strong_gossip gossip_data ls =
     do {
       mid \<leftarrow> index gossip_data 2;
       rn \<leftarrow> index gossip_data 1;
       Some (update_node (spawn (DataConfirmation rn mid)) ls)
     }"

definition handle_eventual_gossip :: "string_vector \<Rightarrow> loop_state \<Rightarrow> loop_state option" where
  "handle_eventual_gossip gossip_data ls =
     do {
       lo \<leftarrow> index gossip_data 3;
       hi \<leftarrow> index gossip_data 4;
       peer_text \<leftarrow> index gossip_data 1;
       rn \<leftarrow> index gossip_data 2;
       state \<leftarrow> slice_from gossip_data 5;
       Some (update_node
         (spawn (SyncImage peer_text rn (parse_or_0 lo, parse_or_0 hi) state)) ls)
     }"

text \<open>The result \<open>None\<close> is a panic, which ends the network task and with it the state the model
  follows: a join without its third field panics after the task for the newcomer has been spawned,
  and what such a task still does is not modelled.\<close>

definition handle_shard_join ::
    "codecs \<Rightarrow> string_vector \<Rightarrow> loop_state \<Rightarrow> loop_state option" where
  "handle_shard_join cd gossip_data ls =
     do {
       peer_text \<leftarrow> index gossip_data 1;
       case parse_peer cd peer_text of
         None \<Rightarrow> Some ls
       | Some peer \<Rightarrow>
           do {
             sid \<leftarrow> index gossip_data 2;
             Some (update_node (update_shard_view peer sid True)
               (update_node (spawn (PublishShardState peer)) ls))
           }
     }"

definition handle_shard_exit ::
    "codecs \<Rightarrow> string_vector \<Rightarrow> loop_state \<Rightarrow> loop_state option" where
  "handle_shard_exit cd gossip_data ls =
     do {
       peer_text \<leftarrow> index gossip_data 1;
       case parse_peer cd peer_text of
         None \<Rightarrow> Some ls
       | Some peer \<Rightarrow>
           do {
             sid \<leftarrow> index gossip_data 2;
             Some (update_node (update_shard_view peer sid False) ls)
           }
     }"

definition handle_plain_gossip ::
    "gossip_message \<Rightarrow> string_vector \<Rightarrow> loop_state \<Rightarrow> loop_state option" where
  "handle_plain_gossip msg gossip_data ls =
     map_option
       (\<lambda>pass. if pass
          then log_event (GossipsubIncomingMessageHandled (propagation_source msg) gossip_data) ls
          else ls)
       (gossip_filter_fn (network_info (node ls)) (propagation_source msg) (gossip_id msg)
         (gossip_source msg) (gossip_topic msg) gossip_data)"

definition handle_gossip ::
    "codecs \<Rightarrow> seconds \<Rightarrow> gossip_message \<Rightarrow> loop_state \<Rightarrow> loop_state option" where
  "handle_gossip cd now msg ls =
     (let gossip_data = gossip_fields (gossip_payload msg) in
      do {
        flag \<leftarrow> index gossip_data 0;
        if flag = REPL_GOSSIP_FLAG then handle_repl_gossip now msg gossip_data ls
        else if flag = STRONG_CONSISTENCY_FLAG then handle_strong_gossip gossip_data ls
        else if flag = EVENTUAL_CONSISTENCY_FLAG then handle_eventual_gossip gossip_data ls
        else if flag = SHARD_GOSSIP_JOIN_FLAG then handle_shard_join cd gossip_data ls
        else if flag = SHARD_GOSSIP_EXIT_FLAG then handle_shard_exit cd gossip_data ls
        else handle_plain_gossip msg gossip_data ls
      })"

section \<open>Connections\<close>

definition handle_established ::
    "peer_id \<Rightarrow> connection_id \<Rightarrow> connected_point \<Rightarrow> u32 \<Rightarrow> duration \<Rightarrow> loop_state
      \<Rightarrow> loop_state" where
  "handle_established peer conn endpoint num established_in ls =
     log_event (ConnectionEstablished peer conn endpoint num established_in)
       (case endpoint of
          Listener _ send_back_addr \<Rightarrow> make_call (KadAddAddress peer send_back_addr) ls
        | Dialer _ \<Rightarrow> ls)"

text \<open>The events that are only passed on.\<close>

fun passed_on :: "core \<Rightarrow> swarm_event \<Rightarrow> network_event option" where
  "passed_on c (New_Listen_Addr_Ev l a) = Some (NewListenAddr (core_peer c) l a)"
| "passed_on c (Gossip_Subscribed p t) = Some (GossipsubSubscribeMessageReceived p t)"
| "passed_on c (Gossip_Unsubscribed p t) = Some (GossipsubUnsubscribeMessageReceived p t)"
| "passed_on c (Connection_Closed_Ev p i e n) = Some (ConnectionClosed p i e n)"
| "passed_on c (Expired_Listen_Addr_Ev l a) = Some (ExpiredListenAddr l a)"
| "passed_on c (Listener_Closed_Ev l as) = Some (ListenerClosed l as)"
| "passed_on c (Listener_Error_Ev l) = Some (ListenerError l)"
| "passed_on c (Dialing_Ev p i) = Some (Dialing p i)"
| "passed_on c (New_External_Addr_Candidate_Ev a) = Some (NewExternalAddrCandidate a)"
| "passed_on c (External_Addr_Confirmed_Ev a) = Some (ExternalAddrConfirmed a)"
| "passed_on c (External_Addr_Expired_Ev a) = Some (ExternalAddrExpired a)"
| "passed_on c (Incoming_Connection_Ev i l s) = Some (IncomingConnection i l s)"
| "passed_on c (Incoming_Connection_Error_Ev i l s) = Some (IncomingConnectionError i l s)"
| "passed_on c (Outgoing_Connection_Error_Ev i p) = Some (OutgoingConnectionError i p)"
| "passed_on c _ = None"

section \<open>One event\<close>

definition handle_swarm_event ::
    "codecs \<Rightarrow> seconds \<Rightarrow> swarm_event \<Rightarrow> loop_state \<Rightarrow> loop_state option" where
  "handle_swarm_event cd now ev ls =
     (case ev of
        Ping_Ok peer d \<Rightarrow> Some (handle_ping_ok peer d ls)
      | Ping_Err peer failure \<Rightarrow> Some (handle_ping_err peer failure ls)
      | Kad_Ev k \<Rightarrow> Some (handle_kad cd k ls)
      | Identify_Received peer version info \<Rightarrow> handle_identify peer version info ls
      | Rpc_Request peer channel data \<Rightarrow> handle_rpc_request cd peer channel data ls
      | Rpc_Response data \<Rightarrow> Some (answer_4 (SendRpc_Resp data) ls)
      | Rpc_Outbound_Failure \<Rightarrow> Some (answer_4 (Error_Resp RpcDataFetchError) ls)
      | Gossip_Message msg \<Rightarrow> handle_gossip cd now msg ls
      | Connection_Established_Ev peer conn endpoint num d \<Rightarrow>
          Some (handle_established peer conn endpoint num d ls)
      | _ \<Rightarrow>
          (case passed_on (node ls) ev of
             None \<Rightarrow> Some ls
           | Some e \<Rightarrow> Some (log_event e ls)))"

end
