(* ===== verification/Node_Ops.thy ===== *)
theory Node_Ops
  imports Event_Loop
begin

text \<open>
  The operations of \<open>Core\<close> as one relation, \<open>api_call\<close>, the tasks the node spawns
  (\<open>run_task\<close>), and the invariant they keep: bounded buffers and ordered replica queues.
  \<open>evolves\<close> is the preorder every operation lies in: it keeps the invariant and never
  takes a request out of the request buffer.
\<close>

section \<open>The invariant\<close>

definition traffic_inv :: "core \<Rightarrow> bool" where
  "traffic_inv c \<longleftrightarrow>
     request_buffer_inv (request_buffer c)
     \<and> card (req_buffer (request_buffer c)) \<le> req_size (request_buffer c)
     \<and> response_buffer_inv (response_buffer c)
     \<and> length (resp_buffer (response_buffer c)) \<le> resp_size (response_buffer c)"

text \<open>On its way to the network task is only what the application sends, on its way to the response
  task only what answers it. Every such request that is tracked at all is in the request buffer.\<close>

fun request_tracked :: "stream_id set \<Rightarrow> stream_data \<Rightarrow> bool" where
  "request_tracked ids (FromApplication sid req) = (untracked req \<or> sid \<in> ids)"
| "request_tracked ids (ToApplication sid r) = False"

fun response_tracked :: "stream_id set \<Rightarrow> stream_data \<Rightarrow> bool" where
  "response_tracked ids (FromApplication sid req) = False"
| "response_tracked ids (ToApplication sid r) = (sid \<in> ids)"

definition channel_tracked :: "core \<Rightarrow> bool" where
  "channel_tracked c \<longleftrightarrow>
     list_all (request_tracked (req_buffer (request_buffer c))) (app_channel c)"

definition core_inv :: "core \<Rightarrow> bool" where
  "core_inv c \<longleftrightarrow> traffic_inv c \<and> channel_tracked c \<and> length (event_queue c) \<le> MAX_QUEUE_ELEMENTS
     \<and> queues_ordered (replica_buffer c)"

definition grows :: "core \<Rightarrow> core \<Rightarrow> bool" where
  "grows c c' \<longleftrightarrow>
     req_size (request_buffer c') = req_size (request_buffer c)
     \<and> resp_size (response_buffer c') = resp_size (response_buffer c)
     \<and> req_buffer (request_buffer c) \<subseteq> req_buffer (request_buffer c')"

definition evolves :: "core \<Rightarrow> core \<Rightarrow> bool" where
  "evolves c c' \<longleftrightarrow> (core_inv c \<longrightarrow> core_inv c') \<and> grows c c'"

lemma item_tracked_mono:
  "request_tracked ids m \<Longrightarrow> ids \<subseteq> ids' \<Longrightarrow> request_tracked ids' m"
  "response_tracked ids m \<Longrightarrow> ids \<subseteq> ids' \<Longrightarrow> response_tracked ids' m"
  by (cases m; auto)+

lemma evolves_refl [simp, intro]: "evolves c c"
  by (simp add: evolves_def grows_def)

lemma evolves_trans [trans]: "evolves a b \<Longrightarrow> evolves b c \<Longrightarrow> evolves a c"
  by (auto simp: evolves_def grows_def)

lemma evolves_inv: "evolves c c' \<Longrightarrow> core_inv c \<Longrightarrow> core_inv c'"
  by (simp add: evolves_def)

text \<open>What touches neither the traffic nor the queues evolves.\<close>

lemma evolves_frame:
  assumes "request_buffer c' = request_buffer c" "response_buffer c' = response_buffer c"
    and "event_queue c' = event_queue c" "replica_buffer c' = replica_buffer c"
    and "app_channel c' = app_channel c"
  shows "evolves c c'"
  using assms by (simp add: evolves_def core_inv_def channel_tracked_def traffic_inv_def grows_def)

lemma evolves_setters:
  "evolves c (set_replication m c)" "evolves c (spawn t c)" "evolves c (set_shard_view st c)"
  "evolves c (c\<lparr>network_info := ni\<rparr>)"
  by (rule evolves_frame; simp add: set_replication_def spawn_def set_shard_view_def)+

lemma evolves_update_shard: "evolves c (update_shard_view p sid j c)"
  by (simp add: update_shard_view_def evolves_setters)

lemma evolves_event: "evolves c (push_event ev c)"
  using dq_push_bound
  by (auto simp: evolves_def core_inv_def channel_tracked_def traffic_inv_def grows_def push_event_def)

lemma evolves_buffer:
  "(queues_ordered (replica_buffer c) \<Longrightarrow> queues_ordered rb) \<Longrightarrow> evolves c (set_buffer rb c)"
  by (auto simp: evolves_def core_inv_def channel_tracked_def traffic_inv_def grows_def set_buffer_def)

section \<open>Traffic\<close>

lemma evolves_requests:
  assumes "same_node c c'" "response_buffer c' = response_buffer c"
    and "request_buffer c' = request_buffer c
       \<or> request_buffer c' = fst (request_insert sid (request_buffer c))"
    and "channel_tracked c \<Longrightarrow> channel_tracked c'"
  shows "evolves c c'"
proof -
  have "request_buffer_inv (request_buffer c) \<Longrightarrow>
      card (req_buffer (request_buffer c)) \<le> req_size (request_buffer c) \<Longrightarrow>
      request_buffer_inv (request_buffer c')
      \<and> card (req_buffer (request_buffer c')) \<le> req_size (request_buffer c')"
    using assms(3) request_store.put_inv request_store.put_within request_store.put_limit by metis
  moreover have "req_size (request_buffer c') = req_size (request_buffer c)
      \<and> req_buffer (request_buffer c) \<subseteq> req_buffer (request_buffer c')"
    using assms(3) by (auto simp: request_insert_def)
  ultimately show ?thesis
    using assms(1,2,4) by (auto simp: evolves_def core_inv_def traffic_inv_def grows_def same_node_def)
qed

lemma channel_tracked_send:
  "channel_tracked c \<Longrightarrow> channel_tracked (fst (send_with_id env sid r c))"
  by (auto simp: channel_tracked_def send_with_id_def channel_send_def Let_def request_insert_def
      list_all_iff intro: item_tracked_mono)

lemma evolves_send_id: "evolves c (fst (send_with_id env sid r c))"
proof (rule evolves_requests [OF same_node_send_id _ _ channel_tracked_send])
  show "request_buffer (fst (send_with_id env sid r c)) = request_buffer c
      \<or> request_buffer (fst (send_with_id env sid r c)) = fst (request_insert sid (request_buffer c))"
    by (auto simp: send_with_id_def channel_send_def Let_def request_insert_def)
qed (auto simp: send_with_id_def channel_send_def Let_def request_insert_def)

lemma evolves_responses:
  assumes "same_node c c'" "request_buffer c' = request_buffer c" "app_channel c' = app_channel c"
    and "response_buffer c' = fst (response_insert sid r (response_buffer c))
       \<or> response_buffer c' = fst (response_remove sid (response_buffer c))
       \<or> response_buffer c' = response_buffer c"
  shows "evolves c c'"
proof -
  let ?ok = "\<lambda>b. response_buffer_inv b \<and> length (resp_buffer b) \<le> resp_size b"
  have ins: "?ok b \<Longrightarrow> ?ok (fst (response_insert sid r b))" for b
    using response_store.put_inv [of b] response_store.put_within [of b]
      response_store.put_limit [of sid r b] by auto
  have del: "?ok b \<Longrightarrow> ?ok (fst (response_remove sid b))" for b
    using response_remove_inv [of b sid] length_AList_delete_le [of sid "resp_buffer b"]
    by (simp add: response_remove_def)
  have "?ok (response_buffer c) \<longrightarrow> ?ok (response_buffer c')"
    using assms(4) ins [of "response_buffer c"] del [of "response_buffer c"] by auto
  moreover have "resp_size (response_buffer c') = resp_size (response_buffer c)"
    using assms(4) by (auto simp: response_insert_def response_remove_def)
  ultimately show ?thesis
    using assms(1-3) by (auto simp: evolves_def core_inv_def channel_tracked_def traffic_inv_def grows_def same_node_def)
qed

lemma evolves_handle: "evolves c (handle_network_response m c)"
proof (cases m)
  case (ToApplication sid r)
  then show ?thesis
    by (intro evolves_responses [OF same_node_handle, where sid = sid and r = "response_result r"])
      (auto simp: handle_network_response_def)
qed (simp add: handle_network_response_def)

lemma evolves_handle_all: "evolves c (foldl (\<lambda>c m. handle_network_response m c) c ms)"
  by (rule foldl_invariant [where P = "evolves c"]) (auto intro: evolves_trans evolves_handle)

lemma evolves_remove:
  "evolves c (c\<lparr>response_buffer := fst (response_remove sid (response_buffer c))\<rparr>)"
  by (rule evolves_responses [where sid = sid]) auto

lemma evolves_recv_loop: "evolves c (fst (recv_loop arr sid n c))"
proof (induction arr sid n c rule: recv_loop.induct)
  case (1 arr sid n c)
  let ?c1 = "foldl (\<lambda>c m. handle_network_response m c) c (arr n)"
  let ?c2 = "?c1\<lparr>response_buffer := fst (response_remove sid (response_buffer ?c1))\<rparr>"
  have c2: "evolves c ?c2"
    using evolves_handle_all evolves_remove evolves_trans by blast
  have eq: "response_remove sid (response_buffer ?c1)
      = (fst (response_remove sid (response_buffer ?c1)), snd (response_remove sid (response_buffer ?c1)))"
    by simp
  show ?case
  proof (cases "snd (response_remove sid (response_buffer ?c1)) = None \<and> n < 10")
    case True
    then have "evolves ?c2 (fst (recv_loop arr sid (n + 1) ?c2))"
      by (intro "1.IH" [OF refl eq [symmetric] refl]) auto
    with c2 have "evolves c (fst (recv_loop arr sid (n + 1) ?c2))" by (rule evolves_trans)
    with True show ?thesis by (subst recv_loop.simps) (simp add: Let_def case_prod_beta)
  next
    case False
    with c2 show ?thesis
      by (subst recv_loop.simps) (auto simp: Let_def case_prod_beta split: option.splits)
  qed
qed

lemma evolves_recv: "evolves c (fst (recv_from_network arr sid c))"
  using evolves_recv_loop [of c arr sid 0] by (simp add: recv_from_network_def case_prod_beta)

lemma evolves_query: "evolves c (fst (query_network env r c))"
  using evolves_send_id [of c env "stream_id_next (current_stream_id c)" r] evolves_recv evolves_trans
  by (fastforce simp: query_network_def send_to_network_def split: prod.splits option.splits)

lemma query_evolves: "query_network env r c = (c', res) \<Longrightarrow> evolves c c'"
  using evolves_query [of c env r] by simp

lemma evolves_peers: "evolves c (fst (replica_peers env rn c))"
  using evolves_query [of c env GossipsubGetInfo]
  by (auto simp: replica_peers_def split: prod.splits sum.splits app_response.splits)

lemma peers_evolves: "replica_peers env rn c = (c', ps) \<Longrightarrow> evolves c c'"
  using evolves_peers [of c env rn] by simp

text \<open>The rules that follow the composition of an operation from the outside in.\<close>

lemmas evolves_after =
  evolves_trans [OF _ evolves_setters(1)] evolves_trans [OF _ evolves_setters(2)]
  evolves_trans [OF _ evolves_setters(3)] evolves_trans [OF _ evolves_setters(4)]
  evolves_trans [OF _ evolves_update_shard]
  evolves_trans [OF _ evolves_event] evolves_trans [OF _ evolves_query]
  evolves_trans [OF _ evolves_peers]

section \<open>Replication\<close>

lemma queues_ordered_update:
  "queues_ordered rb \<Longrightarrow> rset_wf q \<Longrightarrow> queues_ordered (rb\<lparr>queue := (queue rb)(rn \<mapsto> q)\<rparr>)"
  by (simp add: queues_ordered_def)

lemma queues_ordered_temp [simp]:
  "queues_ordered (rb\<lparr>temporary_queue := t\<rparr>) = queues_ordered rb"
  by (simp add: queues_ordered_def)

lemma evolves_public:
  "(queues_ordered (replica_buffer c) \<Longrightarrow> rset_wf q) \<Longrightarrow> evolves c (set_public rn q c)"
  unfolding set_public_def by (rule evolves_buffer) (simp add: queues_ordered_update)

lemma evolves_temp: "evolves c (set_temp rn tq c)"
  unfolding set_temp_def by (rule evolves_buffer) simp

lemma push_queue_wf:
  assumes "rset_wf q" "push_queue cap ex clk d q = Some q'"
  shows "rset_wf q'"
proof -
  have "cap \<noteq> 0" using assms(2) by (auto simp: push_queue_def evict_loop_zero)
  then have "0 < cap" by (simp add: word_neq_0_conv)
  from push_queue_total [OF this assms(1), of ex clk d] assms(2) show ?thesis by auto
qed

lemma drop_loop_wf:
  assumes "rset_wf q" "drop_loop cap q = Some q'"
  shows "rset_wf q'"
proof -
  have "cap \<noteq> 0" using assms(2) by (auto simp: drop_loop_zero)
  then have "0 < cap" by (simp add: word_neq_0_conv)
  have "rset_wf (drop n q)" for n
    by (induction n) (use assms(1) rset_wf_tl in \<open>auto simp: drop_Suc drop_tl\<close>)
  moreover have "q' = drop (Suc (length q) - unat cap) q"
    using drop_loop_total [OF \<open>0 < cap\<close>] assms(2) by simp
  ultimately show ?thesis by simp
qed

lemma confirm_cleanup_wf:
  assumes "rset_wf q" "confirm_cleanup cfg now q = Some q'"
  shows "rset_wf q'"
proof (cases cfg)
  case (ReplCustom ql ex sw m ag)
  have "rset_wf (if full ql q
      then (case ex of None \<Rightarrow> q | Some e \<Rightarrow> filter (\<lambda>d. \<not> expired e now d) q) else q)"
    using assms(1) by (auto simp: rset_wf_filter split: option.split)
  with assms(2) show ?thesis
    unfolding confirm_cleanup_def ReplCustom repl_network_config.case by (rule drop_loop_wf [rotated])
qed (use assms in \<open>simp add: confirm_cleanup_def\<close>)

lemma confirm_cleanup_some:
  "rset_wf q \<Longrightarrow> 0 < fst (push_limits cfg) \<Longrightarrow> \<exists>q'. confirm_cleanup cfg now q = Some q' \<and> rset_wf q'"
  using confirm_cleanup_wf [of q cfg now]
  by (cases cfg) (auto simp: confirm_cleanup_def push_limits_def drop_loop_total)

lemma push_public_ordered:
  assumes "push_public clk rn d rb = Some rb'" "queues_ordered rb"
  shows "queues_ordered rb'"
  using assms push_queue_wf [OF or_default_ordered [OF assms(2)]]
  by (auto simp: push_public_def queues_ordered_update split: prod.splits)

lemma confirm_temp_ordered:
  "confirm_temp n rn mid rb = Some (rb', f) \<Longrightarrow> queues_ordered rb \<Longrightarrow> queues_ordered rb'"
  by (auto simp: confirm_temp_def split: option.splits)

lemma confirm_move_ordered:
  assumes "confirm_move now rn mid rb = Some rb'" "queues_ordered rb"
  shows "queues_ordered rb'"
proof -
  obtain q where q: "confirm_cleanup (config rb) now (or_default (queue rb) rn) = Some q"
    using assms(1) by (auto simp: confirm_move_def)
  have "rset_wf q" using confirm_cleanup_wf [OF or_default_ordered [OF assms(2)] q] .
  then have "queues_ordered (rb\<lparr>queue := (queue rb)(rn \<mapsto> q)\<rparr>)"
    and "\<And>d. queues_ordered (rb\<lparr>queue := (queue rb)(rn \<mapsto> rset_insert d q)\<rparr>)"
    using assms(2) by (simp_all add: queues_ordered_update repl_store.inv_ins)
  with assms(1) q show ?thesis
    by (auto simp: confirm_move_def Let_def queues_ordered_def split: option.splits if_splits)
qed

lemma confirm_with_ordered:
  "confirm_with n now rn mid rb = Some rb' \<Longrightarrow> queues_ordered rb \<Longrightarrow> queues_ordered rb'"
  by (auto simp: confirm_with_def bind_eq_Some_conv split: if_splits
      dest: confirm_temp_ordered confirm_move_ordered)

lemma evolves_push_strong: "evolves c (push_strong env cm rn d c)"
proof -
  let ?c1 = "set_temp rn (push_temporary_room (temp_of c rn)) c"
  obtain c2 ps where p: "replica_peers env rn ?c1 = (c2, ps)" by fastforce
  have c2: "evolves c c2" using evolves_temp peers_evolves [OF p] evolves_trans by blast
  have "evolves c2 (set_public rn (rset_insert d (public_queue c2 rn)) c2)"
    by (rule evolves_public) (simp add: public_queue_def or_default_ordered repl_store.inv_ins)
  moreover have "evolves c2 (fst (query_network env r
      (set_temp rn (push_temporary d (temp_of c2 rn)) c2)))" for r
    using evolves_temp evolves_query evolves_trans by blast
  ultimately show ?thesis
    using c2 evolves_trans by (auto simp: push_strong_def p Let_def)
qed

lemma evolves_repl_push: "repl_push env rn d c = Some c' \<Longrightarrow> evolves c c'"
  using push_public_ordered
  by (auto simp: repl_push_def evolves_push_strong intro: evolves_buffer
      split: consistency_model.splits)

lemma evolves_incoming: "handle_incoming_repl_data env rn d c = Some c' \<Longrightarrow> evolves c c'"
  by (auto simp: handle_incoming_repl_data_def Let_def split: option.splits
      dest!: evolves_repl_push intro: evolves_event evolves_trans [OF evolves_after(1)
        [OF evolves_event]])

lemma evolves_consume: "evolves c (fst (consume_repl_data rn c))"
proof (cases "pop_front_queue rn (replica_buffer c)")
  case (Pair first rb)
  have "queues_ordered rb" if "queues_ordered (replica_buffer c)"
  proof (cases "queue (replica_buffer c) rn")
    case (Some q)
    then have "rset_wf (rset_remove x q)" for x
      using that by (simp add: queues_ordered_def repl_store.inv_del)
    with that Pair Some show ?thesis
      by (auto simp: pop_front_queue_def queues_ordered_update split: option.splits)
  qed (use that Pair in \<open>simp add: pop_front_queue_def\<close>)
  then have "evolves c (set_replication m (set_buffer rb c))" for m
    by (intro evolves_after(1) evolves_buffer)
  then show ?thesis
    using Pair by (simp add: consume_repl_data_def Let_def split: option.splits)
qed

lemma evolves_required: "evolves c (fst (required_peers env rn c))"
  using evolves_peers
  by (auto simp: required_peers_def case_prod_beta Let_def split: consistency_model.splits consensus_model.splits)

lemma evolves_confirmation: "handle_data_confirmation env rn mid c = Some c' \<Longrightarrow> evolves c c'"
  using evolves_required [of c env rn] confirm_with_ordered
  by (auto simp: handle_data_confirmation_def Let_def case_prod_beta
      intro!: evolves_trans [OF _ evolves_buffer])

lemma evolves_sync_round: "evolves c (sync_round cd env rn c)"
  by (simp add: sync_round_def Let_def evolves_query split: option.split)

lemma evolves_fetched:
  "queue (replica_buffer c) rn = Some q \<Longrightarrow> evolves c (set_public rn (insert_all ms q) c)"
  by (rule evolves_public) (auto simp: queues_ordered_def insert_all_wf)

lemma evolves_fetch_missing: "evolves c (fetch_missing cd env pt rn ms c)"
  by (auto simp: fetch_missing_def case_prod_beta evolves_query
      intro: evolves_trans [OF evolves_query evolves_fetched]
      split: option.split sum.split app_response.split)

lemma evolves_sync_image: "evolves c (sync_buffer_image cd env pt rn b st c)"
  by (auto simp: sync_buffer_image_def Let_def evolves_fetch_missing split: option.splits)

lemma evolves_join_repl: "evolves c (fst (join_repl_network env rn c))"
proof -
  have "queues_ordered (buffer_init rn rb)" if "queues_ordered rb" for rb
    using that by (auto simp: buffer_init_def Let_def queues_ordered_def)
  then have "evolves c (set_buffer (buffer_init rn (replica_buffer c)) (set_replication m c))" for m
    by (intro evolves_trans [OF evolves_setters(1) evolves_buffer]) simp
  then show ?thesis
    by (auto simp: join_repl_network_def Let_def case_prod_beta intro!: evolves_after
        split: sum.split)
qed

lemma evolves_leave_repl: "evolves c (fst (leave_repl_network env rn c))"
  by (simp add: leave_repl_network_def evolves_query)

lemma evolves_replicate: "evolves c (fst (replicate_data env data rn c))"
  by (auto simp: replicate_data_def Let_def case_prod_beta intro!: evolves_after
      split: option.split sum.split)

lemma evolves_clone: "evolves c (fst (replicate_buffer cd env rn peer c))"
proof (cases "repl_cfg c rn = None \<or> queue (replica_buffer c) rn = None")
  case False
  then obtain q where q: "queue (replica_buffer c) rn = Some q" by auto
  obtain c1 res where r: "query_network env (clone_request rn peer) c = (c1, res)" by fastforce
  have "evolves c1 (set_public rn (insert_all ms q) c1)" for ms
    by (rule evolves_public)
      (use q r query_frame(3) [of env "clone_request rn peer" c] in
        \<open>auto simp: queues_ordered_def insert_all_wf\<close>)
  then show ?thesis
    using False q r query_evolves [OF r] evolves_trans
    by (auto simp: replicate_buffer_def clone_buffer_def split: sum.splits app_response.splits)
qed (auto simp: replicate_buffer_def clone_buffer_def)

section \<open>Sharding\<close>

lemma evolves_forward: "evolves c (fst (forward_to env m ps c))"
proof (induction ps arbitrary: c)
  case (Cons p ps)
  then show ?case
    by (auto simp: case_prod_beta evolves_query intro: evolves_trans [OF evolves_query]
        split: sum.split)
qed simp

lemma evolves_fetch_from: "evolves c (fst (fetch_from env m ps c))"
proof (induction ps arbitrary: c)
  case (Cons p ps)
  then show ?case
    by (auto simp: case_prod_beta evolves_query intro: evolves_trans [OF evolves_query]
        split: sum.split app_response.split)
qed simp

lemma evolves_shard: "evolves c (fst (shard locate env key data c))"
  by (auto simp: shard_def case_prod_beta evolves_forward evolves_replicate
      split: option.split bool.split)

lemma evolves_fetch: "evolves c (fst (fetch locate env key data c))"
  by (auto simp: fetch_def case_prod_beta evolves_fetch_from split: option.split)

lemma evolves_join_network: "evolves c (fst (join_network cd env sid c))"
  by (auto simp: join_network_def Let_def case_prod_beta
      intro!: evolves_after evolves_trans [OF _ evolves_join_repl] split: sum.split)

lemma evolves_exit_network: "evolves c (fst (exit_network cd env shards sid c))"
  by (auto simp: exit_network_def Let_def case_prod_beta intro!: evolves_after split: sum.split)

lemma evolves_shard_tasks:
  "evolves c (init_sharding env n c)" "evolves c (publish_shard_state cd env p c)"
  "evolves c (handle_incoming_shard_data env sid p d c)"
  by (auto simp: init_sharding_def publish_shard_state_def handle_incoming_shard_data_def
      intro!: evolves_after evolves_trans [OF _ evolves_replicate])

section \<open>The operations as a relation\<close>

text \<open>What the application may call on its \<open>Core\<close>. The policy of the sharding operations
  is a parameter of the call.\<close>

inductive api_call :: "codecs \<Rightarrow> env \<Rightarrow> core \<Rightarrow> core \<Rightarrow> bool" for cd env where
  api_send: "api_call cd env c (fst (send_to_network env req c))"
| api_recv: "api_call cd env c (fst (recv_from_network arr sid c))"
| api_query: "api_call cd env c (fst (query_network env req c))"
| api_events: "api_call cd env c (fst (take_events c))"
| api_next_event: "api_call cd env c (fst (next_event c))"
| api_join_repl: "api_call cd env c (fst (join_repl_network env rn c))"
| api_leave_repl: "api_call cd env c (fst (leave_repl_network env rn c))"
| api_replicate: "api_call cd env c (fst (replicate_data env data rn c))"
| api_consume: "api_call cd env c (fst (consume_repl_data rn c))"
| api_clone: "api_call cd env c (fst (replicate_buffer cd env rn peer c))"
| api_join_network: "api_call cd env c (fst (join_network cd env sid c))"
| api_exit_network: "api_call cd env c (fst (exit_network cd env shards sid c))"
| api_shard: "api_call cd env c (fst (shard locate env (key :: string) data c))"
| api_fetch: "api_call cd env c (fst (fetch locate env (key :: string) data c))"

text \<open>A spawned task; the task of eventual consistency is one turn of its loop.\<close>

fun run_task :: "codecs \<Rightarrow> env \<Rightarrow> task \<Rightarrow> core \<Rightarrow> core option" where
  "run_task cd env (InitSharding network) c = Some (init_sharding env network c)"
| "run_task cd env (SyncEventual rn) c = Some (sync_round cd env rn c)"
| "run_task cd env (IncomingReplData rn d) c = handle_incoming_repl_data env rn d c"
| "run_task cd env (DataConfirmation rn mid) c = handle_data_confirmation env rn mid c"
| "run_task cd env (SyncImage peer rn bounds state) c =
     Some (sync_buffer_image cd env peer rn bounds state c)"
| "run_task cd env (PublishShardState peer) c = Some (publish_shard_state cd env peer c)"
| "run_task cd env (IncomingShardData sid peer data) c =
     Some (handle_incoming_shard_data env sid peer data c)"

lemma evolves_events:
  "evolves c (fst (take_events c))" "evolves c (fst (next_event c))"
  using dq_pop_bound [of "event_queue c"]
  by (auto simp: evolves_def core_inv_def channel_tracked_def traffic_inv_def grows_def take_events_def dq_drain_def
      next_event_def Let_def split: prod.splits)

lemma evolves_api: "api_call cd env c c' \<Longrightarrow> evolves c c'"
  by (induction rule: api_call.induct)
    (simp_all only: send_to_network_def evolves_send_id evolves_recv evolves_query evolves_events
       evolves_join_repl evolves_leave_repl evolves_replicate evolves_consume evolves_clone
       evolves_join_network evolves_exit_network evolves_shard evolves_fetch)

lemma evolves_task: "run_task cd env t c = Some c' \<Longrightarrow> evolves c c'"
  by (cases t) (auto simp: evolves_shard_tasks evolves_sync_round evolves_sync_image
      dest: evolves_incoming evolves_confirmation)

end
