(* ===== verification/Builder.thy ===== *)
theory Builder
  imports App_Requests
begin

text \<open>
  \<open>CoreBuilder\<close> (\<open>swarm-nl/src/core/mod.rs\<close>): the configuration of a node and
  \<open>CoreBuilder::build\<close>, which turns it into a running \<open>Core\<close>. A libp2p behaviour is
  represented by the settings the builder gives it; \<open>host\<close> answers for the machine and for
  libp2p whether a transport, the name service, a listener or a dial succeeds.
\<close>

section \<open>The builder\<close>

datatype ip_addr = IpV4 string | IpV6 string

datatype kad_config = KadDefault | KadCustom string

record core_builder =
  cb_network_id :: string
  cb_keypair :: keypair
  tcp_udp_port :: "port \<times> port"
  cb_boot_nodes :: nodes_map
  cb_blacklist :: blacklist_rec
  stream_size :: nat
  ip_address :: ip_addr
  keep_alive_duration :: seconds
  transport :: transport_opts
  ping_behaviour :: "(duration \<times> duration) option"
  ping_policy :: ping_error_policy
  kademlia :: kad_config
  identify_protocol :: string
  rpc_protocol :: string
  rpc_settings :: rpc_config
  rpc_handler :: rpc_callback
  gossipsub_settings :: gossipsub_config
  gossip_filter :: gossip_callback
  replication_cfg :: repl_network_config
  cb_sharding :: sharding_info

text \<open>\<open>usize::MAX\<close> on a 64-bit machine, and the sharding data of a node without shards.\<close>

definition USIZE_MAX :: nat where "USIZE_MAX = 2 ^ 64 - 1"

definition no_sharding :: sharding_info where
  "no_sharding = \<lparr>sh_id = [], local_storage = default_storage, sh_state = Map.empty\<rparr>"

definition with_config :: "bootstrap_config \<Rightarrow> core_builder" where
  "with_config cfg =
     \<lparr>cb_network_id = DEFAULT_NETWORK_ID, cb_keypair = bc_keypair cfg,
      tcp_udp_port = ports cfg, cb_boot_nodes = boot_nodes cfg, cb_blacklist = bc_blacklist cfg,
      stream_size = USIZE_MAX, ip_address = IpV4 DEFAULT_IP_ADDRESS,
      keep_alive_duration = DEFAULT_KEEP_ALIVE_DURATION, transport = TcpQuic TcpDefault,
      ping_behaviour = None, ping_policy = DisconnectAfterMaxTimeouts 20,
      kademlia = KadDefault, identify_protocol = DEFAULT_NETWORK_ID,
      rpc_protocol = DEFAULT_NETWORK_ID, rpc_settings = RpcDefault, rpc_handler = Some,
      gossipsub_settings = GossipDefault, gossip_filter = (\<lambda>_ _ _ _ _. Some True),
      replication_cfg = ReplDefault, cb_sharding = no_sharding\<rparr>"

text \<open>\<open>None\<close> is the panic of \<open>with_network_id\<close>. The identify behaviour keeps the protocol
  it was created with.\<close>

definition with_network_id :: "string \<Rightarrow> core_builder \<Rightarrow> core_builder option" where
  "with_network_id protocol b =
     (if MIN_NETWORK_ID_LENGTH < length protocol \<and> prefix ''/'' protocol
      then Some (b\<lparr>cb_network_id := protocol\<rparr>) else None)"

definition listen_on :: "ip_addr \<Rightarrow> core_builder \<Rightarrow> core_builder" where
  "listen_on ip b = b\<lparr>ip_address := ip\<rparr>"

definition with_idle_connection_timeout :: "seconds \<Rightarrow> core_builder \<Rightarrow> core_builder" where
  "with_idle_connection_timeout d b = b\<lparr>keep_alive_duration := d\<rparr>"

definition with_stream_size :: "nat \<Rightarrow> core_builder \<Rightarrow> core_builder" where
  "with_stream_size n b = b\<lparr>stream_size := n\<rparr>"

definition with_ping :: "ping_config \<Rightarrow> core_builder \<Rightarrow> core_builder" where
  "with_ping cfg b =
     b\<lparr>ping_behaviour := Some (interval cfg, timeout cfg), ping_policy := err_policy cfg\<rparr>"

definition with_replication :: "repl_network_config \<Rightarrow> core_builder \<Rightarrow> core_builder" where
  "with_replication cfg b = b\<lparr>replication_cfg := cfg\<rparr>"

definition with_sharding ::
    "string \<Rightarrow> shard_storage \<Rightarrow> core_builder \<Rightarrow> core_builder" where
  "with_sharding network storage b =
     b\<lparr>cb_sharding :=
       \<lparr>sh_id = network, local_storage = storage, sh_state = Map.empty\<rparr>\<rparr>"

definition with_rpc :: "rpc_config \<Rightarrow> rpc_callback \<Rightarrow> core_builder \<Rightarrow> core_builder" where
  "with_rpc cfg handler b =
     (case cfg of
        RpcDefault \<Rightarrow> b
      | RpcCustom _ _ \<Rightarrow> b\<lparr>rpc_protocol := cb_network_id b, rpc_settings := cfg\<rparr>)
     \<lparr>rpc_handler := handler\<rparr>"

definition with_kademlia :: "string \<Rightarrow> core_builder \<Rightarrow> core_builder" where
  "with_kademlia cfg b = b\<lparr>kademlia := KadCustom cfg\<rparr>"

text \<open>\<open>valid\<close> is libp2p's check of a custom configuration; it panics otherwise.\<close>

definition with_gossipsub ::
    "(gossipsub_config \<Rightarrow> bool) \<Rightarrow> gossipsub_config \<Rightarrow> gossip_callback
      \<Rightarrow> core_builder \<Rightarrow> core_builder option" where
  "with_gossipsub valid cfg filter_fn b =
     (case cfg of
        GossipDefault \<Rightarrow> Some (b\<lparr>gossip_filter := filter_fn\<rparr>)
      | GossipCustom _ _ \<Rightarrow>
          (if valid cfg
           then Some (b\<lparr>gossipsub_settings := cfg, gossip_filter := filter_fn\<rparr>) else None))"

definition with_transports :: "transport_opts \<Rightarrow> core_builder \<Rightarrow> core_builder" where
  "with_transports t b = b\<lparr>transport := t\<rparr>"

section \<open>Building\<close>

datatype runtime = AsyncStd | Tokio

record host =
  tcp_ok :: "tcp_config \<Rightarrow> bool"
  dns_ok :: bool
  protocols_ok :: bool
  swarm_ok :: "swarm_call \<Rightarrow> bool"
  to_peer_id :: "keypair \<Rightarrow> peer_id"

text \<open>The two blocks that make the swarm: only the async-std one sets up a name service.\<close>

definition build_swarm_async_std :: "host \<Rightarrow> transport_opts \<Rightarrow> unit swarm_nl_result" where
  "build_swarm_async_std h t =
     (case t of TcpQuic tcp \<Rightarrow>
        (if \<not> tcp_ok h tcp then Inl (TransportConfigError (TcpQuic tcp))
         else if \<not> dns_ok h then Inl DNSConfigError
         else if \<not> protocols_ok h then Inl ProtocolConfigError
         else Inr ()))"

definition build_swarm_tokio :: "host \<Rightarrow> transport_opts \<Rightarrow> unit swarm_nl_result" where
  "build_swarm_tokio h t =
     (case t of TcpQuic tcp \<Rightarrow>
        (if \<not> tcp_ok h tcp then Inl (TransportConfigError (TcpQuic tcp))
         else if \<not> protocols_ok h then Inl ProtocolConfigError
         else Inr ()))"

definition build_swarm :: "runtime \<Rightarrow> host \<Rightarrow> transport_opts \<Rightarrow> unit swarm_nl_result" where
  "build_swarm rt h t =
     (case rt of AsyncStd \<Rightarrow> build_swarm_async_std h t | Tokio \<Rightarrow> build_swarm_tokio h t)"

definition ip_text :: "ip_addr \<Rightarrow> string" where
  "ip_text ip = (case ip of IpV4 a \<Rightarrow> ''/ip4/'' @ a | IpV6 a \<Rightarrow> ''/ip6/'' @ a)"

definition listen_addr_tcp :: "core_builder \<Rightarrow> multiaddr" where
  "listen_addr_tcp b =
     ip_text (ip_address b) @ ''/tcp/'' @ show_nat (unat (fst (tcp_udp_port b)))"

definition listen_addr_quic :: "core_builder \<Rightarrow> multiaddr" where
  "listen_addr_quic b =
     ip_text (ip_address b) @ ''/udp/'' @ show_nat (unat (snd (tcp_udp_port b))) @ ''/quic-v1''"

text \<open>Each step returns the calls it made; the first listener that fails ends the build.\<close>

definition start_listening :: "host \<Rightarrow> core_builder \<Rightarrow> swarm_call list \<times> unit swarm_nl_result" where
  "start_listening h b =
     (let tcp = SwarmListen (listen_addr_tcp b); quic = SwarmListen (listen_addr_quic b) in
      if \<not> swarm_ok h tcp then ([tcp], Inl (MultiaddressListenError (listen_addr_tcp b)))
      else if \<not> swarm_ok h quic
      then ([tcp, quic], Inl (MultiaddressListenError (listen_addr_quic b)))
      else ([tcp, quic], Inr ()))"

text \<open>The bootnodes, in the iteration order of their table; the first dial that fails ends
  the build.\<close>

definition bootnode_target ::
    "codecs \<Rightarrow> blacklist_rec \<Rightarrow> peer_id_string \<times> multiaddr_string \<Rightarrow> (peer_id \<times> multiaddr) option"
  where
  "bootnode_target cd bl info =
     (case base58_peer cd (fst info) of
        None \<Rightarrow> None
      | Some peer \<Rightarrow>
          (case parse_addr cd (snd info) of
             None \<Rightarrow> None
           | Some addr \<Rightarrow> if peer \<in> list_of bl then None else Some (peer, addr)))"

fun dial_bootnodes ::
    "codecs \<Rightarrow> host \<Rightarrow> blacklist_rec \<Rightarrow> (peer_id_string \<times> multiaddr_string) list
      \<Rightarrow> swarm_call list \<times> unit swarm_nl_result" where
  "dial_bootnodes cd h bl [] = ([], Inr ())"
| "dial_bootnodes cd h bl (info # rest) =
     (case bootnode_target cd bl info of
        None \<Rightarrow> dial_bootnodes cd h bl rest
      | Some (peer, addr) \<Rightarrow>
          (let add = KadAddAddress peer addr; dial = SwarmDial addr (Some peer) in
           if \<not> swarm_ok h dial then ([add, dial], Inl (RemotePeerDialError addr))
           else (let (cs, r) = dial_bootnodes cd h bl rest in (add # dial # cs, r))))"

text \<open>The counts of the ping manager start with the node itself at 0.\<close>

definition initial_ping :: "host \<Rightarrow> core_builder \<Rightarrow> ping_info" where
  "initial_ping h b =
     (let me = to_peer_id h (cb_keypair b) in
      \<lparr>policy = ping_policy b, manager = \<lparr>timeouts = [me \<mapsto> 0], outbound_errors = [me \<mapsto> 0]\<rparr>\<rparr>)"

definition initial_info :: "host \<Rightarrow> core_builder \<Rightarrow> network_info" where
  "initial_info h b =
     \<lparr>net_id = cb_network_id b, ping = initial_ping h b, gossip_blacklist = cb_blacklist b,
      rpc_handler_fn = rpc_handler b, gossip_filter_fn = gossip_filter b,
      replication = Map.empty, sharding = cb_sharding b\<rparr>"

definition initial_core :: "host \<Rightarrow> core_builder \<Rightarrow> core" where
  "initial_core h b =
     \<lparr>core_peer = to_peer_id h (cb_keypair b), app_channel = [],
      response_buffer = response_buffer_new (stream_size b),
      request_buffer = request_buffer_new (stream_size b),
      current_stream_id = stream_id_new, event_queue = dq_new,
      replica_buffer = replica_buffer_new (replication_cfg b),
      network_info = initial_info h b,
      tasks = (if sh_id (cb_sharding b) \<noteq> [] then [InitSharding (sh_id (cb_sharding b))] else [])\<rparr>"

text \<open>
  \<open>nodes\<close> and \<open>blocked\<close> are the bootnodes and the blacklist in iteration order. The result
  pairs the calls made on the swarm with the network task's first state.
\<close>

definition build ::
    "runtime \<Rightarrow> codecs \<Rightarrow> host \<Rightarrow> (peer_id_string \<times> multiaddr_string) list \<Rightarrow> peer_id list
      \<Rightarrow> core_builder \<Rightarrow> swarm_call list \<times> loop_state swarm_nl_result" where
  "build rt cd h nodes blocked b =
     (case build_swarm rt h (transport b) of
        Inl e \<Rightarrow> ([], Inl e)
      | Inr _ \<Rightarrow>
          (case start_listening h b of
             (cs, Inl e) \<Rightarrow> (cs, Inl e)
           | (cs, Inr _) \<Rightarrow>
               (case dial_bootnodes cd h (cb_blacklist b) nodes of
                  (ds, Inl e) \<Rightarrow> (cs @ ds, Inl e)
                | (ds, Inr _) \<Rightarrow>
                    (cs @ ds @ [KadBootstrap, KadSetServerMode] @ map GossipBlacklist blocked,
                     Inr (loop_start (initial_core h b))))))"

section \<open>Lemmas\<close>

lemma dial_bootnodes_calls:
  "set (fst (dial_bootnodes cd h bl nodes))
     \<subseteq> (\<Union>(p, a) \<in> set (List.map_filter (bootnode_target cd bl) nodes).
          {KadAddAddress p a, SwarmDial a (Some p)})"
proof (induction nodes)
  case (Cons info rest)
  then show ?case
    by (cases "bootnode_target cd bl info")
      (auto simp: List.map_filter_simps Let_def case_prod_beta)
qed simp

lemma bootnode_target_allowed:
  "bootnode_target cd bl info = Some (p, a) \<Longrightarrow> p \<notin> list_of bl"
  by (auto simp: bootnode_target_def split: option.splits if_splits)

lemma map_filter_SomeD: "y \<in> set (List.map_filter f xs) \<Longrightarrow> \<exists>x \<in> set xs. f x = Some y"
  by (auto simp: List.map_filter_def)

lemma dial_bootnodes_ok:
  "snd (dial_bootnodes cd h bl nodes) = Inr () \<Longrightarrow>
     fst (dial_bootnodes cd h bl nodes)
       = concat (map (\<lambda>(p, a). [KadAddAddress p a, SwarmDial a (Some p)])
           (List.map_filter (bootnode_target cd bl) nodes))"
proof (induction nodes)
  case (Cons info rest)
  then show ?case
    by (cases "bootnode_target cd bl info")
      (auto simp: List.map_filter_simps Let_def case_prod_beta split: if_splits)
qed (simp add: List.map_filter_simps)

lemma build_ok:
  assumes "build rt cd h nodes blocked b = (cs, Inr ls)"
  shows "ls = loop_start (initial_core h b)
     \<and> cs = [SwarmListen (listen_addr_tcp b), SwarmListen (listen_addr_quic b)]
            @ fst (dial_bootnodes cd h (cb_blacklist b) nodes)
            @ [KadBootstrap, KadSetServerMode] @ map GossipBlacklist blocked
     \<and> snd (dial_bootnodes cd h (cb_blacklist b) nodes) = Inr ()"
  using assms by (auto simp: build_def start_listening_def Let_def split: sum.splits prod.splits if_splits)

end
