(* ===== verification/Node_Machine.thy ===== *)
theory Node_Machine
  imports Node_Ops Builder
begin

text \<open>
  The running node as a step relation. A state is the network task's \<open>loop_state\<close>, which
  holds the shared \<open>Core\<close>, or \<open>Panicked\<close> once a handler of that task has panicked. The
  steps are those of the concurrent tasks of the source: the application calls an
  operation, the network task takes a request or an event, the response task files a
  response, a spawned task runs. An operation that waits for responses takes them from its
  \<open>env\<close>, so what holds in every reachable state here holds whatever the network answers
  meanwhile.
\<close>

section \<open>Invariants of a step relation\<close>

locale step_invariant =
  fixes step :: "'s \<Rightarrow> 's \<Rightarrow> bool"
    and inv :: "'s \<Rightarrow> bool"
  assumes inv_step: "step s s' \<Longrightarrow> inv s \<Longrightarrow> inv s'"
begin

lemma inv_steps: "step\<^sup>*\<^sup>* s s' \<Longrightarrow> inv s \<Longrightarrow> inv s'"
  by (induction rule: rtranclp_induct) (auto intro: inv_step)

end

section \<open>The invariant of the network task\<close>

definition tracked_ids :: "loop_state \<Rightarrow> stream_id set" where
  "tracked_ids ls = req_buffer (request_buffer (node ls))"

definition queue_tracked :: "stream_id set \<Rightarrow> stream_id data_queue \<Rightarrow> bool" where
  "queue_tracked ids q \<longleftrightarrow> length q \<le> MAX_QUEUE_ELEMENTS \<and> set q \<subseteq> ids"

definition loop_inv :: "loop_state \<Rightarrow> bool" where
  "loop_inv ls \<longleftrightarrow> core_inv (node ls)
     \<and> queue_tracked (tracked_ids ls) (data_queue_1 ls)
     \<and> queue_tracked (tracked_ids ls) (data_queue_2 ls)
     \<and> queue_tracked (tracked_ids ls) (data_queue_3 ls)
     \<and> queue_tracked (tracked_ids ls) (data_queue_4 ls)
     \<and> list_all (response_tracked (tracked_ids ls)) (out_channel ls)"

lemma queue_tracked_push:
  "queue_tracked ids q \<Longrightarrow> sid \<in> ids \<Longrightarrow> queue_tracked ids (dq_push sid q)"
  using set_dq_push [of sid q] by (auto simp: queue_tracked_def)

lemma queue_tracked_pop:
  "queue_tracked ids q \<Longrightarrow> dq_pop q = (r, q') \<Longrightarrow>
     queue_tracked ids q' \<and> (case r of None \<Rightarrow> True | Some sid \<Rightarrow> sid \<in> ids)"
  using dq_pop_bound [of q r q'] set_dq_pop [of q r q']
  by (auto simp: queue_tracked_def dq_pop_def split: list.splits)

lemma loop_inv_frame [simp]:
  "loop_inv (make_call x ls) = loop_inv ls"
  "loop_inv (ls\<lparr>loop_ping := i\<rparr>) = loop_inv ls"
  "loop_inv (ls\<lparr>loop_blacklist := b\<rparr>) = loop_inv ls"
  by (simp_all add: loop_inv_def tracked_ids_def make_call_def)

lemma tracked_frame [simp]:
  "tracked_ids (make_call x ls) = tracked_ids ls"
  "tracked_ids (respond sid r ls) = tracked_ids ls"
  "tracked_ids (ls\<lparr>loop_blacklist := b\<rparr>) = tracked_ids ls"
  by (simp_all add: tracked_ids_def make_call_def respond_def)

lemma loop_inv_respond: "loop_inv ls \<Longrightarrow> sid \<in> tracked_ids ls \<Longrightarrow> loop_inv (respond sid r ls)"
  by (simp add: loop_inv_def tracked_ids_def respond_def)

lemma loop_inv_push:
  assumes "loop_inv ls" "sid \<in> tracked_ids ls"
  shows "loop_inv (ls\<lparr>data_queue_1 := dq_push sid (data_queue_1 ls)\<rparr>)"
    and "loop_inv (ls\<lparr>data_queue_2 := dq_push sid (data_queue_2 ls)\<rparr>)"
    and "loop_inv (ls\<lparr>data_queue_3 := dq_push sid (data_queue_3 ls)\<rparr>)"
    and "loop_inv (ls\<lparr>data_queue_4 := dq_push sid (data_queue_4 ls)\<rparr>)"
  using assms by (simp_all add: loop_inv_def tracked_ids_def queue_tracked_push)

lemma loop_inv_evolves:
  assumes "loop_inv ls" "evolves (node ls) c"
  shows "loop_inv (ls\<lparr>node := c\<rparr>)"
proof -
  have sub: "req_buffer (request_buffer (node ls)) \<subseteq> req_buffer (request_buffer c)"
    using assms(2) by (simp add: evolves_def grows_def)
  then have "queue_tracked (tracked_ids ls) q \<Longrightarrow> queue_tracked (tracked_ids (ls\<lparr>node := c\<rparr>)) q" for q
    by (auto simp: queue_tracked_def tracked_ids_def)
  moreover have "list_all (response_tracked (tracked_ids ls)) ms \<Longrightarrow>
      list_all (response_tracked (tracked_ids (ls\<lparr>node := c\<rparr>))) ms" for ms
    using sub by (auto simp: list_all_iff tracked_ids_def intro: item_tracked_mono)
  ultimately show ?thesis
    using assms evolves_inv by (auto simp: loop_inv_def)
qed

lemma loop_inv_update:
  "loop_inv ls \<Longrightarrow> evolves (node ls) (f (node ls)) \<Longrightarrow> loop_inv (update_node f ls)"
  by (simp add: update_node_def loop_inv_evolves)

lemma loop_inv_log: "loop_inv ls \<Longrightarrow> loop_inv (log_event ev ls)"
  unfolding log_event_def by (rule loop_inv_update) (auto intro: evolves_event)

section \<open>The requests keep it\<close>

lemma loop_inv_app_data:
  assumes "loop_inv ls" "untracked req \<or> sid \<in> tracked_ids ls"
  shows "loop_inv (handle_app_data cd sw sid req ls)"
proof (cases "untracked req")
  case True
  then show ?thesis using assms(1) by (cases req) simp_all
next
  case False
  then have sid: "sid \<in> tracked_ids ls" using assms(2) by simp
  have sid': "sid \<in> tracked_ids (make_call x (make_call y ls))" for x y using sid by simp
  note facts = assms(1) sid sid' loop_inv_respond loop_inv_push [of "make_call x ls" for x]
    loop_inv_push [of "make_call x (make_call y ls)" for x y]
  show ?thesis
    using False
    by (cases req)
      (auto simp: handle_dial_def handle_store_record_def handle_lookup_def handle_get_providers_def
         handle_send_rpc_def handle_broadcast_def handle_join_def handle_exit_def
         handle_blacklist_def handle_filter_blacklist_def Let_def facts split: option.split)
qed

lemma loop_inv_request:
  assumes "loop_inv ls" shows "loop_inv (receive_request cd sw ls)"
proof (cases "app_channel (node ls)")
  case Nil
  with assms show ?thesis by (simp add: receive_request_def)
next
  case (Cons item rest)
  let ?ls = "update_node (\<lambda>c. c\<lparr>app_channel := rest\<rparr>) ls"
  have ch: "request_tracked (tracked_ids ls) item"
    "list_all (request_tracked (tracked_ids ls)) rest"
    using assms Cons by (simp_all add: loop_inv_def core_inv_def channel_tracked_def tracked_ids_def)
  have t: "tracked_ids ?ls = tracked_ids ls" by (simp add: tracked_ids_def update_node_def)
  have "loop_inv ?ls"
    using assms ch(2) by (simp add: loop_inv_def core_inv_def channel_tracked_def traffic_inv_def
      update_node_def tracked_ids_def)
  then show ?thesis
    using ch(1) t Cons
    by (cases item) (simp_all add: receive_request_def loop_inv_app_data)
qed

section \<open>The events keep it\<close>

lemma loop_inv_answers:
  assumes "loop_inv ls"
  shows "loop_inv (answer_1 r ls)" "loop_inv (answer_2 r ls)"
    "loop_inv (answer_3 r ls)" "loop_inv (answer_4 r ls)"
  using assms queue_tracked_pop [of "tracked_ids ls" "data_queue_1 ls"]
    queue_tracked_pop [of "tracked_ids ls" "data_queue_2 ls"]
    queue_tracked_pop [of "tracked_ids ls" "data_queue_3 ls"]
    queue_tracked_pop [of "tracked_ids ls" "data_queue_4 ls"]
  by (auto simp: answer_1_def answer_2_def answer_3_def answer_4_def loop_inv_def tracked_ids_def
      respond_def split: prod.splits option.splits)

lemma loop_inv_ping:
  assumes "loop_inv ls"
  shows "loop_inv (handle_ping_ok p d ls)" "loop_inv (handle_ping_err p f ls)"
  using assms by (auto simp: handle_ping_ok_def handle_ping_err_def Let_def case_prod_beta
      intro!: loop_inv_log)

lemma loop_inv_kad: "loop_inv ls \<Longrightarrow> loop_inv (handle_kad cd k ls)"
  by (cases k) (simp_all add: loop_inv_answers loop_inv_log)

lemma loop_inv_identify: "loop_inv ls \<Longrightarrow> handle_identify p v i ls = Some ls' \<Longrightarrow> loop_inv ls'"
  by (auto simp: handle_identify_def Let_def loop_inv_log split: if_splits)

lemma evolves_fetch_local: "fetch_local key c = Some (c', answer) \<Longrightarrow> evolves c c'"
  by (auto simp: fetch_local_def Let_def evolves_setters)

lemma loop_inv_rpc:
  assumes "loop_inv ls" "handle_rpc_request cd p ch data ls = Some ls'"
  shows "loop_inv ls'"
proof -
  note parts = serve_sync_pull_def serve_shard_sync_def serve_forwarded_def serve_shard_request_def
    send_response_def
  have "loop_inv (ls\<lparr>node := c\<rparr>)" if "fetch_local key (node ls) = Some (c, a)" for key c a
    by (rule loop_inv_evolves [OF assms(1) evolves_fetch_local [OF that]])
  moreover have "loop_inv (update_node (\<lambda>c. set_shard_view (f c) c) ls)" for f
    by (rule loop_inv_update [OF assms(1)]) (rule evolves_setters)
  moreover have "loop_inv (update_node (spawn t) (make_call x ls))" for t x
    by (rule loop_inv_update) (simp_all add: assms(1) evolves_setters)
  ultimately show ?thesis
    using assms by (auto simp: handle_rpc_request_def parts bind_eq_Some_conv Let_def case_prod_beta
        split: if_splits)
qed

lemma loop_inv_spawn: "loop_inv ls \<Longrightarrow> loop_inv (update_node (spawn t) ls)"
  by (rule loop_inv_update) (simp_all add: evolves_setters)

lemma loop_inv_view: "loop_inv ls \<Longrightarrow> loop_inv (update_node (update_shard_view p s j) ls)"
  by (rule loop_inv_update) (simp_all add: evolves_update_shard)

lemma loop_inv_gossip:
  assumes "loop_inv ls" "handle_gossip cd now msg ls = Some ls'"
  shows "loop_inv ls'"
  using assms
  by (auto simp: handle_gossip_def handle_repl_gossip_def handle_strong_gossip_def
      handle_eventual_gossip_def handle_shard_join_def handle_shard_exit_def handle_plain_gossip_def
      bind_eq_Some_conv Let_def loop_inv_spawn loop_inv_view loop_inv_log
      split: if_splits option.splits)

lemma loop_inv_event:
  assumes "loop_inv ls" "handle_swarm_event cd now ev ls = Some ls'"
  shows "loop_inv ls'"
proof -
  have est: "loop_inv (handle_established p c e n d ls)" for p c e n d
    using assms(1) by (auto simp: handle_established_def intro!: loop_inv_log split: connected_point.split)
  show ?thesis
    using assms
    by (cases ev) (auto simp: handle_swarm_event_def est loop_inv_ping loop_inv_kad loop_inv_answers
        loop_inv_log dest: loop_inv_identify loop_inv_rpc loop_inv_gossip)
qed

section \<open>The node\<close>

datatype node_state = Running loop_state | Panicked

fun persistent :: "task \<Rightarrow> bool" where
  "persistent (SyncEventual _) = True"
| "persistent _ = False"

definition finish_task :: "task \<Rightarrow> core \<Rightarrow> core" where
  "finish_task t c = (if persistent t then c else c\<lparr>tasks := remove1 t (tasks c)\<rparr>)"

inductive node_step :: "codecs \<Rightarrow> node_state \<Rightarrow> node_state \<Rightarrow> bool" for cd where
  step_api: "api_call cd env (node ls) c \<Longrightarrow> node_step cd (Running ls) (Running (ls\<lparr>node := c\<rparr>))"
| step_request: "node_step cd (Running ls) (Running (receive_request cd sw ls))"
| step_event: "handle_swarm_event cd now ev ls = Some ls' \<Longrightarrow>
     node_step cd (Running ls) (Running ls')"
| step_panic: "handle_swarm_event cd now ev ls = None \<Longrightarrow> node_step cd (Running ls) Panicked"
| step_deliver: "out_channel ls = m # rest \<Longrightarrow>
     node_step cd (Running ls)
       (Running (ls\<lparr>out_channel := rest, node := handle_network_response m (node ls)\<rparr>))"
| step_task: "t \<in> set (tasks (node ls)) \<Longrightarrow> run_task cd env t (node ls) = Some c \<Longrightarrow>
     node_step cd (Running ls) (Running (ls\<lparr>node := finish_task t c\<rparr>))"

inductive_cases node_step_RunningE: "node_step cd (Running ls) s'"
inductive_simps node_step_Panicked: "node_step cd Panicked s'"

definition node_inv :: "node_state \<Rightarrow> bool" where
  "node_inv s = (case s of Running ls \<Rightarrow> loop_inv ls | Panicked \<Rightarrow> True)"

lemma evolves_finish: "evolves c (finish_task t c)"
  by (simp add: finish_task_def evolves_frame)

lemma node_inv_step:
  assumes "node_step cd s s'" "node_inv s" shows "node_inv s'"
  using assms
proof (induction rule: node_step.induct)
  case (step_api env ls c)
  then show ?case by (simp add: node_inv_def loop_inv_evolves evolves_api)
next
  case (step_request ls sw)
  then show ?case by (simp add: node_inv_def loop_inv_request)
next
  case (step_event now ev ls ls')
  then show ?case by (simp add: node_inv_def loop_inv_event)
next
  case (step_panic now ev ls)
  then show ?case by (simp add: node_inv_def)
next
  case (step_deliver ls m rest)
  then have "loop_inv (ls\<lparr>out_channel := rest\<rparr>)" by (simp add: node_inv_def loop_inv_def tracked_ids_def)
  then show ?case using loop_inv_evolves evolves_handle by (fastforce simp: node_inv_def)
next
  case (step_task t ls env c)
  then have "evolves (node ls) (finish_task t c)"
    using evolves_task evolves_finish evolves_trans by blast
  with step_task show ?case by (simp add: node_inv_def loop_inv_evolves)
qed

interpretation node_bounds: step_invariant "node_step cd" node_inv for cd
  by unfold_locales (rule node_inv_step)

text \<open>A request buffer that is full stays full.\<close>

definition request_full :: "node_state \<Rightarrow> bool" where
  "request_full s =
     (case s of
        Running ls \<Rightarrow> loop_inv ls
          \<and> req_size (request_buffer (node ls)) \<le> card (req_buffer (request_buffer (node ls)))
      | Panicked \<Rightarrow> True)"

lemma grows_full:
  assumes "grows c c'" "request_buffer_inv (request_buffer c')"
    and "req_size (request_buffer c) \<le> card (req_buffer (request_buffer c))"
  shows "req_size (request_buffer c') \<le> card (req_buffer (request_buffer c'))"
  using assms card_mono [of "req_buffer (request_buffer c')" "req_buffer (request_buffer c)"]
  by (simp add: grows_def request_buffer_inv_def)

lemma app_data_node [simp]: "node (handle_app_data cd sw sid req ls) = node ls"
  by (cases req) (simp_all add: handle_dial_def handle_store_record_def handle_lookup_def
      handle_get_providers_def handle_send_rpc_def handle_broadcast_def handle_join_def
      handle_exit_def handle_blacklist_def handle_filter_blacklist_def make_call_def respond_def
      Let_def split: option.split)

lemma request_grows: "grows (node ls) (node (receive_request cd sw ls))"
  by (auto simp: receive_request_def update_node_def grows_def Let_def
      split: list.split stream_data.split)

lemma make_call_node [simp]: "node (make_call x ls) = node ls"
  by (simp add: make_call_def)

lemma answers_node [simp]:
  "node (answer_1 r ls) = node ls" "node (answer_2 r ls) = node ls"
  "node (answer_3 r ls) = node ls" "node (answer_4 r ls) = node ls"
  by (simp_all add: answer_1_def answer_2_def answer_3_def answer_4_def respond_def
      split: prod.split option.split)

lemma log_event_node [simp]: "node (log_event ev ls) = push_event ev (node ls)"
  by (simp add: log_event_def update_node_def)

lemma event_evolves:
  assumes "handle_swarm_event cd now ev ls = Some ls'"
  shows "evolves (node ls) (node ls')"
proof (cases ev)
  case (Rpc_Request p ch data)
  with assms show ?thesis
    by (auto simp: handle_swarm_event_def handle_rpc_request_def serve_sync_pull_def
        serve_shard_sync_def serve_forwarded_def serve_shard_request_def send_response_def
        update_node_def bind_eq_Some_conv Let_def case_prod_beta evolves_setters evolves_fetch_local
        split: if_splits)
next
  case (Gossip_Message msg)
  with assms show ?thesis
    by (auto simp: handle_swarm_event_def handle_gossip_def handle_repl_gossip_def
        handle_strong_gossip_def handle_eventual_gossip_def handle_shard_join_def
        handle_shard_exit_def handle_plain_gossip_def update_node_def bind_eq_Some_conv Let_def
        evolves_setters evolves_event evolves_update_shard
        intro!: evolves_trans [OF evolves_setters(2) evolves_update_shard]
        split: if_splits option.splits)
next
  case (Kad_Ev k)
  with assms show ?thesis
    by (cases k) (auto simp: handle_swarm_event_def evolves_event)
next
  case (Connection_Established_Ev p c e n d)
  with assms show ?thesis
    by (auto simp: handle_swarm_event_def handle_established_def evolves_event
        split: connected_point.splits)
qed (use assms in \<open>auto simp: handle_swarm_event_def handle_ping_ok_def handle_ping_err_def
  handle_identify_def Let_def case_prod_beta evolves_event split: if_splits option.splits\<close>)

lemma task_evolves: "run_task cd env t c = Some c' \<Longrightarrow> evolves c (finish_task t c')"
  using evolves_task evolves_finish evolves_trans by blast

lemma request_full_step:
  assumes "node_step cd s s'" "request_full s" shows "request_full s'"
proof (cases s)
  case Panicked
  with assms show ?thesis by (simp add: node_step_Panicked)
next
  case (Running ls)
  have inv: "node_inv s" using assms(2) Running by (simp add: request_full_def node_inv_def)
  then have inv': "node_inv s'" using assms(1) node_inv_step by blast
  show ?thesis
  proof (cases s')
    case (Running ls')
    have "grows (node ls) (node ls')"
      using assms(1) unfolding \<open>s = Running ls\<close> \<open>s' = Running ls'\<close>
      by (elim node_step_RunningE)
        (auto simp: evolves_def request_grows dest: evolves_api event_evolves task_evolves
          intro: evolves_handle [unfolded evolves_def, THEN conjunct2])
    moreover have "request_buffer_inv (request_buffer (node ls'))"
      using inv' Running by (simp add: node_inv_def loop_inv_def core_inv_def traffic_inv_def)
    ultimately show ?thesis
      using assms(2) inv' Running \<open>s = Running ls\<close> grows_full
      by (auto simp: request_full_def node_inv_def)
  qed (simp add: request_full_def)
qed

interpretation node_leak: step_invariant "node_step cd" request_full for cd
  by unfold_locales (rule request_full_step)

section \<open>The first state\<close>

lemma initial_core_inv: "core_inv (initial_core h b)"
  by (simp add: core_inv_def traffic_inv_def channel_tracked_def initial_core_def
      request_buffer_new_def response_buffer_new_def request_buffer_inv_def
      response_buffer_inv_def dq_new_def queues_ordered_def replica_buffer_new_def)

lemma loop_start_inv: "loop_inv (loop_start (initial_core h b))"
  by (simp add: loop_inv_def loop_start_def initial_core_inv queue_tracked_def dq_new_def)

end
