(* ===== verification/Send_Race.thy ===== *)
theory Send_Race
  imports Core_Net
begin

text \<open>
  Two clones of one \<open>Core\<close> that call \<open>send_to_network\<close> at the same time
  (\<open>swarm-nl/src/core/mod.rs\<close>). The identifier is computed under its lock, but the lock is
  released before the request is tracked and the new identifier stored, so the two parts
  of the operation interleave.
\<close>

datatype caller =
    Wants app_data
  | Holds stream_id app_data
  | Returned "stream_id option"

record race =
  shared :: core
  left :: caller
  right :: caller

definition take_id :: "core \<Rightarrow> stream_id" where
  "take_id c = stream_id_next (current_stream_id c)"

inductive race_step :: "env \<Rightarrow> race \<Rightarrow> race \<Rightarrow> bool" for env where
  left_reads: "left r = Wants req \<Longrightarrow>
     race_step env r (r\<lparr>left := Holds (take_id (shared r)) req\<rparr>)"
| right_reads: "right r = Wants req \<Longrightarrow>
     race_step env r (r\<lparr>right := Holds (take_id (shared r)) req\<rparr>)"
| left_sends: "left r = Holds sid req \<Longrightarrow> send_with_id env sid req (shared r) = (c, res) \<Longrightarrow>
     race_step env r (r\<lparr>shared := c, left := Returned res\<rparr>)"
| right_sends: "right r = Holds sid req \<Longrightarrow> send_with_id env sid req (shared r) = (c, res) \<Longrightarrow>
     race_step env r (r\<lparr>shared := c, right := Returned res\<rparr>)"

text \<open>With no interleaving the two parts are the whole operation.\<close>

lemma send_in_two_steps:
  assumes "left r = Wants req"
  shows "(race_step env)\<^sup>*\<^sup>* r
     (r\<lparr>shared := fst (send_to_network env req (shared r)),
        left := Returned (snd (send_to_network env req (shared r)))\<rparr>)"
proof -
  let ?r1 = "r\<lparr>left := Holds (take_id (shared r)) req\<rparr>"
  have s1: "race_step env r ?r1" by (rule left_reads) (rule assms)
  have s2: "race_step env ?r1
      (?r1\<lparr>shared := fst (send_to_network env req (shared r)),
           left := Returned (snd (send_to_network env req (shared r)))\<rparr>)"
    by (rule left_sends) (simp_all add: send_to_network_def take_id_def)
  from s2 have "(race_step env)\<^sup>*\<^sup>* ?r1
      (r\<lparr>shared := fst (send_to_network env req (shared r)),
         left := Returned (snd (send_to_network env req (shared r)))\<rparr>)"
    by (intro r_into_rtranclp) simp
  with s1 show ?thesis by (rule converse_rtranclp_into_rtranclp)
qed

lemma race_both_send:
  assumes "left r = Wants a" "right r = Wants b" "chan_open env"
    and "\<not> untracked a" "\<not> untracked b"
    and "finite (req_buffer (request_buffer (shared r)))"
    and "card (req_buffer (request_buffer (shared r))) + 2 \<le> req_size (request_buffer (shared r))"
  shows "\<exists>r'. (race_step env)\<^sup>*\<^sup>* r r'
     \<and> left r' = Returned (Some (take_id (shared r)))
     \<and> right r' = Returned (Some (take_id (shared r)))
     \<and> app_channel (shared r') = app_channel (shared r)
          @ [FromApplication (take_id (shared r)) a, FromApplication (take_id (shared r)) b]"
proof -
  let ?sid = "take_id (shared r)"
  let ?r1 = "r\<lparr>left := Holds ?sid a\<rparr>"
  let ?r2 = "?r1\<lparr>right := Holds ?sid b\<rparr>"
  have "snd (send_with_id env ?sid a (shared r)) = Some ?sid"
    by (rule send_accepts) (use assms in auto)
  then obtain c1 where c1: "send_with_id env ?sid a (shared r) = (c1, Some ?sid)"
    by (metis prod.collapse)
  note f1 = send_with_id_Some [OF c1]
  have "card (req_buffer (request_buffer c1)) < req_size (request_buffer c1)"
    using f1 assms(6,7) by (simp add: card_insert_if)
  then have "snd (send_with_id env ?sid b c1) = Some ?sid"
    by (intro send_accepts) (use assms in auto)
  then obtain c2 where c2: "send_with_id env ?sid b c1 = (c2, Some ?sid)"
    by (metis prod.collapse)
  let ?r3 = "?r2\<lparr>shared := c1, left := Returned (Some ?sid)\<rparr>"
  let ?r4 = "?r3\<lparr>shared := c2, right := Returned (Some ?sid)\<rparr>"
  have s1: "race_step env r ?r1" by (rule left_reads) (rule assms)
  have s2: "race_step env ?r1 ?r2"
    using right_reads [of ?r1 b env] assms(2) by simp
  have s3: "race_step env ?r2 ?r3"
    using left_sends [of ?r2 ?sid a env c1 "Some ?sid"] c1 by simp
  have s4: "race_step env ?r3 ?r4"
    using right_sends [of ?r3 ?sid b env c2 "Some ?sid"] c2 by simp
  have "(race_step env)\<^sup>*\<^sup>* r ?r1" by (rule r_into_rtranclp) (rule s1)
  then have "(race_step env)\<^sup>*\<^sup>* r ?r2" by (rule rtranclp.rtrancl_into_rtrancl) (rule s2)
  then have "(race_step env)\<^sup>*\<^sup>* r ?r3" by (rule rtranclp.rtrancl_into_rtrancl) (rule s3)
  then have "(race_step env)\<^sup>*\<^sup>* r ?r4" by (rule rtranclp.rtrancl_into_rtrancl) (rule s4)
  moreover have "app_channel c2 = app_channel (shared r)
      @ [FromApplication ?sid a, FromApplication ?sid b]"
    using f1 send_with_id_Some [OF c2] by simp
  ultimately show ?thesis by (intro exI [of _ ?r4]) simp
qed

end
