(* ===== verification/Sample_Nodes.thy ===== *)
theory Sample_Nodes
  imports Node_Machine Send_Race
begin

text \<open>
  Concrete nodes, codecs and environments, at which the theorems are applied to show that
  their hypotheses can hold.
\<close>

definition sample_image :: "string \<rightharpoonup> string set" where
  "sample_image = [''s'' \<mapsto> {''p''}]"

definition sample_codecs :: codecs where
  "sample_codecs =
     \<lparr>peer_str = (\<lambda>p. case p of PeerId b \<Rightarrow> b),
      parse_peer = (\<lambda>s. if s = [] then None else Some (PeerId s)),
      base58_peer = (\<lambda>s. if s = [] then None else Some (PeerId s)),
      parse_addr = (\<lambda>s. if prefix ''/'' s then Some s else None),
      image_json = (\<lambda>m. if m = sample_image then Some ''J'' else None),
      json_image = (\<lambda>b. if b = ''J'' then Some sample_image else None)\<rparr>"

definition sample_keys :: key_ops where
  "sample_keys =
     \<lparr>generate_key = (\<lambda>t. Keypair t ''k''), from_protobuf_encoding = (\<lambda>b. Some (Keypair Ed25519 b)),
      to_protobuf_encoding = (\<lambda>k. if keypair_type k = Ed25519 then Some (keypair_bytes k) else None),
      rsa_from_pkcs8 = (\<lambda>b. Some (Keypair RSA b)), read_file = (\<lambda>_. None)\<rparr>"

definition sample_host :: host where
  "sample_host =
     \<lparr>tcp_ok = (\<lambda>_. True), dns_ok = True, protocols_ok = True, swarm_ok = (\<lambda>_. True),
      to_peer_id = (\<lambda>k. PeerId (keypair_bytes k))\<rparr>"

definition sample_builder :: "nat \<Rightarrow> core_builder" where
  "sample_builder n = with_stream_size n (with_config (bootstrap_new sample_keys))"

definition sample_core :: "nat \<Rightarrow> core" where
  "sample_core n = initial_core sample_host (sample_builder n)"

definition silent_env :: env where
  "silent_env = \<lparr>chan_open = True, arrivals = (\<lambda>_ _ _. []), clock = (\<lambda>_. 100), shuffled = (\<lambda>_. [])\<rparr>"

definition sample_swarm :: swarm where
  "sample_swarm =
     \<lparr>call_ok = (\<lambda>_. True), connected_peers = [], listeners = [], mesh_peers_of = (\<lambda>_. []),
      gossip_topics = [], gossip_peers = []\<rparr>"

lemmas sample_defs =
  sample_codecs_def sample_host_def sample_keys_def sample_builder_def sample_core_def
  silent_env_def sample_swarm_def

lemmas builder_defs =
  with_stream_size_def with_config_def bootstrap_new_def initial_core_def initial_info_def
  request_buffer_new_def response_buffer_new_def stream_id_new_def

lemma sample_core_simps [simp]:
  "core_peer (sample_core n) = PeerId ''k''"
  "app_channel (sample_core n) = []"
  "request_buffer (sample_core n) = \<lparr>req_size = n, req_buffer = {}\<rparr>"
  "response_buffer (sample_core n) = \<lparr>resp_size = n, resp_buffer = []\<rparr>"
  "current_stream_id (sample_core n) = StreamId 0"
  "event_queue (sample_core n) = []"
  "replica_buffer (sample_core n) = replica_buffer_new ReplDefault"
  "tasks (sample_core n) = []"
  "replication (network_info (sample_core n)) = Map.empty"
  "shard_view (sample_core n) = Map.empty"
  "net_id (network_info (sample_core n)) = DEFAULT_NETWORK_ID"
  by (simp_all add: sample_core_def sample_builder_def sample_host_def sample_keys_def builder_defs
      dq_new_def no_sharding_def shard_view_def)

lemma silent_env_simps [simp]:
  "chan_open silent_env" "arrivals silent_env sid req n = []" "clock silent_env n = 100"
  by (simp_all add: silent_env_def)

end
