(* ===== verification/Traffic_Props.thy ===== *)
theory Traffic_Props
  imports Sample_Nodes
begin

text \<open>
  What the traffic between the application and the network task guarantees
  (\<open>swarm-nl/src/core/mod.rs\<close> and \<open>core/prelude.rs\<close>): identifiers, buffers, time-outs and
  the matching of responses to requests.
\<close>

section \<open>Queues and identifiers\<close>

text \<open>A \<open>DataQueue\<close> holds exactly the newest 300 of the items pushed, in their order.\<close>

theorem data_queue_keeps_newest:
  "foldl (\<lambda>q x. dq_push x q) dq_new xs = drop (length xs - MAX_QUEUE_ELEMENTS) xs"
  using data_queue.push_all_items [of dq_new xs]
  by (simp add: data_queue.push_all_def dq_into_inner_def dq_new_def)

lemma iterate_next: "(stream_id_next ^^ k) (StreamId n) = StreamId (n + of_nat k)"
  by (induction k) (simp_all add: algebra_simps)

lemma iterate_next_inj:
  assumes "(stream_id_next ^^ Suc i) s = (stream_id_next ^^ Suc j) s" "i < 2 ^ 32" "j < 2 ^ 32"
  shows "i = j"
proof -
  obtain n where "s = StreamId n" by (cases s)
  with assms(1) have "(of_nat i :: u32) = of_nat j" by (simp add: iterate_next)
  then have "unat (of_nat i :: u32) = unat (of_nat j :: u32)" by simp
  with assms(2,3) show ?thesis by (simp add: unat_of_nat)
qed

text \<open>C19: Requests sent one after the other get one identifier each, all different,
  as long as the request buffer has room and fewer than \<open>2^32\<close> are sent.\<close>

theorem sequential_ids_distinct:
  assumes "chan_open env" "list_all (\<lambda>r. \<not> untracked r) rs"
    and "finite (req_buffer (request_buffer c))"
    and "card (req_buffer (request_buffer c)) + length rs \<le> req_size (request_buffer c)"
    and "length rs \<le> 2 ^ 32"
  shows "None \<notin> set (snd (send_all env rs c)) \<and> distinct (snd (send_all env rs c))
     \<and> length (snd (send_all env rs c)) = length rs"
proof -
  have "inj_on (\<lambda>k. Some ((stream_id_next ^^ Suc k) (current_stream_id c))) {0..<length rs}"
    using iterate_next_inj assms(5) by (intro inj_onI) (auto simp del: funpow.simps)
  then show ?thesis
    by (simp add: send_all_ids [OF assms(1-4)] distinct_map del: funpow.simps) auto
qed

theorem sequential_ids_distinct_witness:
  "distinct (snd (send_all silent_env [Echo ''a'', Echo ''b''] (sample_core 5)))"
  using sequential_ids_distinct [of silent_env "[Echo ''a'', Echo ''b'']" "sample_core 5"] by simp

text \<open>C17: Two clones that send at the same time can be given the same identifier for two
  different requests.\<close>

theorem concurrent_sends_share_id:
  assumes "left r = Wants a" "right r = Wants b" "chan_open env"
    and "\<not> untracked a" "\<not> untracked b"
    and "finite (req_buffer (request_buffer (shared r)))"
    and "card (req_buffer (request_buffer (shared r))) + 2 \<le> req_size (request_buffer (shared r))"
  shows "\<exists>r' sid. (race_step env)\<^sup>*\<^sup>* r r'
     \<and> left r' = Returned (Some sid) \<and> right r' = Returned (Some sid)
     \<and> {FromApplication sid a, FromApplication sid b} \<subseteq> set (app_channel (shared r'))"
  using race_both_send [OF assms] by fastforce

theorem concurrent_sends_share_id_witness:
  "\<exists>r' sid. (race_step silent_env)\<^sup>*\<^sup>*
        \<lparr>shared = sample_core 5, left = Wants (Echo ''a''), right = Wants (Echo ''b'')\<rparr> r'
     \<and> left r' = Returned (Some sid) \<and> right r' = Returned (Some sid)"
  using concurrent_sends_share_id
    [of "\<lparr>shared = sample_core 5, left = Wants (Echo ''a''), right = Wants (Echo ''b'')\<rparr>"
        "Echo ''a''" "Echo ''b''" silent_env] by auto

section \<open>The request buffer\<close>

text \<open>C16: Nothing ever leaves the request buffer: once it is full, in every later state of the
  node every tracked request is refused with \<open>StreamBufferOverflow\<close>.\<close>

theorem full_buffer_refuses_for_ever:
  assumes "request_full (Running ls)" "(node_step cd)\<^sup>*\<^sup>* (Running ls) (Running ls')"
    and "\<not> untracked req"
  shows "query_network env req (node ls') = (node ls', Inl StreamBufferOverflow)"
proof -
  have "request_full (Running ls')" using node_leak.inv_steps assms by blast
  then have "send_to_network env req (node ls') = (node ls', None)"
    unfolding send_to_network_def by (intro send_full) (use assms in \<open>auto simp: request_full_def\<close>)
  then show ?thesis by (simp add: query_network_def)
qed

definition full_sample :: loop_state where
  "full_sample = (loop_start (sample_core 1))
     \<lparr>node := fst (send_to_network silent_env (Echo ''a'') (sample_core 1))\<rparr>"

lemma loop_start_node [simp]: "node (loop_start c) = c" "out_channel (loop_start c) = []"
  by (simp_all add: loop_start_def)

lemma full_sample_full: "request_full (Running full_sample)"
proof -
  have "loop_inv full_sample"
    unfolding full_sample_def
    by (rule loop_inv_evolves)
      (simp_all add: loop_start_inv sample_core_def evolves_send_id send_to_network_def
        loop_start_node)
  moreover have "req_size (request_buffer (node full_sample)) \<le>
      card (req_buffer (request_buffer (node full_sample)))"
    by (simp add: full_sample_def send_to_network_def send_with_id_def request_insert_def
        channel_send_def Let_def)
  ultimately show ?thesis by (simp add: request_full_def)
qed

theorem full_buffer_refuses_for_ever_witness:
  "snd (query_network silent_env GetNetworkInfo
     (node (receive_request sample_codecs sample_swarm full_sample))) = Inl StreamBufferOverflow"
proof -
  have "(node_step sample_codecs)\<^sup>*\<^sup>* (Running full_sample)
      (Running (receive_request sample_codecs sample_swarm full_sample))"
    by (rule r_into_rtranclp) (rule step_request)
  from full_buffer_refuses_for_ever [OF full_sample_full this, of GetNetworkInfo silent_env]
  show ?thesis by simp
qed

text \<open>A query that is not tracked (deleting a record, stopping to provide) is handed to the
  network task and still reported as \<open>StreamBufferOverflow\<close>.\<close>

theorem untracked_query_reports_overflow:
  assumes "untracked req" "chan_open env"
  shows "snd (query_network env req c) = Inl StreamBufferOverflow
     \<and> app_channel (fst (query_network env req c))
        = app_channel c @ [FromApplication (take_id c) req]"
  using assms
  by (simp add: query_network_def send_to_network_def send_untracked channel_send_def take_id_def)

theorem untracked_query_reports_overflow_witness:
  "snd (query_network silent_env (KademliaDeleteRecord ''k'') (sample_core 5))
     = Inl StreamBufferOverflow"
  using untracked_query_reports_overflow [of "KademliaDeleteRecord ''k''" silent_env "sample_core 5"]
  by simp

section \<open>Waiting for a response\<close>

text \<open>C29: If no response for the identifier comes, \<open>recv_from_network\<close> gives up with
  \<open>NetworkReadTimeout\<close> after sleeping exactly \<open>NETWORK_READ_TIMEOUT\<close> seconds.\<close>

theorem unanswered_request_times_out:
  assumes "map_of (resp_buffer (response_buffer c)) sid = None"
    and "\<forall>k \<le> 10. list_all (\<lambda>m. \<not> about sid m) (arr k)"
  shows "snd (recv_loop arr sid 0 c) = (NETWORK_READ_TIMEOUT, Inl NetworkReadTimeout)"
  using recv_loop_timeout [of 0 c sid arr] assms
  by (simp add: NETWORK_READ_TIMEOUT_def TASK_SLEEP_DURATION_def)

theorem unanswered_request_times_out_witness:
  "snd (recv_loop (\<lambda>_. [ToApplication (StreamId 2) KademliaNoProvidersFound]) (StreamId 1) 0
     (sample_core 5)) = (NETWORK_READ_TIMEOUT, Inl NetworkReadTimeout)"
  using unanswered_request_times_out
    [of "sample_core 5" "StreamId 1" "\<lambda>_. [ToApplication (StreamId 2) KademliaNoProvidersFound]"]
  by simp

lemma recv_loop_late:
  assumes "n \<le> k" "k \<le> 10" "map_of (resp_buffer (response_buffer c)) sid = None"
    and "\<forall>j. n \<le> j \<longrightarrow> j < k \<longrightarrow> arr j = []" "arr k = [ToApplication sid r]"
    and "length (resp_buffer (response_buffer c)) < resp_size (response_buffer c)"
  shows "snd (recv_loop arr sid n c) = ((k - n) * TASK_SLEEP_DURATION, response_result r)"
  using assms
proof (induction "k - n" arbitrary: n)
  case 0
  then have "n = k" by simp
  with 0 have "snd (recv_loop arr sid n c) = (0, response_result r)"
    by (intro recv_loop_found) (simp add: handle_response_slot)
  with \<open>n = k\<close> show ?case by simp
next
  case (Suc m)
  then have n: "n < k" "arr n = []" by auto
  have "snd (recv_loop arr sid (n + 1) c) = ((k - (n + 1)) * TASK_SLEEP_DURATION, response_result r)"
    by (rule Suc.hyps(1)) (use Suc.hyps(2) Suc.prems n in auto)
  moreover have "response_remove sid (response_buffer c) = (response_buffer c, None)"
    by (rule response_remove_None) (rule Suc.prems)
  moreover have "k - n = Suc (k - (n + 1))" using n by simp
  ultimately show ?case
    using n Suc.prems(2)
    by (subst recv_loop.simps) (auto simp: Let_def case_prod_beta)
qed

text \<open>A response that is filed before look number \<open>k\<close> of the at most eleven looks is
  what \<open>recv_from_network\<close> returns, after \<open>k\<close> pauses of three seconds.\<close>

theorem response_in_time_is_returned:
  assumes "k \<le> 10" "map_of (resp_buffer (response_buffer c)) sid = None"
    and "\<forall>j < k. arr j = []" "arr k = [ToApplication sid r]"
    and "length (resp_buffer (response_buffer c)) < resp_size (response_buffer c)"
  shows "snd (recv_loop arr sid 0 c) = (k * TASK_SLEEP_DURATION, response_result r)
     \<and> snd (recv_from_network arr sid c) = response_result r"
  using recv_loop_late [of 0 k c sid arr r] assms
  by (simp add: recv_from_network_def case_prod_beta)

theorem response_in_time_is_returned_witness:
  "snd (recv_from_network (\<lambda>n. if n = 2 then [ToApplication (StreamId 1) (Echo_Resp ''x'')] else [])
     (StreamId 1) (sample_core 5)) = Inr (Echo_Resp ''x'')"
  using response_in_time_is_returned [of 2 "sample_core 5" "StreamId 1"
      "\<lambda>n. if n = 2 then [ToApplication (StreamId 1) (Echo_Resp ''x'')] else []" "Echo_Resp ''x''"]
  by (simp add: response_result_def)

text \<open>While the response buffer is full, a response that arrives is dropped and its
  request times out.\<close>

theorem full_response_buffer_drops_answers:
  assumes "resp_size (response_buffer c) \<le> length (resp_buffer (response_buffer c))"
    and "map_of (resp_buffer (response_buffer c)) sid = None"
  shows "snd (recv_from_network (\<lambda>n. if n = 0 then [ToApplication sid r] else []) sid c)
     = Inl NetworkReadTimeout"
proof -
  let ?arr = "\<lambda>n :: nat. if n = 0 then [ToApplication sid r] else []"
  have drop: "handle_network_response (ToApplication sid r) c = c"
    using assms(1) by (simp add: handle_network_response_def response_insert_def)
  have none: "response_remove sid (response_buffer c) = (response_buffer c, None)"
    by (rule response_remove_None) (rule assms(2))
  have "snd (recv_loop ?arr sid 1 c) = ((10 - 1) * TASK_SLEEP_DURATION, Inl NetworkReadTimeout)"
    by (rule recv_loop_timeout) (use assms in auto)
  then show ?thesis
    unfolding recv_from_network_def
    by (subst recv_loop.simps) (simp add: drop none Let_def case_prod_beta)
qed

theorem full_response_buffer_drops_answers_witness:
  "snd (recv_from_network (\<lambda>n. if n = 0 then [ToApplication (StreamId 1) (Echo_Resp ''x'')] else [])
     (StreamId 1) (sample_core 0)) = Inl NetworkReadTimeout"
  using full_response_buffer_drops_answers [of "sample_core 0" "StreamId 1"] by simp

section \<open>Requests and their answers\<close>

lemma send_to_network_accepted:
  assumes "chan_open env" "\<not> untracked req"
    and "card (req_buffer (request_buffer c)) < req_size (request_buffer c)"
  obtains c1 where "send_to_network env req c = (c1, Some (take_id c))"
    "app_channel c1 = app_channel c @ [FromApplication (take_id c) req]"
    "response_buffer c1 = response_buffer c"
proof -
  have "snd (send_with_id env (take_id c) req c) = Some (take_id c)"
    by (rule send_accepts) (use assms in auto)
  then obtain c1 where c1: "send_with_id env (take_id c) req c = (c1, Some (take_id c))"
    by (metis prod.collapse)
  with send_with_id_Some [OF c1] that show ?thesis by (simp add: send_to_network_def take_id_def)
qed

text \<open>
  The answer a request gets while it is served; \<open>None\<close> for a request whose answer an event
  of the swarm brings, and for one that gets none.
\<close>

fun immediate_answer :: "codecs \<Rightarrow> swarm \<Rightarrow> core \<Rightarrow> blacklist_rec \<Rightarrow> app_data \<Rightarrow> app_response option" where
  "immediate_answer cd sw c bl (Echo message) = Some (Echo_Resp message)"
| "immediate_answer cd sw c bl (DailPeer peer addr) =
     map_option (\<lambda>a. if call_ok sw (SwarmDial a (Some peer)) then DailPeerSuccess a
                     else Error_Resp DailPeerError) (parse_addr cd addr)"
| "immediate_answer cd sw c bl (KademliaStoreRecord key value expires peers) =
     (if call_ok sw (KadPutRecord key value expires) then None
      else Some (Error_Resp (KadStoreRecordError key)))"
| "immediate_answer cd sw c bl KademliaGetRoutingTableInfo =
     Some (KademliaGetRoutingTableInfo_Resp (net_id (network_info c)))"
| "immediate_answer cd sw c bl GetNetworkInfo = Some (network_info_response sw c)"
| "immediate_answer cd sw c bl (GossipsubBroadcastMessage topic message) =
     Some (if call_ok sw (GossipPublish topic (join_with GOSSIP_MESSAGE_SEPARATOR message))
              \<and> core_peer c \<notin> set (mesh_peers_of sw topic)
           then GossipsubBroadcastSuccess else Error_Resp GossipsubBroadcastMessageError)"
| "immediate_answer cd sw c bl (GossipsubJoinNetwork topic) =
     Some (if call_ok sw (GossipSubscribe topic) then GossipsubJoinSuccess
           else Error_Resp GossipsubJoinNetworkError)"
| "immediate_answer cd sw c bl GossipsubGetInfo = Some (gossip_info_response sw bl)"
| "immediate_answer cd sw c bl (GossipsubExitNetwork topic) =
     Some (if call_ok sw (GossipUnsubscribe topic) then GossipsubExitSuccess
           else Error_Resp GossipsubJoinNetworkError)"
| "immediate_answer cd sw c bl (GossipsubBlacklistPeer peer) = Some GossipsubBlacklistSuccess"
| "immediate_answer cd sw c bl (GossipsubFilterBlacklist peer) = Some GossipsubBlacklistSuccess"
| "immediate_answer cd sw c bl _ = None"

lemma served_at_once:
  assumes "immediate_answer cd sw (node ls) (loop_blacklist ls) req = Some r"
  shows "out_channel (handle_app_data cd sw sid req ls) = out_channel ls @ [ToApplication sid r]
     \<and> node (handle_app_data cd sw sid req ls) = node ls"
  using assms
  by (cases req) (auto simp: respond_def make_call_def handle_dial_def handle_store_record_def
      handle_broadcast_def handle_join_def handle_exit_def handle_blacklist_def
      handle_filter_blacklist_def network_info_response_def Let_def split: if_splits option.splits)

lemma immediate_answer_same_node:
  assumes "core_peer c1 = core_peer c" "network_info c1 = network_info c"
  shows "immediate_answer cd sw c1 bl req = immediate_answer cd sw c bl req"
  using assms by (cases req) (simp_all add: network_info_response_def)

text \<open>C2: A request that the network task answers at once travels the whole way: sent on the
  channel, served, its response filed, and read back under the identifier it was given. Nothing
  else is on the channels, and both buffers have room.\<close>

theorem request_round_trip:
  assumes "chan_open env" "app_channel (node ls) = []" "out_channel ls = []"
    and "card (req_buffer (request_buffer (node ls))) < req_size (request_buffer (node ls))"
    and "length (resp_buffer (response_buffer (node ls))) < resp_size (response_buffer (node ls))"
    and "immediate_answer cd sw (node ls) (loop_blacklist ls) req = Some r"
  shows "\<exists>c1 sid ls2. send_to_network env req (node ls) = (c1, Some sid)
     \<and> receive_request cd sw (ls\<lparr>node := c1\<rparr>) = ls2
     \<and> out_channel ls2 = [ToApplication sid r]
     \<and> snd (recv_from_network (\<lambda>_. []) sid
             (handle_network_response (hd (out_channel ls2)) (node ls2))) = response_result r"
proof -
  have "\<not> untracked req" using assms(6) by (cases req) auto
  then obtain c1 where c1: "send_to_network env req (node ls) = (c1, Some (take_id (node ls)))"
    "app_channel c1 = [FromApplication (take_id (node ls)) req]"
    "response_buffer c1 = response_buffer (node ls)"
    using send_to_network_accepted [OF assms(1) _ assms(4)] assms(2) by (metis append_Nil)
  let ?sid = "take_id (node ls)" and ?ls2 = "receive_request cd sw (ls\<lparr>node := c1\<rparr>)"
  let ?ls1 = "ls\<lparr>node := c1\<lparr>app_channel := []\<rparr>\<rparr>"
  have "same_node (node ls) c1" using c1(1) same_node_send [of "node ls" env req] by simp
  then have "immediate_answer cd sw (node ?ls1) (loop_blacklist ?ls1) req = Some r"
    using assms(6) by (subst immediate_answer_same_node [of _ "node ls"]) (auto simp: same_node_def)
  from served_at_once [OF this] have ls2: "out_channel ?ls2 = [ToApplication ?sid r]"
    "node ?ls2 = c1\<lparr>app_channel := []\<rparr>"
    using c1 assms(3) by (simp_all add: receive_request_def update_node_def)
  let ?c3 = "handle_network_response (ToApplication ?sid r) (node ?ls2)"
  have "map_of (resp_buffer (response_buffer ?c3)) ?sid = Some (response_result r)"
    by (rule handle_response_slot) (use ls2 c1 assms(5) in simp)
  then have "snd (recv_loop (\<lambda>_. []) ?sid 0 ?c3) = (0, response_result r)"
    by (intro recv_loop_found) simp
  then have "snd (recv_from_network (\<lambda>_. []) ?sid ?c3) = response_result r"
    by (simp add: recv_from_network_def case_prod_beta)
  with c1 ls2 show ?thesis by (intro exI [of _ c1] exI [of _ ?sid] exI [of _ ?ls2]) simp
qed

theorem request_round_trip_witness:
  "\<exists>c1 sid ls2. send_to_network silent_env (Echo ''hi'') (sample_core 5) = (c1, Some sid)
     \<and> receive_request sample_codecs sample_swarm ((loop_start (sample_core 5))\<lparr>node := c1\<rparr>) = ls2
     \<and> out_channel ls2 = [ToApplication sid (Echo_Resp ''hi'')]
     \<and> snd (recv_from_network (\<lambda>_. []) sid
             (handle_network_response (hd (out_channel ls2)) (node ls2))) = Inr (Echo_Resp ''hi'')"
proof -
  have answer: "response_result (Echo_Resp ''hi'') = Inr (Echo_Resp ''hi'')"
    by (simp add: response_result_def)
  show ?thesis
    using request_round_trip [of silent_env "loop_start (sample_core 5)" sample_codecs sample_swarm
      "Echo ''hi''" "Echo_Resp ''hi''"] unfolding answer by simp
qed

text \<open>Responses to RPCs are matched by the order in which they arrive: with two requests out,
  the answer to the second one, if it comes first, is filed under the first.\<close>

theorem rpc_answers_can_cross:
  assumes "data_queue_4 ls = []"
    and "handle_swarm_event cd now (Rpc_Response answer_of_b)
           (handle_send_rpc s2 k2 b (handle_send_rpc s1 k1 a ls)) = Some ls'"
  shows "out_channel ls' = out_channel ls @ [ToApplication s1 (SendRpc_Resp answer_of_b)]
     \<and> data_queue_4 ls' = [s2]"
  using assms
  by (auto simp: handle_swarm_event_def handle_send_rpc_def answer_4_def dq_push_def dq_pop_def
      MAX_QUEUE_ELEMENTS_def make_call_def respond_def Let_def)

theorem rpc_answers_can_cross_witness:
  "out_channel (the (handle_swarm_event sample_codecs 0 (Rpc_Response [''from b''])
       (handle_send_rpc (StreamId 2) [] (PeerId ''b'')
         (handle_send_rpc (StreamId 1) [] (PeerId ''a'') (loop_start (sample_core 5))))))
     = [ToApplication (StreamId 1) (SendRpc_Resp [''from b''])]"
  using rpc_answers_can_cross [of "loop_start (sample_core 5)" sample_codecs 0 "[''from b'']"
      "StreamId 2" "[]" "PeerId ''b''" "StreamId 1" "[]" "PeerId ''a''"]
  by (simp add: loop_start_def dq_new_def handle_swarm_event_def)

text \<open>A provider query that reports its providers and then that it is finished consumes two
  identifiers: the next query in the queue is told that there are no providers.\<close>

theorem provider_query_answers_twice:
  assumes "data_queue_3 ls = [s1, s2]"
  shows "out_channel (handle_kad cd Finished_With_No_Additional_Record
            (handle_kad cd (Found_Providers key ps) ls))
     = out_channel ls @ [ToApplication s1 (KademliaGetProviders_Resp key (map (peer_str cd) ps)),
                         ToApplication s2 KademliaNoProvidersFound]"
  using assms by (simp add: answer_3_def dq_pop_def respond_def)

theorem provider_query_answers_twice_witness:
  "out_channel (handle_kad sample_codecs Finished_With_No_Additional_Record
      (handle_kad sample_codecs (Found_Providers ''k'' [PeerId ''p''])
        (handle_get_providers (StreamId 2) ''other''
          (handle_get_providers (StreamId 1) ''k'' (loop_start (sample_core 5))))))
     = [ToApplication (StreamId 1) (KademliaGetProviders_Resp ''k'' [''p'']),
        ToApplication (StreamId 2) KademliaNoProvidersFound]"
  using provider_query_answers_twice [of "handle_get_providers (StreamId 2) ''other''
      (handle_get_providers (StreamId 1) ''k'' (loop_start (sample_core 5)))" "StreamId 1" "StreamId 2"
      sample_codecs "''k''" "[PeerId ''p'']"]
  by (simp add: handle_get_providers_def loop_start_def dq_new_def dq_push_def make_call_def
      MAX_QUEUE_ELEMENTS_def sample_codecs_def Let_def)

end
