(* ===== verification/Repl_Props.thy ===== *)
theory Repl_Props
  imports Sample_Nodes
begin

text \<open>
  What replication guarantees (\<open>swarm-nl/src/core/replication.rs\<close> and its driver in
  \<open>swarm-nl/src/core/mod.rs\<close>): the buffers, the Lamport clocks, the confirmations of
  strong consistency and the synchronisation of eventual consistency.
\<close>

section \<open>Sample data\<close>

definition sample_msg :: "u64 \<Rightarrow> string \<Rightarrow> repl_buffer_data" where
  "sample_msg clk mid =
     \<lparr>rdata = [''x''], lamport_clock = clk, outgoing_timestamp = 90, incoming_timestamp = 95,
      message_id = mid, sender = PeerId ''p'', confirmations = None\<rparr>"

definition sample_buffer :: "repl_network_config \<Rightarrow> repl_set \<Rightarrow> replica_buffer_queue" where
  "sample_buffer cfg q =
     \<lparr>config = cfg, temporary_queue = [''net'' \<mapsto> []], queue = [''net'' \<mapsto> q]\<rparr>"

definition sample_repl :: "repl_network_config \<Rightarrow> repl_set \<Rightarrow> core" where
  "sample_repl cfg q =
     set_replication [''net'' \<mapsto> \<lparr>cfg_clock = 3, last_clock = 0, cfg_nodes = Map.empty\<rparr>]
       (set_buffer (sample_buffer cfg q) (sample_core 5))"

lemma sample_repl_simps [simp]:
  "replica_buffer (sample_repl cfg q) = sample_buffer cfg q"
  "queue (sample_buffer cfg q) = [''net'' \<mapsto> q]"
  "config (sample_buffer cfg q) = cfg"
  "repl_cfg (sample_repl cfg q) ''net'' = Some \<lparr>cfg_clock = 3, last_clock = 0, cfg_nodes = Map.empty\<rparr>"
  "request_buffer (sample_repl cfg q) = \<lparr>req_size = 5, req_buffer = {}\<rparr>"
  "response_buffer (sample_repl cfg q) = \<lparr>resp_size = 5, resp_buffer = []\<rparr>"
  "current_stream_id (sample_repl cfg q) = StreamId 0"
  "app_channel (sample_repl cfg q) = []"
  "core_peer (sample_repl cfg q) = PeerId ''k''"
  by (simp_all add: sample_repl_def sample_buffer_def repl_cfg_def set_replication_def set_buffer_def)

lemma sample_buffer_ordered [simp]: "queues_ordered (sample_buffer cfg q) = rset_wf q"
  by (simp add: queues_ordered_def sample_buffer_def)

lemma sample_msg_simps [simp]:
  "lamport_clock (sample_msg clk mid) = clk" "message_id (sample_msg clk mid) = mid"
  "repl_key (sample_msg clk mid) = ReplKey clk mid"
  "rset_wf [sample_msg clk mid]"
  by (simp_all add: sample_msg_def repl_key_def rset_wf_def)

section \<open>The public queue\<close>

lemma rset_insert_keeps: "rset_wf q \<Longrightarrow> x \<in> set q \<Longrightarrow> x \<in> set (rset_insert d q)"
  using set_bset_insert_mono [of q repl_key d] by (auto simp: rset_insert_def)

text \<open>C10: Pushing under eventual consistency (or the default configuration) with a capacity above
  0 always ends. The queue stays in the order of (clock, message id) and within its capacity,
  the new data is in it, and what was dropped had expired or was below all that was kept.\<close>

theorem push_keeps_order_and_capacity:
  assumes "consistency_model (replica_buffer c) = Eventual" "queues_ordered (replica_buffer c)"
    and "push_limits (config (replica_buffer c)) = (cap, expiry)" "0 < cap"
  shows "\<exists>c' q. repl_push env rn d c = Some c'
     \<and> queue (replica_buffer c') rn = Some q \<and> rset_wf q \<and> length q \<le> unat cap
     \<and> repl_key d \<in> rset_keys q \<and> set q \<subseteq> insert d (set (public_queue c rn))
     \<and> (\<forall>x \<in> set (public_queue c rn) - set q.
          (\<exists>e j. expiry = Some e \<and> expired e (clock env j) x)
          \<or> (\<forall>y \<in> set q - {d}. repl_key x < repl_key y))"
proof -
  let ?old = "public_queue c rn"
  have wf: "rset_wf ?old" using assms(2) by (simp add: public_queue_def or_default_ordered)
  obtain r where r: "evict_loop cap expiry (clock env) 0 ?old = Some r" "rset_wf r"
    "\<forall>x \<in> set ?old - set r. dropped_ok expiry (clock env) r x"
    using evict_loop_total [OF assms(4) wf, of expiry "clock env" 0] by blast
  then have push: "push_queue cap expiry (clock env) d ?old = Some (rset_insert d r)"
    by (simp add: push_queue_def)
  have sub: "set (rset_insert d r) \<subseteq> insert d (set r)"
    by (simp add: rset_insert_def set_bset_insert)
  let ?c' = "set_buffer ((replica_buffer c)\<lparr>queue := (queue (replica_buffer c))(rn \<mapsto> rset_insert d r)\<rparr>) c"
  have "repl_push env rn d c = Some ?c'"
    using assms push by (simp add: repl_push_def push_public_def public_queue_def)
  moreover have "queue (replica_buffer ?c') rn = Some (rset_insert d r)" by simp
  moreover have "\<forall>x \<in> set ?old - set (rset_insert d r).
      (\<exists>e j. expiry = Some e \<and> expired e (clock env j) x)
      \<or> (\<forall>y \<in> set (rset_insert d r) - {d}. repl_key x < repl_key y)"
    using r(2,3) sub rset_insert_keeps unfolding dropped_ok_def by blast
  ultimately show ?thesis
    using push_queue_total [OF assms(4) wf, of expiry "clock env" d] push by auto
qed

theorem push_keeps_order_and_capacity_witness:
  "\<exists>c' q. repl_push silent_env ''net'' (sample_msg 7 ''m'') (sample_repl ReplDefault []) = Some c'
     \<and> queue (replica_buffer c') ''net'' = Some q \<and> length q \<le> 150"
  using push_keeps_order_and_capacity [of "sample_repl ReplDefault []" 150 "Some 60" silent_env
      "''net''" "sample_msg 7 ''m''"]
  by (simp add: consistency_model_def push_limits_def MAX_CAPACITY_def EXPIRY_TIME_def) blast

text \<open>With a queue length of 0 the loop of \<open>push\<close> never ends.\<close>

theorem push_zero_capacity_diverges:
  assumes "consistency_model (replica_buffer c) = Eventual"
    and "fst (push_limits (config (replica_buffer c))) = 0"
  shows "repl_push env rn d c = None"
  using assms
  by (auto simp: repl_push_def push_public_def push_queue_def evict_loop_zero split: prod.splits)

theorem push_zero_capacity_diverges_witness:
  "repl_push silent_env ''net'' (sample_msg 7 ''m'')
     (sample_repl (ReplCustom 0 None 5 Eventual 5) []) = None"
  using push_zero_capacity_diverges [of "sample_repl (ReplCustom 0 None 5 Eventual 5) []"]
  by (simp add: consistency_model_def push_limits_def)

text \<open>Consuming takes the element with the least (clock, message id) and no other, and records
  its clock as the last one consumed.\<close>

theorem consume_takes_least:
  assumes "queues_ordered (replica_buffer c)" "queue (replica_buffer c) rn = Some q" "q \<noteq> []"
  shows "\<exists>d c' q'. consume_repl_data rn c = (c', Some d) \<and> d \<in> set q
     \<and> (\<forall>x \<in> set q. repl_key d \<le> repl_key x)
     \<and> queue (replica_buffer c') rn = Some q' \<and> set q' = set q - {d} \<and> rset_wf q'
     \<and> map_option last_clock (repl_cfg c' rn) = Some (lamport_clock d)"
proof -
  obtain d q' where q: "q = d # q'" using assms(3) by (cases q) auto
  have wf: "rset_wf (d # q')" using assms(1,2) q by (auto simp: queues_ordered_def)
  have "rset_remove d (d # q') = q'" by (simp add: rset_remove_def)
  moreover have "\<forall>x \<in> set q. repl_key d \<le> repl_key x" using wf q by (auto simp: rset_wf_def)
  moreover have "set q' = set q - {d}" using wf q by (auto simp: rset_wf_def)
  moreover have "rset_wf q'" using wf by (simp add: rset_wf_def)
  moreover obtain c' where "consume_repl_data rn c = (c', Some d)"
    "queue (replica_buffer c') rn = Some q'"
    "map_option last_clock (repl_cfg c' rn) = Some (lamport_clock d)"
    using assms(2) q calculation(1)
    by (simp add: consume_repl_data_def pop_front_queue_def Let_def repl_cfg_def)
  ultimately show ?thesis using q by (metis list.set_intros(1))
qed

theorem consume_takes_least_witness:
  "\<exists>c'. consume_repl_data ''net'' (sample_repl ReplDefault [sample_msg 7 ''m'']) = (c', Some (sample_msg 7 ''m''))"
  using consume_takes_least [of "sample_repl ReplDefault [sample_msg 7 ''m'']" "''net''" "[sample_msg 7 ''m'']"]
  by auto

section \<open>Lamport clocks\<close>

lemma info_push_strong [simp]: "network_info (push_strong env cm rn d c) = network_info c"
  by (simp add: push_strong_def Let_def case_prod_beta)

lemma info_repl_push: "repl_push env rn d c = Some c' \<Longrightarrow> network_info c' = network_info c"
  by (auto simp: repl_push_def split: consistency_model.splits)

lemma bump_clock_above:
  "cfg_clock (bump_clock n cfg) = - 1
     \<or> cfg_clock cfg < cfg_clock (bump_clock n cfg) \<and> n < cfg_clock (bump_clock n cfg)"
proof (cases "max (cfg_clock cfg) n = - 1")
  case True
  then show ?thesis by (simp add: bump_clock_def saturating_add_def)
next
  case False
  then have "max (cfg_clock cfg) n < saturating_add (max (cfg_clock cfg) n) 1"
    by (rule saturating_add_1_gt)
  then show ?thesis by (simp add: bump_clock_def)
qed

text \<open>Receiving data moves the clock of its network past both the local clock and the clock of
  the data, unless the clock is saturated, and logs the event.\<close>

theorem receiving_advances_clock:
  assumes "handle_incoming_repl_data env rn d c = Some c'" "repl_cfg c rn = Some cfg"
  shows "\<exists>cfg'. repl_cfg c' rn = Some cfg' \<and> last_clock cfg' = last_clock cfg
     \<and> (cfg_clock cfg' = - 1
        \<or> cfg_clock cfg < cfg_clock cfg' \<and> lamport_clock d < cfg_clock cfg')"
proof -
  have "network_info c' = network_info (set_replication
      ((replication (network_info c))(rn \<mapsto> bump_clock (lamport_clock d) cfg)) c)"
    using assms info_repl_push
    by (fastforce simp: handle_incoming_repl_data_def Let_def repl_cfg_def set_replication_def
        push_event_def)
  then have "repl_cfg c' rn = Some (bump_clock (lamport_clock d) cfg)"
    by (simp add: repl_cfg_def)
  then show ?thesis using bump_clock_above by (simp add: bump_clock_def)
qed

theorem receiving_advances_clock_witness:
  "\<exists>c' cfg'. handle_incoming_repl_data silent_env ''net'' (sample_msg 7 ''m'')
       (sample_repl ReplDefault []) = Some c'
     \<and> repl_cfg c' ''net'' = Some cfg' \<and> (cfg_clock cfg' = - 1 \<or> 7 < cfg_clock cfg')"
proof -
  let ?c = "sample_repl ReplDefault []"
  obtain c' where c': "handle_incoming_repl_data silent_env ''net'' (sample_msg 7 ''m'') ?c = Some c'"
    by (simp add: handle_incoming_repl_data_def repl_cfg_def sample_repl_def repl_push_def
        push_public_def push_limits_def push_queue_def evict_loop_room full_def or_default_def
        consistency_model_def sample_buffer_def MAX_CAPACITY_def push_event_def set_buffer_def
        set_replication_def Let_def)
  from receiving_advances_clock [OF c'] show ?thesis by (intro exI [of _ c']) (auto simp: c')
qed

lemma channel_remove [simp]: "app_channel (handle_network_response m c) = app_channel c"
  by (cases m) (simp_all add: handle_network_response_def)

lemma channel_handle_all [simp]:
  "app_channel (foldl (\<lambda>c m. handle_network_response m c) c ms) = app_channel c"
  by (induction ms arbitrary: c) simp_all

lemma channel_recv_loop: "app_channel (fst (recv_loop arr sid n c)) = app_channel c"
proof (induction "10 - n" arbitrary: n c)
  case 0
  then show ?case
    by (subst recv_loop.simps) (auto simp: Let_def case_prod_beta split: option.splits)
next
  case (Suc k)
  have "app_channel (fst (recv_loop arr sid (n + 1) c')) = app_channel c'" for c'
    by (rule Suc.hyps(1)) (use Suc.hyps(2) in simp)
  then show ?case
    by (subst recv_loop.simps) (auto simp: Let_def case_prod_beta split: option.splits)
qed

lemma channel_query:
  assumes "chan_open env" "\<not> untracked req"
    and "card (req_buffer (request_buffer c)) < req_size (request_buffer c)"
  shows "app_channel (fst (query_network env req c))
     = app_channel c @ [FromApplication (take_id c) req]"
proof -
  have "snd (send_with_id env (take_id c) req c) = Some (take_id c)"
    by (rule send_accepts) (use assms in auto)
  then obtain c1 where c1: "send_with_id env (take_id c) req c = (c1, Some (take_id c))"
    by (metis prod.collapse)
  with send_with_id_Some [OF c1] show ?thesis
    by (simp add: query_network_def send_to_network_def take_id_def recv_from_network_def
        case_prod_beta channel_recv_loop)
qed

lemma replicate_sends:
  fixes rn data env c d
  defines "clk \<equiv> saturating_add (cfg_clock d) 1"
  assumes "repl_cfg c rn = Some d" "chan_open env"
    and "card (req_buffer (request_buffer c)) < req_size (request_buffer c)"
  shows "repl_cfg (fst (replicate_data env data rn c)) rn = Some (d\<lparr>cfg_clock := clk\<rparr>)"
    and "app_channel (fst (replicate_data env data rn c)) = app_channel c
          @ [FromApplication (take_id c)
               (GossipsubBroadcastMessage rn (repl_message (clock env 0) clk rn data))]"
proof -
  let ?c1 = "set_replication ((replication (network_info c))(rn \<mapsto> d\<lparr>cfg_clock := clk\<rparr>)) c"
  let ?req = "GossipsubBroadcastMessage rn (repl_message (clock env 0) clk rn data)"
  have fst: "fst (replicate_data env data rn c) = fst (query_network env ?req ?c1)"
    using assms(2) by (simp add: replicate_data_def clk_def Let_def case_prod_beta split: sum.split)
  have "app_channel (fst (query_network env ?req ?c1)) = app_channel ?c1 @ [FromApplication (take_id ?c1) ?req]"
    by (rule channel_query) (use assms in \<open>auto simp: set_replication_def\<close>)
  then show "app_channel (fst (replicate_data env data rn c)) = app_channel c @ [FromApplication (take_id c) ?req]"
    by (simp add: fst set_replication_def take_id_def)
  show "repl_cfg (fst (replicate_data env data rn c)) rn = Some (d\<lparr>cfg_clock := clk\<rparr>)"
    by (simp add: fst repl_cfg_def set_replication_def)
qed

text \<open>Replicating stamps the data with a clock above the network's and advances the network's
  to it; without the network nothing is sent.\<close>

theorem replicate_stamps_next_clock:
  assumes "chan_open env" "card (req_buffer (request_buffer c)) < req_size (request_buffer c)"
    and "\<forall>d. repl_cfg c rn = Some d \<longrightarrow> cfg_clock d \<noteq> - 1"
  shows "case repl_cfg c rn of
      None \<Rightarrow> replicate_data env data rn c = (c, Inl MissingReplNetwork)
    | Some d \<Rightarrow> \<exists>clk. cfg_clock d < clk
        \<and> repl_cfg (fst (replicate_data env data rn c)) rn = Some (d\<lparr>cfg_clock := clk\<rparr>)
        \<and> app_channel (fst (replicate_data env data rn c)) = app_channel c
            @ [FromApplication (take_id c)
                 (GossipsubBroadcastMessage rn (repl_message (clock env 0) clk rn data))]"
proof (cases "repl_cfg c rn")
  case (Some d)
  have "cfg_clock d < saturating_add (cfg_clock d) 1" using saturating_add_1_gt assms(3) Some by blast
  then show ?thesis using replicate_sends [OF Some assms(1,2)] Some by auto
qed (simp add: replicate_data_def)

theorem replicate_stamps_next_clock_witness:
  "\<exists>clk > 3. app_channel (fst (replicate_data silent_env [''x''] ''net'' (sample_repl ReplDefault [])))
     = [FromApplication (StreamId 1)
          (GossipsubBroadcastMessage ''net'' (repl_message 100 clk ''net'' [''x'']))]"
  using replicate_stamps_next_clock [of silent_env "sample_repl ReplDefault []" "''net''" "[''x'']"]
  by (auto simp: take_id_def)

end
