(* ===== verification/Lock_Order.thy ===== *)
theory Lock_Order
  imports Repl_Sync
begin

text \<open>
  The two locks of a \<open>ReplicaBufferQueue\<close> (\<open>swarm-nl/src/core/replication.rs\<close>), and two tasks
  of one node that run at the same time: \<open>push\<close> under strong consistency, once the number of
  replica peers is known, and \<open>handle_data_confirmation\<close>. A task is the list of what it has
  left to do: to take a lock, to release one, or to change the buffer, after which the code
  may choose how to go on. \<open>push\<close> takes the public queue with the temporary one held,
  \<open>handle_data_confirmation\<close> the temporary one with the public one held.
\<close>

datatype lock = Temporary | Public

datatype action =
    Lock lock
  | Unlock lock
  | Change "replica_buffer_queue \<Rightarrow> (replica_buffer_queue \<times> action list) option"

datatype party = Pusher | Confirmer

record 'p locked_buffer =
  content :: replica_buffer_queue
  owner :: "lock \<rightharpoonup> 'p"
  todo :: "'p \<Rightarrow> action list"

text \<open>One action of a task; \<open>None\<close> while it waits for a lock, has nothing left to do, or never
  comes back from what it does.\<close>

definition advance :: "'p \<Rightarrow> 'p locked_buffer \<Rightarrow> 'p locked_buffer option" where
  "advance p s =
     (case todo s p of
        [] \<Rightarrow> None
      | Lock l # rest \<Rightarrow>
          (if owner s l = None
           then Some (s\<lparr>owner := (owner s)(l \<mapsto> p), todo := (todo s)(p := rest)\<rparr>) else None)
      | Unlock l # rest \<Rightarrow> Some (s\<lparr>owner := (owner s)(l := None), todo := (todo s)(p := rest)\<rparr>)
      | Change f # rest \<Rightarrow>
          map_option (\<lambda>(rb, next). s\<lparr>content := rb, todo := (todo s)(p := next @ rest)\<rparr>)
            (f (content s)))"

inductive lock_step :: "'p locked_buffer \<Rightarrow> 'p locked_buffer \<Rightarrow> bool" where
  "advance p s = Some s' \<Longrightarrow> lock_step s s'"

text \<open>The steps of a schedule: whose turn it is each time.\<close>

fun schedule :: "'p list \<Rightarrow> 'p locked_buffer \<Rightarrow> 'p locked_buffer option" where
  "schedule [] s = Some s"
| "schedule (p # ps) s = Option.bind (advance p s) (schedule ps)"

lemma schedule_reaches: "schedule ps s = Some s' \<Longrightarrow> lock_step\<^sup>*\<^sup>* s s'"
  by (induction ps arbitrary: s)
     (auto simp: Option.bind_eq_Some_conv intro: lock_step.intros converse_rtranclp_into_rtranclp)

lemma stuck_iff: "(\<nexists>s'. lock_step s s') \<longleftrightarrow> (\<forall>p. advance p s = None)"
  by (metis lock_step.simps not_None_eq)

definition always :: "(replica_buffer_queue \<Rightarrow> replica_buffer_queue) \<Rightarrow> action" where
  "always f = Change (\<lambda>rb. Some (f rb, []))"

section \<open>The two tasks\<close>

definition make_room :: "string \<Rightarrow> replica_buffer_queue \<Rightarrow> replica_buffer_queue" where
  "make_room rn rb = rb\<lparr>temporary_queue :=
     (temporary_queue rb)(rn \<mapsto> push_temporary_room (or_default (temporary_queue rb) rn))\<rparr>"

definition insert_public :: "string \<Rightarrow> repl_buffer_data \<Rightarrow> replica_buffer_queue \<Rightarrow> replica_buffer_queue" where
  "insert_public rn data rb = rb\<lparr>queue :=
     (queue rb)(rn \<mapsto> rset_insert data (or_default (queue rb) rn))\<rparr>"

definition insert_temporary :: "string \<Rightarrow> repl_buffer_data \<Rightarrow> replica_buffer_queue \<Rightarrow> replica_buffer_queue" where
  "insert_temporary rn data rb = rb\<lparr>temporary_queue :=
     (temporary_queue rb)(rn \<mapsto> push_temporary data (or_default (temporary_queue rb) rn))\<rparr>"

definition push_task :: "nat \<Rightarrow> consensus_model \<Rightarrow> string \<Rightarrow> repl_buffer_data \<Rightarrow> action list" where
  "push_task peers consensus rn data =
     [Lock Temporary, always (make_room rn)]
     @ (if peers = 1 \<or> consensus = MinPeers 1
        then [Lock Public, always (insert_public rn data), Unlock Public]
        else [always (insert_temporary rn data)])
     @ [Unlock Temporary]"

definition confirm_room :: "seconds \<Rightarrow> string \<Rightarrow> replica_buffer_queue \<Rightarrow> replica_buffer_queue option" where
  "confirm_room now rn rb =
     map_option (\<lambda>q. rb\<lparr>queue := (queue rb)(rn \<mapsto> q)\<rparr>)
       (confirm_cleanup (config rb) now (or_default (queue rb) rn))"

definition confirm_take :: "string \<Rightarrow> string \<Rightarrow> replica_buffer_queue \<Rightarrow> replica_buffer_queue" where
  "confirm_take rn mid rb =
     (case temporary_queue rb rn of
        None \<Rightarrow> rb
      | Some tq \<Rightarrow>
          (case map_of tq mid of
             None \<Rightarrow> rb
           | Some d \<Rightarrow>
               insert_public rn d
                 (rb\<lparr>temporary_queue := (temporary_queue rb)(rn \<mapsto> bmap_remove mid tq)\<rparr>)))"

definition move_actions :: "seconds \<Rightarrow> string \<Rightarrow> string \<Rightarrow> action list" where
  "move_actions now rn mid =
     [Lock Public, Change (\<lambda>rb. map_option (\<lambda>rb'. (rb', [])) (confirm_room now rn rb)),
      Lock Temporary, always (confirm_take rn mid), Unlock Temporary, Unlock Public]"

definition confirm_task :: "u64 \<Rightarrow> seconds \<Rightarrow> string \<Rightarrow> string \<Rightarrow> action list" where
  "confirm_task peers_count now rn mid =
     [Lock Temporary,
      Change (\<lambda>rb. map_option
        (\<lambda>(rb', flag). (rb', Unlock Temporary # (if flag then move_actions now rn mid else [])))
        (confirm_temp peers_count rn mid rb))]"

section \<open>Each task alone\<close>

text \<open>The two parts of the move are the move of \<open>Repl_Queue\<close>.\<close>

lemma confirm_move_parts:
  "confirm_move now rn mid rb = map_option (confirm_take rn mid) (confirm_room now rn rb)"
  by (auto simp: confirm_move_def confirm_room_def confirm_take_def insert_public_def
      or_default_def Let_def option.map_comp o_def intro!: option.map_cong split: option.splits)

text \<open>What the tasks do to the buffer when nothing comes between.\<close>

definition push_alone :: "nat \<Rightarrow> consensus_model \<Rightarrow> string \<Rightarrow> repl_buffer_data \<Rightarrow> replica_buffer_queue \<Rightarrow> replica_buffer_queue" where
  "push_alone peers consensus rn data rb =
     (if peers = 1 \<or> consensus = MinPeers 1 then insert_public rn data (make_room rn rb)
      else insert_temporary rn data (make_room rn rb))"

lemma push_strong_buffer:
  "replica_buffer (push_strong env consensus rn data c)
     = push_alone (length (snd (replica_peers env rn
         (set_temp rn (push_temporary_room (temp_of c rn)) c)))) consensus rn data (replica_buffer c)"
proof -
  define c1 where "c1 = set_temp rn (push_temporary_room (temp_of c rn)) c"
  obtain c2 peers where c2: "replica_peers env rn c1 = (c2, peers)"
    by (cases "replica_peers env rn c1")
  have "replica_buffer c1 = make_room rn (replica_buffer c)"
    by (simp add: c1_def set_temp_def set_buffer_def make_room_def temp_of_def)
  then have same: "make_room rn (replica_buffer c) = replica_buffer c2"
    using same_node_peers [of c1 env rn] c2 by (simp add: same_node_def)
  show ?thesis
    unfolding push_strong_def c1_def [symmetric] c2 push_alone_def same
    using same_node_query
    by (simp add: Let_def c2 insert_public_def insert_temporary_def set_public_def public_queue_def
        set_buffer_def same_node_def set_temp_def temp_of_def)
qed

lemma push_task_alone:
  assumes "todo s Pusher = push_task peers consensus rn data" "owner s = Map.empty"
  shows "\<exists>s'. lock_step\<^sup>*\<^sup>* s s' \<and> content s' = push_alone peers consensus rn data (content s)
     \<and> owner s' = Map.empty \<and> todo s' = (todo s)(Pusher := [])"
proof -
  let ?n = "length (push_task peers consensus rn data)"
  have "\<exists>s'. schedule (replicate ?n Pusher) s = Some s'
     \<and> content s' = push_alone peers consensus rn data (content s)
     \<and> owner s' = Map.empty \<and> todo s' = (todo s)(Pusher := [])"
    using assms
    by (cases "peers = 1 \<or> consensus = MinPeers 1")
       (auto simp: push_task_def push_alone_def always_def advance_def fun_eq_iff)
  with schedule_reaches show ?thesis by blast
qed

lemma confirm_task_alone:
  assumes "todo s Confirmer = confirm_task peers_count now rn mid" "owner s = Map.empty"
    and "confirm_with peers_count now rn mid (content s) = Some rb"
  shows "\<exists>s'. lock_step\<^sup>*\<^sup>* s s' \<and> content s' = rb
     \<and> owner s' = Map.empty \<and> todo s' = (todo s)(Confirmer := [])"
proof -
  obtain rb1 flag where rb1: "confirm_temp peers_count rn mid (content s) = Some (rb1, flag)"
    using assms(3) by (auto simp: confirm_with_def Option.bind_eq_Some_conv)
  have "\<exists>n s'. schedule (replicate n Confirmer) s = Some s' \<and> content s' = rb
     \<and> owner s' = Map.empty \<and> todo s' = (todo s)(Confirmer := [])"
  proof (cases flag)
    case True
    then show ?thesis using assms rb1
      by (intro exI [of _ "9 :: nat"])
         (auto simp: confirm_with_def confirm_move_parts confirm_task_def move_actions_def
           always_def advance_def fun_eq_iff numeral_eq_Suc)
  next
    case False
    then show ?thesis using assms rb1
      by (intro exI [of _ "3 :: nat"])
         (auto simp: confirm_with_def confirm_task_def advance_def fun_eq_iff numeral_eq_Suc)
  qed
  with schedule_reaches show ?thesis by blast
qed

section \<open>The two together\<close>

text \<open>With the data of a push on its way to the public queue and a confirmation that is the
  last one needed, each can end up holding the lock the other waits for.\<close>

definition deadly :: "party list" where
  "deadly = [Confirmer, Confirmer, Confirmer, Confirmer, Confirmer, Pusher, Pusher]"

lemma deadly_schedule:
  assumes "todo s Pusher = push_task peers consensus rn data" "peers = 1 \<or> consensus = MinPeers 1"
    and "todo s Confirmer = confirm_task peers_count now rn' mid" "owner s = Map.empty"
    and "confirm_temp peers_count rn' mid (content s) = Some (rb1, True)"
    and "confirm_room now rn' rb1 = Some rb2"
  shows "\<exists>s'. schedule deadly s = Some s'
     \<and> owner s' Temporary = Some Pusher \<and> owner s' Public = Some Confirmer
     \<and> hd (todo s' Pusher) = Lock Public \<and> hd (todo s' Confirmer) = Lock Temporary
     \<and> todo s' Pusher \<noteq> [] \<and> todo s' Confirmer \<noteq> []"
  using assms
  by (auto simp: deadly_def push_task_def confirm_task_def move_actions_def always_def advance_def)

lemma waiting_for_each_other:
  assumes "owner s Temporary = Some Pusher" "owner s Public = Some Confirmer"
    and "hd (todo s Pusher) = Lock Public" "hd (todo s Confirmer) = Lock Temporary"
  shows "\<nexists>s'. lock_step s s'"
  unfolding stuck_iff
proof
  fix p show "advance p s = None"
    using assms by (cases p; cases "todo s p") (simp_all add: advance_def)
qed

end
