(* ===== verification/Sync_Props.thy ===== *)
theory Sync_Props
  imports Repl_Props Lock_Order
begin

text \<open>
  Replication between nodes: the confirmations of strong consistency, the transfer of
  buffer entries over RPC (\<open>pull_missing_data\<close> on one side, \<open>unmarshal_messages\<close> on the
  other), the synchronisation of eventual consistency and the cloning of a buffer.
\<close>

section \<open>Strong consistency\<close>

text \<open>C20: A confirmation below the required number is counted; the one that reaches it moves the data
  from the temporary to the public queue, whose limit leaves room for at least one entry.\<close>

theorem confirmation_counts_and_moves:
  assumes "temporary_queue rb rn = Some tq" "map_of tq mid = Some d"
    and "confirmations d = Some k" "k < required" "queues_ordered rb"
    and "0 < fst (push_limits (config rb))"
  shows "\<exists>rb'. confirm_with required now rn mid rb = Some rb'
     \<and> (if k + 1 = required
        then \<exists>q. map_of (or_default (temporary_queue rb') rn) mid = None
             \<and> queue rb' rn = Some q \<and> repl_key d \<in> rset_keys q
        else map_of (or_default (temporary_queue rb') rn) mid
               = Some (d\<lparr>confirmations := Some (k + 1)\<rparr>)
             \<and> queue rb' = queue rb)"
proof -
  let ?d = "d\<lparr>confirmations := Some (k + 1)\<rparr>"
  let ?rb1 = "rb\<lparr>temporary_queue := (temporary_queue rb)(rn \<mapsto> bmap_insert mid ?d tq)\<rparr>"
  have "required \<noteq> 0" using assms(4) by auto
  then have temp: "confirm_temp required rn mid rb = Some (?rb1, k + 1 = required)"
    using assms by (simp add: confirm_temp_def confirm_entry_def)
  show ?thesis
  proof (cases "k + 1 = required")
    case False
    then show ?thesis
      by (simp add: confirm_with_def temp or_default_def map_of_bmap_insert)
  next
    case True
    obtain q where q: "confirm_cleanup (config rb) now (or_default (queue rb) rn) = Some q" "rset_wf q"
      using confirm_cleanup_some or_default_ordered assms(5,6) by blast
    have "repl_key ?d = repl_key d" by (simp add: repl_key_def)
    then show ?thesis
      using True q by (simp add: confirm_with_def temp confirm_move_def or_default_def
        map_of_bmap_insert map_of_bmap_remove repl_store.keys_ins)
  qed
qed

definition sample_pending :: "u64 \<Rightarrow> replica_buffer_queue" where
  "sample_pending n = (sample_buffer (ReplCustom 9 None 5 (Strong (MinPeers 2)) 5) [])
     \<lparr>temporary_queue :=
        [''net'' \<mapsto> [(''m'', (sample_msg 7 ''m'')\<lparr>confirmations := Some n\<rparr>)]]\<rparr>"

lemma sample_pending_simps [simp]:
  "temporary_queue (sample_pending n) ''net''
     = Some [(''m'', (sample_msg 7 ''m'')\<lparr>confirmations := Some n\<rparr>)]"
  "queues_ordered (sample_pending n)"
  "push_limits (config (sample_pending n)) = (9, None)"
  by (simp_all add: sample_pending_def push_limits_def)

theorem confirmation_counts_and_moves_witness:
  "\<exists>rb' q. confirm_with 2 100 ''net'' ''m'' (sample_pending 1) = Some rb'
     \<and> queue rb' ''net'' = Some q \<and> repl_key (sample_msg 7 ''m'') \<in> rset_keys q"
proof -
  let ?d = "(sample_msg 7 ''m'')\<lparr>confirmations := Some 1\<rparr>"
  have "repl_key ?d = repl_key (sample_msg 7 ''m'')" by (simp add: repl_key_def)
  with confirmation_counts_and_moves [of "sample_pending 1" "''net''" "[(''m'', ?d)]" "''m''"
      ?d 1 2 100]
  show ?thesis by auto
qed

text \<open>If peers leave and the required number falls below the confirmations an entry has, no
  further confirmation moves it: it stays in the temporary queue.\<close>

theorem overconfirmed_data_is_stuck:
  assumes "temporary_queue rb rn = Some tq" "map_of tq mid = Some d"
    and "confirmations d = Some k" "required < k"
  shows "\<exists>rb'. confirm_with required now rn mid rb = Some rb' \<and> queue rb' = queue rb
     \<and> map_of (or_default (temporary_queue rb') rn) mid = Some d"
  using assms
  by (auto simp: confirm_with_def confirm_temp_def confirm_entry_def or_default_def
      map_of_bmap_insert)

theorem overconfirmed_data_is_stuck_witness:
  "\<exists>rb'. confirm_with 2 100 ''net'' ''m'' (sample_pending 3) = Some rb'
     \<and> map_of (or_default (temporary_queue rb') ''net'') ''m''
         = Some ((sample_msg 7 ''m'')\<lparr>confirmations := Some 3\<rparr>)"
  using overconfirmed_data_is_stuck [of "sample_pending 3" "''net''"
      "[(''m'', (sample_msg 7 ''m'')\<lparr>confirmations := Some 3\<rparr>)]" "''m''"
      "(sample_msg 7 ''m'')\<lparr>confirmations := Some 3\<rparr>" 3 2 100]
  by auto

section \<open>The locks of the buffer\<close>

text \<open>C18: A push that goes straight to the public queue and the last confirmation of an earlier
  message can wait for each other for ever, each with the lock the other needs.\<close>

theorem push_and_confirmation_deadlock:
  assumes "todo s Pusher = push_task peers consensus rn data" "peers = 1 \<or> consensus = MinPeers 1"
    and "todo s Confirmer = confirm_task required now rn' mid" "owner s = Map.empty"
    and "temporary_queue (content s) rn' = Some tq" "map_of tq mid = Some d"
    and "confirmations d = Some k" "required = k + 1" "k < required"
    and "queues_ordered (content s)" "0 < fst (push_limits (config (content s)))"
  shows "\<exists>s'. lock_step\<^sup>*\<^sup>* s s' \<and> (\<nexists>s''. lock_step s' s'') \<and> (\<forall>p. todo s' p \<noteq> [])"
proof -
  let ?rb1 = "(content s)\<lparr>temporary_queue := (temporary_queue (content s))
      (rn' \<mapsto> bmap_insert mid (d\<lparr>confirmations := Some (k + 1)\<rparr>) tq)\<rparr>"
  have "required \<noteq> 0" using assms(9) by auto
  then have temp: "confirm_temp required rn' mid (content s) = Some (?rb1, True)"
    using assms by (simp add: confirm_temp_def confirm_entry_def)
  obtain rb2 where rb2: "confirm_room now rn' ?rb1 = Some rb2"
    using confirm_cleanup_some or_default_ordered assms(10,11) by (fastforce simp: confirm_room_def)
  obtain s' where s': "schedule deadly s = Some s'" "owner s' Temporary = Some Pusher"
    "owner s' Public = Some Confirmer" "hd (todo s' Pusher) = Lock Public"
    "hd (todo s' Confirmer) = Lock Temporary" "todo s' Pusher \<noteq> []" "todo s' Confirmer \<noteq> []"
    using deadly_schedule [OF assms(1-4) temp rb2] by blast
  have "\<nexists>s''. lock_step s' s''"
    by (rule waiting_for_each_other) (rule s')+
  moreover have "\<forall>p. todo s' p \<noteq> []" using s'(6,7) party.exhaust by metis
  ultimately show ?thesis using schedule_reaches [OF s'(1)] by blast
qed

definition sample_tasks :: "party locked_buffer" where
  "sample_tasks = \<lparr>content = sample_pending 1, owner = Map.empty,
     todo = (\<lambda>p. case p of Pusher \<Rightarrow> push_task 1 All_Peers ''net'' (sample_msg 8 ''n'')
                        | Confirmer \<Rightarrow> confirm_task 2 100 ''net'' ''m'')\<rparr>"

theorem push_and_confirmation_deadlock_witness:
  "\<exists>s'. lock_step\<^sup>*\<^sup>* sample_tasks s' \<and> (\<nexists>s''. lock_step s' s'') \<and> (\<forall>p. todo s' p \<noteq> [])"
  by (rule push_and_confirmation_deadlock [of _ 1 All_Peers "''net''" "sample_msg 8 ''n''" 2 100
        "''net''" "''m''" "[(''m'', (sample_msg 7 ''m'')\<lparr>confirmations := Some 1\<rparr>)]"
        "(sample_msg 7 ''m'')\<lparr>confirmations := Some 1\<rparr>" 1])
     (simp_all add: sample_tasks_def)

text \<open>When a single peer suffices, data goes straight to the public queue, and nothing is ever
  dropped from it: it grows past any configured capacity.\<close>

theorem strong_single_peer_unbounded:
  assumes "queues_ordered (replica_buffer c)" "repl_key d \<notin> rset_keys (public_queue c rn)"
    and "consistency_model (replica_buffer c) = Strong (MinPeers 1)"
  shows "\<exists>c'. repl_push env rn d c = Some c'
     \<and> length (public_queue c' rn) = Suc (length (public_queue c rn))
     \<and> set (public_queue c' rn) = insert d (set (public_queue c rn))"
proof -
  let ?q = "public_queue c rn"
  obtain c2 where c2: "fst (replica_peers env rn (set_temp rn (push_temporary_room (temp_of c rn)) c)) = c2"
    by simp
  have eq: "public_queue c2 rn = ?q"
    using c2 [symmetric] by (simp add: public_queue_def)
  have "push_strong env (MinPeers 1) rn d c = set_public rn (rset_insert d ?q) c2"
    using c2 eq by (simp add: push_strong_def Let_def case_prod_beta)
  then have q': "public_queue (push_strong env (MinPeers 1) rn d c) rn = rset_insert d ?q"
    by (simp add: public_queue_def or_default_def)
  have wf: "rset_wf ?q" using assms(1) by (simp add: public_queue_def or_default_ordered)
  have "length (rset_insert d ?q) = Suc (length ?q)"
    using wf assms(2)
    by (simp add: repl_store.len_keys repl_store.inv_ins repl_store.keys_ins repl_store.finite_keys)
  with q' rset_insert_new [OF assms(2)] assms(3) show ?thesis by (simp add: repl_push_def)
qed

theorem strong_single_peer_unbounded_witness:
  "\<exists>c'. repl_push silent_env ''net'' (sample_msg 8 ''n'')
        (sample_repl (ReplCustom 1 None 5 (Strong (MinPeers 1)) 5) [sample_msg 7 ''m'']) = Some c'
     \<and> length (public_queue c' ''net'') = 2"
  using strong_single_peer_unbounded
    [of "sample_repl (ReplCustom 1 None 5 (Strong (MinPeers 1)) 5) [sample_msg 7 ''m'']"
       "sample_msg 8 ''n''" "''net''" silent_env]
  by (auto simp: consistency_model_def rset_keys_set public_queue_def [of "sample_repl c q" for c q]
      or_default_def)

section \<open>Membership\<close>

text \<open>Leaving a network keeps its buffer, but joining it (again) empties it: data that was
  kept is lost when the node comes back.\<close>

theorem rejoining_empties_buffer:
  "replica_buffer (fst (leave_repl_network env rn c)) = replica_buffer c
   \<and> queue (replica_buffer (fst (join_repl_network env rn c))) rn = Some []"
  by (simp add: leave_repl_network_def join_repl_network_def Let_def case_prod_beta buffer_init_def
      split: sum.split)

section \<open>Entries on the wire\<close>

text \<open>C21: What a node answers to a pull request is read back by the other as the same entries, in
  order, with no confirmations, if no text in them holds a delimiter.\<close>

theorem pulled_entries_round_trip:
  assumes "peer_text_ok cd" "list_all (wire_clean cd) q" "list_all (text_valid cd) q"
    and "queue rb rn = Some q" "pull_missing_data cd rn ids rb = Some msgs"
  shows "unmarshal_messages cd msgs = map (\<lambda>m. m\<lparr>confirmations := None\<rparr>)
     (if hd ids = [] then q else filter (\<lambda>m. message_id m \<in> set ids) q)"
proof -
  obtain sel where sel: "select_requested ids q = Some sel" "msgs = [marshal_entries cd sel]"
    using assms(4,5) by (auto simp: pull_missing_data_def)
  then have s: "sel = (if hd ids = [] then q else filter (\<lambda>m. message_id m \<in> set ids) q)"
    by (cases ids) (auto simp: select_requested_def index_def)
  have "list_all (wire_clean cd) sel" "list_all (text_valid cd) sel"
    using assms(2,3) s by (auto simp: list_all_iff)
  then show ?thesis
    using unmarshal_marshal_entries [OF assms(1)] sel(2) s by simp
qed

lemma sample_peer_text: "peer_text_ok (sample_codecs\<lparr>parse_peer := (\<lambda>s. Some (PeerId s))\<rparr>)"
  by (simp add: peer_text_ok_def sample_codecs_def split: peer_id.split)

definition total_codecs :: codecs where
  "total_codecs = sample_codecs\<lparr>parse_peer := (\<lambda>s. Some (PeerId s))\<rparr>"

lemma total_codecs_ok [simp]: "peer_text_ok total_codecs"
  unfolding total_codecs_def by (rule sample_peer_text)

lemma total_codecs_simps [simp]:
  "peer_str total_codecs (PeerId b) = b" "parse_peer total_codecs s = Some (PeerId s)"
  by (simp_all add: total_codecs_def sample_codecs_def)

lemma show_u64_small: "show_u64 7 = ''7''" "show_u64 90 = ''90''" "show_u64 95 = ''95''"
  "show_u64 8 = ''8''"
  by code_simp+

lemma sample_msg_wire [simp]:
  "wire_clean total_codecs (sample_msg 7 ''m'')" "text_valid total_codecs (sample_msg 7 ''m'')"
  by (simp_all add: wire_clean_def text_valid_def sample_msg_def marshal_entry_def show_u64_small
      delimiter_defs utf8_head_def utf8_seq_def byte_at_def code_of_def)

theorem pulled_entries_round_trip_witness:
  "unmarshal_messages total_codecs (the (pull_missing_data total_codecs ''net'' [''m'']
     (sample_buffer ReplDefault [sample_msg 7 ''m'']))) = [sample_msg 7 ''m'']"
  using pulled_entries_round_trip [of total_codecs "[sample_msg 7 ''m'']"
      "sample_buffer ReplDefault [sample_msg 7 ''m'']" "''net''" "[''m'']"
      "[marshal_entries total_codecs [sample_msg 7 ''m'']]"]
  by (simp add: pull_missing_data_def select_requested_def index_def) (simp add: sample_msg_def)

text \<open>An item that holds the data delimiter is cut on the way: it arrives as two items.\<close>

theorem data_delimiter_splits_items:
  assumes "peer_text_ok cd" "wire_clean cd (d\<lparr>rdata := [x, y]\<rparr>)" "text_valid cd (d\<lparr>rdata := [x, y]\<rparr>)"
  shows "unmarshal_messages cd [marshal_entries cd [d\<lparr>rdata := [x @ DATA_DELIMITER @ y]\<rparr>]]
     = [d\<lparr>rdata := [x, y], confirmations := None\<rparr>]"
proof -
  have "marshal_entries cd [d\<lparr>rdata := [x @ DATA_DELIMITER @ y]\<rparr>]
      = marshal_entries cd [d\<lparr>rdata := [x, y]\<rparr>]"
    by (simp add: marshal_entries_def marshal_step_def marshal_entry_def)
  then show ?thesis
    using unmarshal_marshal_entries [of cd "[d\<lparr>rdata := [x, y]\<rparr>]"] assms by simp
qed

theorem data_delimiter_splits_items_witness:
  "unmarshal_messages total_codecs
     [marshal_entries total_codecs [(sample_msg 7 ''m'')\<lparr>rdata := [''price: 5$$ or 6'']\<rparr>]]
   = [(sample_msg 7 ''m'')\<lparr>rdata := [''price: 5'', '' or 6'']\<rparr>]"
proof -
  have "wire_clean total_codecs ((sample_msg 7 ''m'')\<lparr>rdata := [''price: 5'', '' or 6'']\<rparr>)"
    "text_valid total_codecs ((sample_msg 7 ''m'')\<lparr>rdata := [''price: 5'', '' or 6'']\<rparr>)"
    by (simp_all add: wire_clean_def text_valid_def sample_msg_def marshal_entry_def show_u64_small
        delimiter_defs utf8_head_def utf8_seq_def byte_at_def code_of_def)
  from data_delimiter_splits_items [OF total_codecs_ok this]
  show ?thesis by (simp add: DATA_DELIMITER_def sample_msg_def)
qed

section \<open>Eventual consistency\<close>

text \<open>A network in which a peer with the buffer \<open>rb\<close> answers the pull requests of a node.\<close>

definition serves_pulls :: "codecs \<Rightarrow> env \<Rightarrow> string \<Rightarrow> peer_id \<Rightarrow> replica_buffer_queue \<Rightarrow> core \<Rightarrow> bool" where
  "serves_pulls cd env rn peer rb c \<longleftrightarrow>
     (\<forall>ids msgs. pull_missing_data cd rn ids rb = Some msgs \<longrightarrow>
        snd (query_network env (SendRpc ([RPC_SYNC_PULL_FLAG, rn] @ ids) peer) c)
          = Inr (SendRpc_Resp msgs))"

text \<open>What such a peer sends for \<open>ids\<close>: an empty first id asks for everything.\<close>

definition pulled :: "string list \<Rightarrow> repl_set \<Rightarrow> repl_buffer_data list" where
  "pulled ids pq = map (\<lambda>m. m\<lparr>confirmations := None\<rparr>)
     (if hd ids = [] then pq else filter (\<lambda>m. message_id m \<in> set ids) pq)"

lemma pull_answer:
  assumes "peer_text_ok cd" "list_all (wire_clean cd) pq" "list_all (text_valid cd) pq"
    and "queue rb rn = Some pq" "ids \<noteq> []"
  obtains msgs where "pull_missing_data cd rn ids rb = Some msgs" "unmarshal_messages cd msgs = pulled ids pq"
proof -
  let ?sel = "if hd ids = [] then pq else filter (\<lambda>m. message_id m \<in> set ids) pq"
  have "select_requested ids pq = Some ?sel"
    using assms(5) by (cases ids) (auto simp: select_requested_def index_def)
  then have "pull_missing_data cd rn ids rb = Some [marshal_entries cd ?sel]"
    using assms(4) by (simp add: pull_missing_data_def)
  moreover have "list_all (wire_clean cd) ?sel" "list_all (text_valid cd) ?sel"
    using assms(2,3) by (auto simp: list_all_iff)
  ultimately show thesis using unmarshal_marshal_entries [OF assms(1), of ?sel] by (intro that) (simp_all add: pulled_def)
qed

text \<open>Putting them into a queue.\<close>

lemma pulled_keys: "repl_key (m\<lparr>confirmations := None\<rparr>) = repl_key m"
  by (simp add: repl_key_def)

lemma insert_pulled:
  assumes "rset_wf q" "rset_wf pq"
  shows "set (insert_all (pulled ids pq) q) = set q \<union> {m\<lparr>confirmations := None\<rparr> | m. m \<in> set pq
     \<and> (hd ids = [] \<or> message_id m \<in> set ids) \<and> repl_key m \<notin> rset_keys q}"
proof -
  have "distinct (map repl_key pq)"
    using assms(2) strict_sorted_iff by (auto simp: rset_wf_def bset_wf_def)
  then have "distinct (map repl_key (pulled ids pq))"
    by (simp add: pulled_def comp_def pulled_keys distinct_map_filter)
  from insert_all_elements [OF assms(1) this] show ?thesis
    by (auto simp: pulled_def pulled_keys)
qed


lemma cloned_entries:
  assumes "peer_text_ok cd" "list_all (wire_clean cd) pq" "list_all (text_valid cd) pq"
    and "queue rb rn = Some pq" "serves_pulls cd env rn peer rb c"
    and "repl_cfg c rn \<noteq> None" "queue (replica_buffer c) rn = Some q"
  shows "\<exists>c'. replicate_buffer cd env rn peer c = (c', Inr ())
     \<and> queue (replica_buffer c') rn = Some (insert_all (pulled [[]] pq) q)"
proof -
  obtain msgs where m: "pull_missing_data cd rn [[]] rb = Some msgs" "unmarshal_messages cd msgs = pulled [[]] pq"
    using pull_answer [OF assms(1-4), of "[[]]"] by blast
  obtain c1 where c1: "query_network env (clone_request rn peer) c = (c1, Inr (SendRpc_Resp msgs))"
    using assms(5) m(1) unfolding serves_pulls_def clone_request_def
    by (metis append_Cons append_Nil prod.collapse)
  then show ?thesis using assms(6,7) m(2) by (auto simp: replicate_buffer_def clone_buffer_def)
qed



definition pull_env :: "codecs \<Rightarrow> replica_buffer_queue \<Rightarrow> env" where
  "pull_env cd rb = silent_env\<lparr>arrivals := (\<lambda>sid req n.
     case req of
       SendRpc data peer \<Rightarrow>
         (if n = 0 then [ToApplication sid (SendRpc_Resp
            (case pull_missing_data cd (data ! 1) (drop 2 data) rb of None \<Rightarrow> [] | Some m \<Rightarrow> m))]
          else [])
     | _ \<Rightarrow> [])\<rparr>"

lemma pull_env_serves:
  assumes "card (req_buffer (request_buffer c)) < req_size (request_buffer c)"
    and "length (resp_buffer (response_buffer c)) < resp_size (response_buffer c)"
  shows "serves_pulls cd (pull_env cd rb) rn peer rb c"
  unfolding serves_pulls_def
proof (intro allI impI)
  fix ids msgs assume p: "pull_missing_data cd rn ids rb = Some msgs"
  let ?req = "SendRpc ([RPC_SYNC_PULL_FLAG, rn] @ ids) peer"
  have sent: "snd (send_to_network (pull_env cd rb) ?req c) = Some (take_id c)"
    unfolding send_to_network_def take_id_def
    by (rule send_accepts) (use assms in \<open>auto simp: pull_env_def\<close>)
  have "snd (query_network (pull_env cd rb) ?req c) = response_result (SendRpc_Resp msgs)"
    by (rule query_answered [OF sent _ assms(2)]) (simp add: pull_env_def p)
  then show "snd (query_network (pull_env cd rb) ?req c) = Inr (SendRpc_Resp msgs)"
    by (simp add: response_result_def)
qed


section \<open>Cloning a buffer\<close>

text \<open>C12: Cloning a peer's buffer leaves a node of the network with exactly its own entries and, of those of the peer
  whose clock and id are new to it, the same entries without their counts, in order. The peer
  must answer, and its entries must be text that holds none of the delimiters of the wire
  format.\<close>

theorem clone_unites_buffers:
  assumes "peer_text_ok cd" "list_all (wire_clean cd) pq" "list_all (text_valid cd) pq"
    and "queue rb rn = Some pq" "rset_wf pq" "serves_pulls cd env rn peer rb c"
    and "repl_cfg c rn \<noteq> None" "queue (replica_buffer c) rn = Some q" "rset_wf q"
  shows "\<exists>c' q'. replicate_buffer cd env rn peer c = (c', Inr ())
     \<and> queue (replica_buffer c') rn = Some q' \<and> rset_wf q'
     \<and> set q' = set q \<union> {m\<lparr>confirmations := None\<rparr> | m. m \<in> set pq \<and> repl_key m \<notin> rset_keys q}"
  using cloned_entries [OF assms(1-4,6-8)] insert_pulled [OF assms(9,5), of "[[]]"] insert_all_wf [OF assms(9)]
  by auto

theorem clone_unites_buffers_witness:
  "\<exists>c' q'. replicate_buffer total_codecs
        (pull_env total_codecs (sample_buffer ReplDefault [sample_msg 7 ''m''])) ''net'' (PeerId ''b'')
        (sample_repl ReplDefault [sample_msg 8 ''n'']) = (c', Inr ())
     \<and> queue (replica_buffer c') ''net'' = Some q' \<and> set q' = {sample_msg 7 ''m'', sample_msg 8 ''n''}"
proof -
  have serves: "serves_pulls total_codecs
      (pull_env total_codecs (sample_buffer ReplDefault [sample_msg 7 ''m''])) ''net'' (PeerId ''b'')
      (sample_buffer ReplDefault [sample_msg 7 ''m'']) (sample_repl ReplDefault [sample_msg 8 ''n''])"
    by (rule pull_env_serves) simp_all
  have "(sample_msg 7 ''m'')\<lparr>confirmations := None\<rparr> = sample_msg 7 ''m''" by (simp add: sample_msg_def)
  then show ?thesis
    using clone_unites_buffers [OF total_codecs_ok _ _ _ _ serves, of "[sample_msg 7 ''m'']"
        "[sample_msg 8 ''n'']"]
    by (auto simp: rset_keys_set rset_wf_def)
qed

end
