(* ===== verification/Shard_Props.thy ===== *)
theory Shard_Props
  imports Repl_Props
begin

text \<open>
  What sharding guarantees (\<open>swarm-nl/src/core/sharding.rs\<close>, the shard functions of
  \<open>util.rs\<close> and the two example policies): the views of the shards and how they spread, the
  placement of data and requests, and leaving.
\<close>

section \<open>The interface of a policy\<close>

text \<open>
  A policy maps keys to shards; \<open>covered\<close> are the keys it has a shard for. The operations
  need no more of it.
\<close>

locale sharding_policy =
  fixes locate :: "'k \<Rightarrow> shard_id option"
    and covered :: "'k set"
  assumes locate_covered: "locate k = None \<longleftrightarrow> k \<notin> covered"
begin

lemma covered_shard: "k \<in> covered \<Longrightarrow> \<exists>sid. locate k = Some sid"
  using locate_covered by auto

lemma shard_no_policy: "snd (shard locate env k data c) = Inl ShardNotFound \<longleftrightarrow> k \<notin> covered"
proof (cases "locate k")
  case (Some sid)
  then have "k \<in> covered" using locate_covered by (metis option.distinct(1))
  with Some show ?thesis
    by (auto simp: shard_def case_prod_beta split: option.split bool.split)
next
  case None
  then show ?thesis using locate_covered [of k] by (simp add: shard_def)
qed

lemma fetch_no_policy: "snd (fetch locate env k data c) = Inl ShardingFailureError \<longleftrightarrow> k \<notin> covered"
proof (cases "locate k")
  case (Some sid)
  then have "k \<in> covered" using locate_covered by (metis option.distinct(1))
  with Some show ?thesis
    by (auto simp: fetch_def case_prod_beta split: option.split)
next
  case None
  then show ?thesis using locate_covered [of k] by (simp add: fetch_def)
qed

lemma uncovered_sends_nothing:
  assumes "k \<notin> covered"
  shows "fst (shard locate env k data c) = c \<and> fst (fetch locate env k data c) = c"
proof -
  have "locate k = None" using assms locate_covered by simp
  then show ?thesis by (simp add: shard_def fetch_def)
qed

end

interpretation hash_policy: sharding_policy hash_locate UNIV
  by unfold_locales (simp add: hash_locate_def)

interpretation range_policy: sharding_policy "range_locate ranges"
  "{k. \<exists>(upper, sid) \<in> set ranges. k \<le> upper}" for ranges
  by unfold_locales (auto simp: range_locate_def find_None_iff)

text \<open>The two policies of the examples differ in one error: placing data by hash never fails for
  want of a shard; by range it does exactly for the keys above every bound, and nothing is
  sent then.\<close>

theorem policies_find_shards:
  "snd (shard hash_locate env key data c) \<noteq> Inl ShardNotFound
   \<and> (snd (shard (range_locate ranges) env n data c) = Inl ShardNotFound
        \<longleftrightarrow> (\<forall>(upper, sid) \<in> set ranges. upper < n))"
  using hash_policy.shard_no_policy [of env key data c]
    range_policy.shard_no_policy [of ranges env n data c]
  by (auto simp: not_le)

theorem policies_find_shards_witness:
  "snd (shard (range_locate [(10, ''a''), (20, ''b'')]) silent_env 21 [''x''] (sample_core 5))
     = Inl ShardNotFound"
  using policies_find_shards [of silent_env "''k''" "[]" "sample_core 5"
      "[(10, ''a''), (20, ''b'')]" 21] policies_find_shards [of silent_env "''k''" "[''x'']" "sample_core 5"
      "[(10, ''a''), (20, ''b'')]" 21] by simp

lemma find_sorted:
  fixes ranges :: "(u64 \<times> shard_id) list"
  assumes "sorted_wrt (<) (map fst ranges)"
  shows "find (\<lambda>(upper, _). k \<le> upper) ranges = Some (u, s)
     \<longleftrightarrow> (u, s) \<in> set ranges \<and> k \<le> u \<and> (\<forall>(u', s') \<in> set ranges. k \<le> u' \<longrightarrow> u \<le> u')"
  using assms
proof (induction ranges)
  case (Cons r ranges)
  obtain u0 s0 where r: "r = (u0, s0)" by (cases r)
  have above: "\<forall>(u', s') \<in> set ranges. u0 < u'"
    using Cons.prems r by fastforce
  show ?case
  proof (cases "k \<le> u0")
    case True
    have "(u, s) = (u0, s0)" if "(u, s) \<in> set (r # ranges)" "u \<le> u0"
    proof (rule ccontr)
      assume "(u, s) \<noteq> (u0, s0)"
      then have "u0 < u" using that(1) above r by auto
      with that(2) show False by simp
    qed
    with True above r show ?thesis by fastforce
  next
    case False
    with Cons r show ?thesis by auto
  qed
qed simp

text \<open>The range policy picks the shard with the least upper bound that reaches the key.\<close>

theorem range_policy_least_bound:
  assumes "sorted_wrt (<) (map fst ranges)"
  shows "range_locate ranges k = Some s \<longleftrightarrow>
     (\<exists>u. (u, s) \<in> set ranges \<and> k \<le> u \<and> (\<forall>(u', s') \<in> set ranges. k \<le> u' \<longrightarrow> u \<le> u'))"
  using find_sorted [OF assms, of k] by (auto simp: range_locate_def)

theorem range_policy_least_bound_witness:
  "range_locate [(10, ''a''), (20, ''b'')] 15 = Some ''b''"
  using range_policy_least_bound [of "[(10, ''a''), (20, ''b'')]" 15 "''b''"] by simp

section \<open>The view of the shards\<close>

text \<open>Recording a join or an exit changes the members of that shard by that peer only, and
  never leaves a shard without members in the view.\<close>

theorem update_changes_one_member:
  assumes "no_empty_shard st"
  shows "members (update_shard_state p sid join st) s =
      (if s = sid then (if join then insert p (members st sid) else members st sid - {p})
       else members st s)
   \<and> no_empty_shard (update_shard_state p sid join st)"
  using assms by (simp add: update_members update_no_empty)

theorem update_changes_one_member_witness:
  "members (update_shard_state (PeerId ''p'') ''s'' False [''s'' \<mapsto> {PeerId ''p'', PeerId ''q''}]) ''s''
     = {PeerId ''q''}"
proof -
  have "no_empty_shard [''s'' \<mapsto> {PeerId ''p'', PeerId ''q''}]" by (simp add: no_empty_shard_def)
  from update_changes_one_member [OF this, of "PeerId ''p''" "''s''" False "''s''"]
  show ?thesis by (auto simp: members_def [of "[''s'' \<mapsto> {PeerId ''p'', PeerId ''q''}]"])
qed

text \<open>C26: Merging an image, in whatever order its entries are walked, is the union of the members
  shard by shard.\<close>

theorem merge_is_union:
  assumes "enumerates es m"
  shows "merge_shard_states st es = merged st m
     \<and> members (merge_shard_states st es) sid = members st sid \<union> members m sid"
  using merge_shard_states_merged [OF assms] merged_members by simp

theorem merge_is_union_witness:
  "members (merge_shard_states [''s'' \<mapsto> {PeerId ''p''}] [(''s'', {PeerId ''q''})]) ''s''
     = {PeerId ''p'', PeerId ''q''}"
proof -
  have "enumerates [(''s'', {PeerId ''q''})] [''s'' \<mapsto> {PeerId ''q''}]"
    by (simp add: enumerates_def)
  note union = merge_is_union [OF this, of "[''s'' \<mapsto> {PeerId ''p''}]" "''s''"]
  have "members [''s'' \<mapsto> {x}] ''s'' = {x}" for x by (simp add: members_def)
  then show ?thesis using union by (metis insert_is_Un)
qed

text \<open>The view a node ends up with depends only on which images it received, not on their order
  nor on how often.\<close>

theorem shard_views_converge:
  assumes "set is = set js"
  shows "foldl merged st is = foldl merged st js"
  using shard_merge.merge_all_set_eq [OF assms] by (simp add: shard_merge.merge_all_def)

theorem shard_views_converge_witness:
  "foldl merged Map.empty [[''s'' \<mapsto> {PeerId ''p''}], [''t'' \<mapsto> {PeerId ''q''}]]
     = foldl merged Map.empty [[''t'' \<mapsto> {PeerId ''q''}], [''s'' \<mapsto> {PeerId ''p''}], [''t'' \<mapsto> {PeerId ''q''}]]"
  using shard_views_converge [of "[[''s'' \<mapsto> {PeerId ''p''}], [''t'' \<mapsto> {PeerId ''q''}]]"
      "[[''t'' \<mapsto> {PeerId ''q''}], [''s'' \<mapsto> {PeerId ''p''}], [''t'' \<mapsto> {PeerId ''q''}]]"]
  by (simp add: insert_commute)

text \<open>An image taken before a peer left brings the peer back: a merge cannot forget.\<close>

theorem stale_image_brings_peer_back:
  assumes "p \<in> members st sid"
  shows "p \<notin> members (update_shard_state p sid False st) sid
     \<and> p \<in> members (merged (update_shard_state p sid False st) st) sid"
  using assms by (simp add: update_members merged_members)

theorem stale_image_brings_peer_back_witness:
  "PeerId ''p'' \<in> members (merged (update_shard_state (PeerId ''p'') ''s'' False [''s'' \<mapsto> {PeerId ''p''}])
      [''s'' \<mapsto> {PeerId ''p''}]) ''s''"
  using stale_image_brings_peer_back [of "PeerId ''p''" "[''s'' \<mapsto> {PeerId ''p''}]" "''s''"]
  by (simp add: members_def)

text \<open>The image a node publishes reaches the other side intact: serving the RPC merges exactly
  the sender's view into the local one and answers with an empty message.\<close>

theorem published_view_is_merged:
  assumes "peer_text_ok cd" "json_ok cd (text_image cd remote)"
  shows "\<exists>ls'. handle_rpc_request cd peer channel (publish_message cd remote) ls = Some ls'
     \<and> shard_view (node ls') = merged (shard_view (node ls)) remote
     \<and> calls ls' = calls ls @ [RpcSendResponse channel []]"
proof -
  obtain b where b: "shard_image_to_bytes cd remote = Some b" "bytes_to_shard_image cd b = remote"
    using bytes_image_roundtrip [OF assms] by blast
  then show ?thesis
    by (simp add: handle_rpc_request_def publish_message_def index_def rpc_flags_ascii
        rpc_flags_differ serve_shard_sync_def send_response_def make_call_def update_node_def
        shard_view_def set_shard_view_def)
qed

lemma sample_image_ok:
  "json_ok (sample_codecs\<lparr>parse_peer := (\<lambda>s. Some (PeerId s))\<rparr>)
     (text_image (sample_codecs\<lparr>parse_peer := (\<lambda>s. Some (PeerId s))\<rparr>) [''s'' \<mapsto> {PeerId ''p''}])"
proof -
  have "text_image (sample_codecs\<lparr>parse_peer := (\<lambda>s. Some (PeerId s))\<rparr>) [''s'' \<mapsto> {PeerId ''p''}]
      = sample_image"
    by (auto simp: text_image_def sample_codecs_def sample_image_def)
  then show ?thesis by (simp add: json_ok_def sample_codecs_def)
qed

theorem published_view_is_merged_witness:
  "\<exists>ls'. handle_rpc_request (sample_codecs\<lparr>parse_peer := (\<lambda>s. Some (PeerId s))\<rparr>) (PeerId ''q'') 0
       (publish_message (sample_codecs\<lparr>parse_peer := (\<lambda>s. Some (PeerId s))\<rparr>) [''s'' \<mapsto> {PeerId ''p''}])
       (loop_start (sample_core 5)) = Some ls'
     \<and> members (shard_view (node ls')) ''s'' = {PeerId ''p''}"
proof -
  have "peer_text_ok (sample_codecs\<lparr>parse_peer := (\<lambda>s. Some (PeerId s))\<rparr>)"
    by (simp add: peer_text_ok_def sample_codecs_def split: peer_id.split)
  from published_view_is_merged [OF this sample_image_ok, of "PeerId ''q''" 0 "loop_start (sample_core 5)"]
  show ?thesis by (auto simp: loop_start_def merged_def members_def)
qed

section \<open>Placing and fetching data\<close>

text \<open>Asking a list of peers one after the other, whatever they say.\<close>

definition asked :: "env \<Rightarrow> byte_vector \<Rightarrow> peer_id list \<Rightarrow> core \<Rightarrow> core" where
  "asked env m ps c = foldl (\<lambda>c p. fst (query_network env (SendRpc m p) c)) c ps"

definition answer_at :: "env \<Rightarrow> byte_vector \<Rightarrow> peer_id list \<Rightarrow> nat \<Rightarrow> core \<Rightarrow> app_response_result" where
  "answer_at env m ps i c = snd (query_network env (SendRpc m (ps ! i)) (asked env m (take i ps) c))"

lemma answer_at_Suc:
  "answer_at env m (p # ps) (Suc i) c = answer_at env m ps i (fst (query_network env (SendRpc m p) c))"
  by (simp add: answer_at_def asked_def)

lemma answer_at_0: "answer_at env m (p # ps) 0 c = snd (query_network env (SendRpc m p) c)"
  by (simp add: answer_at_def asked_def)

lemma forward_to_ok:
  "i < length ps \<Longrightarrow> is_ok (answer_at env m ps i c) \<Longrightarrow> \<forall>j < i. \<not> is_ok (answer_at env m ps j c)
     \<Longrightarrow> forward_to env m ps c = (asked env m (take (Suc i) ps) c, True)"
proof (induction ps arbitrary: i c)
  case (Cons p ps)
  obtain c1 res where q: "query_network env (SendRpc m p) c = (c1, res)" by fastforce
  show ?case
  proof (cases i)
    case 0
    then show ?thesis
      using Cons.prems q by (auto simp: answer_at_0 asked_def is_ok_def split: sum.splits)
  next
    case (Suc k)
    have "\<not> is_ok res" using Cons.prems(3) Suc q by (auto simp: answer_at_0)
    moreover have "forward_to env m ps c1 = (asked env m (take (Suc k) ps) c1, True)"
    proof (rule Cons.IH)
      show "k < length ps" "is_ok (answer_at env m ps k c1)"
        using Cons.prems Suc q by (simp_all add: answer_at_Suc)
      show "\<forall>j < k. \<not> is_ok (answer_at env m ps j c1)"
      proof (intro allI impI)
        fix j assume "j < k"
        then have "\<not> is_ok (answer_at env m (p # ps) (Suc j) c)" using Cons.prems(3) Suc by simp
        then show "\<not> is_ok (answer_at env m ps j c1)" using q by (simp add: answer_at_Suc)
      qed
    qed
    ultimately show ?thesis
      using q Suc by (simp add: asked_def is_ok_def split: sum.splits)
  qed
qed simp

lemma forward_to_fails:
  "\<forall>j < length ps. \<not> is_ok (answer_at env m ps j c) \<Longrightarrow>
     forward_to env m ps c = (asked env m ps c, False)"
proof (induction ps arbitrary: c)
  case (Cons p ps)
  obtain c1 res where q: "query_network env (SendRpc m p) c = (c1, res)" by fastforce
  have all: "\<forall>j < length ps. \<not> is_ok (answer_at env m ps j c1)"
  proof (intro allI impI)
    fix j assume "j < length ps"
    then have "\<not> is_ok (answer_at env m (p # ps) (Suc j) c)" using Cons.prems by simp
    then show "\<not> is_ok (answer_at env m ps j c1)" using q by (simp add: answer_at_Suc)
  qed
  have "\<not> is_ok res" using Cons.prems q by (auto simp: answer_at_0 dest: spec [of _ 0])
  with Cons.IH [OF all] q show ?case by (simp add: asked_def is_ok_def split: sum.splits)
qed (simp add: asked_def)

text \<open>C23: Data for a shard the node is not in goes to the members in the shuffled order, to one after
  the other until one answers; only if none does the call fails, with
  \<open>DataForwardingError\<close>.\<close>

theorem shard_forwards_until_answered:
  assumes "locate key = Some sid" "shard_view c sid = Some nodes" "core_peer c \<notin> nodes"
    and "ps = shuffled env nodes" "m = shard_message sid data"
  shows "(\<forall>i < length ps. is_ok (answer_at env m ps i c) \<longrightarrow>
            (\<forall>j < i. \<not> is_ok (answer_at env m ps j c)) \<longrightarrow>
            shard locate env key data c = (asked env m (take (Suc i) ps) c, Inr None))
     \<and> ((\<forall>j < length ps. \<not> is_ok (answer_at env m ps j c)) \<longrightarrow>
            shard locate env key data c = (asked env m ps c, Inl DataForwardingError))"
  using assms forward_to_ok [of _ ps env m c] forward_to_fails [of ps env m c]
  by (simp add: shard_def)

definition sharded_sample :: core where
  "sharded_sample = set_shard_view [''s'' \<mapsto> {PeerId ''p''}] (sample_core 5)"

definition lone_env :: env where
  "lone_env = silent_env\<lparr>shuffled := (\<lambda>ps. if PeerId ''p'' \<in> ps then [PeerId ''p''] else [])\<rparr>"

theorem shard_forwards_until_answered_witness:
  "snd (shard (\<lambda>_ :: string. Some ''s'') (lone_env\<lparr>chan_open := False\<rparr>) ''k'' [''x''] sharded_sample)
     = Inl DataForwardingError"
proof -
  let ?env = "lone_env\<lparr>chan_open := False\<rparr>" and ?m = "shard_message ''s'' [''x'']"
  have "\<not> is_ok (answer_at ?env ?m [PeerId ''p''] 0 sharded_sample)"
    by (simp add: answer_at_0 query_network_def send_to_network_def send_with_id_def Let_def
        request_insert_def sharded_sample_def set_shard_view_def lone_env_def)
  moreover have "shard_view sharded_sample ''s'' = Some {PeerId ''p''}" "core_peer sharded_sample = PeerId ''k''"
    by (simp_all add: sharded_sample_def set_shard_view_def shard_view_def)
  moreover have "shuffled ?env {PeerId ''p''} = [PeerId ''p'']" by (simp add: lone_env_def)
  ultimately show ?thesis
    using shard_forwards_until_answered [of "\<lambda>_ :: string. Some ''s''" "''k''" "''s''" sharded_sample
        "{PeerId ''p''}" "[PeerId ''p'']" ?env ?m "[''x'']"] by simp
qed

text \<open>Data for a shard the node is a member of stays: it is replicated in the network of the shard
  and handed back, whatever becomes of the replication; nobody is asked by RPC. Fetching
  from such a shard gives nothing, the data being local.\<close>

theorem own_shard_is_served_locally:
  assumes "locate key = Some sid" "shard_view c sid = Some nodes" "core_peer c \<in> nodes"
  shows "shard locate env key data c = (fst (replicate_data env data sid c), Inr (Some data))
     \<and> fetch locate env key data c = (c, Inr None)"
  using assms by (simp add: shard_def fetch_def)

theorem own_shard_is_served_locally_witness:
  "snd (shard (\<lambda>_ :: string. Some ''s'') silent_env ''k'' [''x'']
     (set_shard_view [''s'' \<mapsto> {PeerId ''k''}] (sample_core 5))) = Inr (Some [''x''])"
  using own_shard_is_served_locally [of "\<lambda>_ :: string. Some ''s''" "''k''" "''s''"
      "set_shard_view [''s'' \<mapsto> {PeerId ''k''}] (sample_core 5)" "{PeerId ''k''}" silent_env "[''x'']"]
  by (simp add: shard_view_def set_shard_view_def)

lemma fetch_from_Some:
  "fetch_from env m ps c = (c', Some a) \<Longrightarrow>
     \<exists>i < length ps. answer_at env m ps i c = Inr (SendRpc_Resp a) \<and> c' = asked env m (take (Suc i) ps) c
       \<and> (\<forall>j < i. \<forall>b. answer_at env m ps j c \<noteq> Inr (SendRpc_Resp b))"
proof (induction ps arbitrary: c)
  case (Cons p ps)
  obtain c1 res where q: "query_network env (SendRpc m p) c = (c1, res)" by fastforce
  show ?case
  proof (cases "\<exists>b. res = Inr (SendRpc_Resp b)")
    case True
    then show ?thesis
      using Cons.prems q by (intro exI [of _ 0]) (auto simp: answer_at_0 asked_def)
  next
    case False
    then have "fetch_from env m ps c1 = (c', Some a)"
      using Cons.prems q by (auto split: sum.splits app_response.splits)
    from Cons.IH [OF this] obtain i where i: "i < length ps"
      "answer_at env m ps i c1 = Inr (SendRpc_Resp a)" "c' = asked env m (take (Suc i) ps) c1"
      "\<forall>j < i. \<forall>b. answer_at env m ps j c1 \<noteq> Inr (SendRpc_Resp b)" by blast
    have "\<forall>j < Suc i. \<forall>b. answer_at env m (p # ps) j c \<noteq> Inr (SendRpc_Resp b)"
      using i(4) False q by (auto simp: less_Suc_eq_0_disj answer_at_0 answer_at_Suc)
    then show ?thesis
      using i q by (intro exI [of _ "Suc i"]) (simp add: answer_at_Suc asked_def)
  qed
qed simp

text \<open>C24: What fetching returns is the answer of the first member, in the shuffled order, that
  answered with data; the members after it are not asked.\<close>

theorem fetch_returns_first_answer:
  assumes "locate key = Some sid" "shard_view c sid = Some nodes"
    and "fetch locate env key data c = (c', Inr (Some a))"
  shows "\<exists>i < length (shuffled env nodes).
      answer_at env (fetch_message data) (shuffled env nodes) i c = Inr (SendRpc_Resp a)
    \<and> c' = asked env (fetch_message data) (take (Suc i) (shuffled env nodes)) c
    \<and> (\<forall>j < i. \<forall>b. answer_at env (fetch_message data) (shuffled env nodes) j c \<noteq> Inr (SendRpc_Resp b))"
proof -
  have "fetch_from env (fetch_message data) (shuffled env nodes) c = (c', Some a)"
    using assms by (auto simp: fetch_def split: if_splits prod.splits option.splits)
  then show ?thesis by (rule fetch_from_Some)
qed

definition answering_env :: env where
  "answering_env = lone_env\<lparr>arrivals := (\<lambda>sid req n. if n = 0 then [ToApplication sid (SendRpc_Resp [''v''])] else [])\<rparr>"

theorem fetch_returns_first_answer_witness:
  "answer_at answering_env (fetch_message [''k'']) [PeerId ''p''] 0 sharded_sample = Inr (SendRpc_Resp [''v''])"
proof -
  have view: "shard_view sharded_sample ''s'' = Some {PeerId ''p''}" "core_peer sharded_sample = PeerId ''k''"
    "shuffled answering_env {PeerId ''p''} = [PeerId ''p'']"
    by (simp_all add: sharded_sample_def set_shard_view_def shard_view_def answering_env_def lone_env_def)
  let ?req = "SendRpc (fetch_message [''k'']) (PeerId ''p'')"
  have sent: "snd (send_to_network answering_env ?req sharded_sample) = Some (StreamId 1)"
    by (simp add: send_to_network_def send_with_id_def request_insert_def Let_def answering_env_def
        lone_env_def sharded_sample_def set_shard_view_def)
  have "snd (query_network answering_env ?req sharded_sample) = response_result (SendRpc_Resp [''v''])"
    by (rule query_answered [OF sent])
      (simp_all add: answering_env_def sharded_sample_def set_shard_view_def)
  then obtain c' where "query_network answering_env ?req sharded_sample = (c', Inr (SendRpc_Resp [''v'']))"
    by (cases "query_network answering_env ?req sharded_sample") (simp add: response_result_def)
  then have "fetch (\<lambda>_ :: string. Some ''s'') answering_env ''k'' [''k''] sharded_sample = (c', Inr (Some [''v'']))"
    by (simp add: fetch_def view)
  from fetch_returns_first_answer [OF _ view(1) this] show ?thesis by (auto simp: view)
qed

section \<open>Leaving\<close>

lemma handle_only: "(handle_network_response m c)\<lparr>response_buffer := rb\<rparr> = c\<lparr>response_buffer := rb\<rparr>"
  by (cases m) (simp_all add: handle_network_response_def)

lemma handle_all_only:
  "(foldl (\<lambda>c m. handle_network_response m c) c ms)\<lparr>response_buffer := rb\<rparr> = c\<lparr>response_buffer := rb\<rparr>"
  by (induction ms arbitrary: c) (simp_all add: handle_only)

text \<open>Waiting for a response changes the response buffer alone.\<close>

lemma recv_loop_only:
  "(fst (recv_loop arr sid n c))\<lparr>response_buffer := rb\<rparr> = c\<lparr>response_buffer := rb\<rparr>"
proof (induction "10 - n" arbitrary: n c)
  case 0
  then show ?case
    by (subst recv_loop.simps) (auto simp: Let_def case_prod_beta handle_all_only split: option.splits)
next
  case (Suc k)
  have "(fst (recv_loop arr sid (n + 1) c'))\<lparr>response_buffer := rb\<rparr> = c'\<lparr>response_buffer := rb\<rparr>" for c'
    by (rule Suc.hyps(1)) (use Suc.hyps(2) in simp)
  then show ?case
    by (subst recv_loop.simps) (auto simp: Let_def case_prod_beta handle_all_only split: option.splits)
qed

lemma request_buffer_query:
  assumes "chan_open env" "\<not> untracked req"
    and "card (req_buffer (request_buffer c)) < req_size (request_buffer c)"
  shows "request_buffer (fst (query_network env req c))
      = (request_buffer c)\<lparr>req_buffer := insert (take_id c) (req_buffer (request_buffer c))\<rparr>"
proof -
  have "snd (send_with_id env (take_id c) req c) = Some (take_id c)"
    by (rule send_accepts) (use assms in auto)
  then obtain c1 where c1: "send_with_id env (take_id c) req c = (c1, Some (take_id c))"
    by (metis prod.collapse)
  have "request_buffer (fst (recv_loop arr sid 0 c1)) = request_buffer c1" for arr sid
    using arg_cong [OF recv_loop_only [of undefined arr sid 0 c1], of request_buffer] by simp
  moreover have "request_buffer c1
      = (request_buffer c)\<lparr>req_buffer := insert (take_id c) (req_buffer (request_buffer c))\<rparr>"
    using c1 assms
    by (auto simp: send_with_id_def request_insert_def channel_send_def Let_def split: if_splits)
  ultimately show ?thesis
    using c1 by (simp add: query_network_def send_to_network_def take_id_def recv_from_network_def case_prod_beta)
qed

lemma update_shard_view_frame [simp]:
  "core_peer (update_shard_view p s j c) = core_peer c"
  "app_channel (update_shard_view p s j c) = app_channel c"
  "request_buffer (update_shard_view p s j c) = request_buffer c"
  "response_buffer (update_shard_view p s j c) = response_buffer c"
  "current_stream_id (update_shard_view p s j c) = current_stream_id c"
  "shard_net (update_shard_view p s j c) = shard_net c"
  "shard_view (update_shard_view p s j c) = update_shard_state p s j (shard_view c)"
  by (simp_all add: update_shard_view_def set_shard_view_def shard_net_def shard_view_def)

text \<open>A node that leaves its last shard announces the exit and then asks to join the shard network
  again instead of leaving it: the last request it sends is \<open>GossipsubJoinNetwork\<close>.\<close>

theorem last_exit_joins_again:
  assumes "chan_open env" "finite (req_buffer (request_buffer c))"
    and "card (req_buffer (request_buffer c)) + 2 \<le> req_size (request_buffer c)"
    and "\<not> in_any_shard (core_peer c)
           (shards (update_shard_state (core_peer c) sid False (shard_view c)))
           (update_shard_state (core_peer c) sid False (shard_view c))"
    and "is_ok (snd (query_network env
           (GossipsubBroadcastMessage (shard_net c) (exit_message cd (core_peer c) sid))
           (update_shard_view (core_peer c) sid False c)))"
  shows "\<exists>s1 s2. app_channel (fst (exit_network cd env shards sid c)) = app_channel c
     @ [FromApplication s1
          (GossipsubBroadcastMessage (shard_net c) (exit_message cd (core_peer c) sid)),
        FromApplication s2 (GossipsubJoinNetwork (shard_net c))]"
proof -
  let ?c1 = "update_shard_view (core_peer c) sid False c"
  let ?bc = "GossipsubBroadcastMessage (shard_net c) (exit_message cd (core_peer c) sid)"
  obtain c2 r where c2: "query_network env ?bc ?c1 = (c2, Inr r)"
    using assms(5) by (cases "query_network env ?bc ?c1") (auto simp: is_ok_def split: sum.splits)
  have room: "card (req_buffer (request_buffer ?c1)) < req_size (request_buffer ?c1)"
    using assms(3) by simp
  have ch: "app_channel c2 = app_channel c @ [FromApplication (take_id ?c1) ?bc]"
    using channel_query [OF assms(1) _ room, of ?bc] c2 by simp
  have "request_buffer c2
      = (request_buffer c)\<lparr>req_buffer := insert (take_id ?c1) (req_buffer (request_buffer c))\<rparr>"
    using request_buffer_query [OF assms(1) _ room, of ?bc] c2 by simp
  then have room2: "card (req_buffer (request_buffer c2)) < req_size (request_buffer c2)"
    using assms(2,3) by (simp add: card_insert_if)
  have frame: "core_peer c2 = core_peer c" "network_info c2 = network_info ?c1"
    using query_frame(1,4) [of env ?bc ?c1] c2 by simp_all
  then have view: "shard_view c2 = update_shard_state (core_peer c) sid False (shard_view c)"
    "shard_net c2 = shard_net c"
    using update_shard_view_frame(6,7) by (simp_all add: shard_view_def shard_net_def)
  let ?join = "GossipsubJoinNetwork (shard_net c)"
  have "fst (exit_network cd env shards sid c) = fst (query_network env ?join c2)"
    using c2 view frame assms(4)
    by (simp add: exit_network_def Let_def case_prod_beta split: sum.split)
  moreover have "app_channel (fst (query_network env ?join c2))
      = app_channel c2 @ [FromApplication (take_id c2) ?join]"
    by (rule channel_query [OF assms(1) _ room2]) simp
  ultimately show ?thesis using ch by auto
qed

definition gossip_env :: env where
  "gossip_env = silent_env\<lparr>arrivals := (\<lambda>sid req n. if n = 0 then [ToApplication sid GossipsubBroadcastSuccess] else [])\<rparr>"

theorem last_exit_joins_again_witness:
  "\<exists>s. FromApplication s (GossipsubJoinNetwork [])
     \<in> set (app_channel (fst (exit_network sample_codecs gossip_env (\<lambda>_. []) ''s''
            (set_shard_view [''s'' \<mapsto> {PeerId ''k''}] (sample_core 5)))))"
proof -
  let ?c = "set_shard_view [''s'' \<mapsto> {PeerId ''k''}] (sample_core 5)"
  let ?c1 = "update_shard_view (PeerId ''k'') ''s'' False ?c"
  let ?bc = "GossipsubBroadcastMessage [] (exit_message sample_codecs (PeerId ''k'') ''s'')"
  have c: "core_peer ?c = PeerId ''k''" "shard_net ?c = []"
    "request_buffer ?c = \<lparr>req_size = 5, req_buffer = {}\<rparr>"
    by (simp_all add: set_shard_view_def shard_net_def sample_core_def initial_core_def
        initial_info_def sample_builder_def with_stream_size_def with_config_def no_sharding_def
        sample_host_def sample_keys_def bootstrap_new_def request_buffer_new_def)
  have sent: "snd (send_to_network gossip_env ?bc ?c1) = Some (StreamId 1)"
    by (simp add: send_to_network_def send_with_id_def request_insert_def Let_def gossip_env_def
        set_shard_view_def)
  have "snd (query_network gossip_env ?bc ?c1) = response_result GossipsubBroadcastSuccess"
    by (rule query_answered [OF sent]) (simp_all add: gossip_env_def set_shard_view_def)
  then have ok: "is_ok (snd (query_network gossip_env ?bc ?c1))" by (simp add: response_result_def)
  show ?thesis
    using last_exit_joins_again [of gossip_env ?c "\<lambda>_. []" "''s''" sample_codecs] ok
    by (auto simp: c in_any_shard_def gossip_env_def)
qed

end
