(* ===== verification/Buffer_Tests.thy ===== *)
theory Buffer_Tests
  imports Sample_Nodes
begin

text \<open>
  The tests of \<open>swarm-nl/src/core/replication.rs\<close>, as functions of what the outside world
  contributes: the host on which the node is set up, the time stamps of the messages, the readings
  of the clock while a push makes room, and the random senders. A test is \<open>None\<close> when an assertion
  of it or an \<open>unwrap\<close> panics.
\<close>

section \<open>Assertions\<close>

type_synonym test = "unit option"

definition assert_true :: "bool \<Rightarrow> test" where
  "assert_true b = (if b then Some () else None)"

definition assert_eq :: "'a \<Rightarrow> 'a \<Rightarrow> test" where
  "assert_eq a b = assert_true (a = b)"

definition should_panic :: "'a option \<Rightarrow> test" where
  "should_panic r = assert_true (r = None)"

lemmas assertions = assert_true_def assert_eq_def should_panic_def

section \<open>The tests\<close>

definition CUSTOM_TCP_PORT :: port where "CUSTOM_TCP_PORT = 49666"
definition CUSTOM_UDP_PORT :: port where "CUSTOM_UDP_PORT = 49852"

record test_world =
  tw_codecs :: codecs
  tw_keys :: key_ops
  tw_host :: host
  stamps :: "u64 \<Rightarrow> seconds \<times> seconds"
  readings :: "u64 \<Rightarrow> nat \<Rightarrow> seconds"
  senders :: "u64 \<Rightarrow> peer_id"

definition setup_test_node :: "test_world \<Rightarrow> port \<times> port \<Rightarrow> core option" where
  "setup_test_node w pp =
     (let cfg = with_udp (snd pp) (with_tcp (fst pp) (bootstrap_new (tw_keys w))) in
      case build Tokio (tw_codecs w) (tw_host w) [] [] (with_config cfg) of
        (_, Inl _) \<Rightarrow> None
      | (_, Inr ls) \<Rightarrow> Some (node ls))"

definition test_initialization_with_default_config :: test where
  "test_initialization_with_default_config =
     assert_true (consistency_model (replica_buffer_new ReplDefault) = Eventual)"

definition test_initialization_with_custom_config :: test where
  "test_initialization_with_custom_config =
     (let buffer = replica_buffer_new (ReplCustom 200 (Some 120) 10 (Strong All_Peers) 15) in
      do {
        assert_true (consistency_model buffer = Strong All_Peers);
        assert_eq (queue_length (config buffer)) 200;
        assert_eq (expiry_time (config buffer)) (Some 120);
        assert_eq (sync_wait_time (config buffer)) 10;
        assert_eq (data_aging_period (config buffer)) 15
      })"

text \<open>A message of the tests; all have the same id, so their clocks tell them apart.\<close>

definition test_data :: "test_world \<Rightarrow> u64 \<Rightarrow> repl_buffer_data" where
  "test_data w clk =
     \<lparr>rdata = [''Data 1''], lamport_clock = clk, outgoing_timestamp = fst (stamps w clk),
      incoming_timestamp = snd (stamps w clk), message_id = ''msg1'', sender = senders w clk,
      confirmations = None\<rparr>"

definition test_push :: "test_world \<Rightarrow> u64 \<Rightarrow> replica_buffer_queue \<Rightarrow> replica_buffer_queue option" where
  "test_push w clk = push_public (readings w clk) ''network1'' (test_data w clk)"

fun test_fill :: "test_world \<Rightarrow> u64 list \<Rightarrow> replica_buffer_queue \<Rightarrow> replica_buffer_queue option" where
  "test_fill w [] rb = Some rb"
| "test_fill w (clk # clks) rb = do { rb1 \<leftarrow> test_push w clk rb; test_fill w clks rb1 }"

definition test_pop :: "replica_buffer_queue \<Rightarrow> (u64 \<times> replica_buffer_queue) option" where
  "test_pop rb =
     (case pop_front_queue ''network1'' rb of
        (None, _) \<Rightarrow> None
      | (Some d, rb1) \<Rightarrow> Some (lamport_clock d, rb1))"

definition test_length :: "replica_buffer_queue \<Rightarrow> nat option" where
  "test_length rb = map_option length (queue rb ''network1'')"

definition test_buffer_overflow_expiry_behavior :: "test_world \<Rightarrow> test" where
  "test_buffer_overflow_expiry_behavior w =
     do {
       network \<leftarrow> setup_test_node w (CUSTOM_TCP_PORT, CUSTOM_UDP_PORT);
       let buffer = replica_buffer_new (ReplCustom 4 (Some 2) 10 Eventual 10);
       b1 \<leftarrow> test_fill w [1, 2, 3, 4] buffer;
       (first, b2) \<leftarrow> test_pop b1;
       assert_eq first 1;
       n1 \<leftarrow> test_length b2;
       assert_eq n1 3;
       b3 \<leftarrow> test_push w 6 b2;
       n2 \<leftarrow> test_length b3;
       assert_eq n2 4;
       b4 \<leftarrow> test_push w 42 b3;
       (second, b5) \<leftarrow> test_pop b4;
       assert_eq second 6;
       (third, b6) \<leftarrow> test_pop b5;
       assert_eq third 42
     }"

definition test_buffer_overflow_no_expiry_behavior :: "test_world \<Rightarrow> test" where
  "test_buffer_overflow_no_expiry_behavior w =
     do {
       network \<leftarrow> setup_test_node w (15555, 6666);
       let buffer = replica_buffer_new (ReplCustom 4 None 10 Eventual 10);
       b1 \<leftarrow> test_fill w [1, 2, 3, 4] buffer;
       (first, b2) \<leftarrow> test_pop b1;
       assert_eq first 1;
       b3 \<leftarrow> test_push w 6 b2;
       (second, b4) \<leftarrow> test_pop b3;
       assert_eq second 2;
       (third, b5) \<leftarrow> test_pop b4;
       assert_eq third 3
     }"

definition test_pop_from_empty_buffer :: "test_world \<Rightarrow> test" where
  "test_pop_from_empty_buffer w =
     do {
       network \<leftarrow> setup_test_node w (15551, 6661);
       assert_true (fst (pop_front_queue ''network1'' (replica_buffer_new ReplDefault)) = None)
     }"

section \<open>What they show\<close>

lemma key_less: "repl_key (test_data w a) < repl_key (test_data w b) \<longleftrightarrow> a < b"
  "repl_key (test_data w a) = repl_key (test_data w b) \<longleftrightarrow> a = b"
  by (simp_all add: repl_key_def test_data_def)

text \<open>Pushing a newer message into a queue with room puts it at the end.\<close>

lemma insert_newest: "\<forall>c \<in> set clks. c < clk \<Longrightarrow>
    rset_insert (test_data w clk) (map (test_data w) clks) = map (test_data w) (clks @ [clk])"
proof (induction clks)
  case (Cons c clks)
  then have "c < clk" by simp
  then have "\<not> repl_key (test_data w clk) \<le> repl_key (test_data w c)" by (simp add: not_le key_less)
  with Cons show ?case by (auto simp: rset_insert_def key_less)
qed (simp add: rset_insert_def)

lemma push_with_room:
  assumes "queue rb ''network1'' = Some (map (test_data w) clks) \<or> queue rb ''network1'' = None \<and> clks = []"
    and "\<forall>c \<in> set clks. c < clk" "length clks < unat (fst (push_limits (config rb)))"
  shows "\<exists>rb'. test_push w clk rb = Some rb' \<and> queue rb' ''network1'' = Some (map (test_data w) (clks @ [clk]))
     \<and> config rb' = config rb"
proof -
  have "or_default (queue rb) ''network1'' = map (test_data w) clks"
    using assms(1) by (auto simp: or_default_def)
  moreover have "\<not> full (fst (push_limits (config rb))) (map (test_data w) clks)"
    using assms(3) by (simp add: full_def)
  ultimately show ?thesis
    by (simp add: test_push_def push_public_def push_queue_def evict_loop_room case_prod_beta
        insert_newest [OF assms(2)])
qed

lemma pop_oldest:
  assumes "queue rb ''network1'' = Some (map (test_data w) (c # clks))"
  shows "\<exists>rb'. test_pop rb = Some (c, rb') \<and> queue rb' ''network1'' = Some (map (test_data w) clks)
     \<and> config rb' = config rb"
  using assms by (simp add: test_pop_def pop_front_queue_def rset_remove_def test_data_def)

declare test_fill.simps [simp del]

lemma fill_four:
  assumes "push_limits cfg = (4, expiry)"
  shows "\<exists>rb. test_fill w [1, 2, 3, 4] (replica_buffer_new cfg) = Some rb
     \<and> queue rb ''network1'' = Some (map (test_data w) [1, 2, 3, 4]) \<and> config rb = cfg"
proof -
  let ?b0 = "replica_buffer_new cfg"
  have b0: "queue ?b0 ''network1'' = None" "config ?b0 = cfg" by (simp_all add: replica_buffer_new_def)
  obtain b1 where b1: "test_push w 1 ?b0 = Some b1" "queue b1 ''network1'' = Some (map (test_data w) [1])" "config b1 = cfg"
    using push_with_room [of ?b0 w "[]" 1] b0 assms by auto
  obtain b2 where b2: "test_push w 2 b1 = Some b2" "queue b2 ''network1'' = Some (map (test_data w) [1, 2])" "config b2 = cfg"
    using push_with_room [of b1 w "[1]" 2] b1(2,3) assms by auto
  obtain b3 where b3: "test_push w 3 b2 = Some b3" "queue b3 ''network1'' = Some (map (test_data w) [1, 2, 3])" "config b3 = cfg"
    using push_with_room [of b2 w "[1, 2]" 3] b2(2,3) assms by auto
  obtain b4 where b4: "test_push w 4 b3 = Some b4" "queue b4 ''network1'' = Some (map (test_data w) [1, 2, 3, 4])" "config b4 = cfg"
    using push_with_room [of b3 w "[1, 2, 3]" 4] b3(2,3) assms by auto
  show ?thesis using b1(1) b2(1) b3(1) b4 by (simp add: test_fill.simps)
qed

text \<open>What the first part of both tests leaves: 2, 3, 4 and 6.\<close>

lemma filled_and_popped:
  assumes "push_limits cfg = (4, expiry)"
  shows "\<exists>b1 b2 b3. test_fill w [1, 2, 3, 4] (replica_buffer_new cfg) = Some b1 \<and> test_pop b1 = Some (1, b2)
     \<and> test_length b2 = Some 3 \<and> test_push w 6 b2 = Some b3 \<and> test_length b3 = Some 4
     \<and> queue b3 ''network1'' = Some (map (test_data w) [2, 3, 4, 6]) \<and> config b3 = cfg"
proof -
  obtain b1 where b1: "test_fill w [1, 2, 3, 4] (replica_buffer_new cfg) = Some b1"
    "queue b1 ''network1'' = Some (map (test_data w) (1 # [2, 3, 4]))" "config b1 = cfg"
    using fill_four [OF assms, of w] by auto
  obtain b2 where b2: "test_pop b1 = Some (1, b2)" "queue b2 ''network1'' = Some (map (test_data w) [2, 3, 4])"
    "config b2 = cfg" using pop_oldest [OF b1(2)] b1(3) by auto
  obtain b3 where b3: "test_push w 6 b2 = Some b3"
    "queue b3 ''network1'' = Some (map (test_data w) [2, 3, 4, 6])" "config b3 = cfg"
    using push_with_room [of b2 w "[2, 3, 4]" 6] b2(2,3) assms by auto
  have "test_length b2 = Some 3" "test_length b3 = Some 4" by (simp_all add: test_length_def b2(2) b3(2))
  with b1(1) b2(1) b3 show ?thesis by blast
qed

lemma expired_data: "expired 2 now (test_data w clk) \<longleftrightarrow> 2 \<le> saturating_sub now (fst (stamps w clk))"
  by (simp add: expired_def test_data_def)

lemma push_into_full:
  assumes "queue rb ''network1'' = Some (map (test_data w) [2, 3, 4, 6])" "push_limits (config rb) = (4, Some 2)"
    and "\<forall>clk \<in> {2, 3, 4}. 2 \<le> saturating_sub (readings w 42 0) (fst (stamps w clk))"
  shows "\<exists>rb'. test_push w 42 rb = Some rb' \<and> queue rb' ''network1'' = Some (map (test_data w)
     (if 2 \<le> saturating_sub (readings w 42 0) (fst (stamps w 6)) then [42] else [6, 42]))"
proof -
  let ?old = "2 \<le> saturating_sub (readings w 42 0) (fst (stamps w 6))"
  let ?q = "map (test_data w) [2, 3, 4, 6]" and ?rest = "map (test_data w) (if ?old then [] else [6])"
  have "rset_wf ?q" by (simp add: rset_wf_def key_less)
  then have "evict_round 4 (Some 2) (readings w 42 0) ?q = ?rest"
    using assms(3) by (simp add: evict_round_eq unexpired_def expired_data full_def Let_def)
  moreover have "full (4 :: u64) ?q" "\<not> full (4 :: u64) ?rest" by (simp_all add: full_def)
  ultimately have "evict_loop 4 (Some 2) (readings w 42) 0 ?q = Some ?rest"
    by (subst evict_loop.simps) (simp add: evict_loop_room)
  moreover have "or_default (queue rb) ''network1'' = ?q" using assms(1) by (simp add: or_default_def)
  moreover have "rset_insert (test_data w 42) ?rest = map (test_data w) (if ?old then [42] else [6, 42])"
    using insert_newest [of "if ?old then [] else [6]" 42 w] by (simp split: if_splits)
  ultimately show ?thesis
    using assms(2) by (simp add: test_push_def push_public_def push_queue_def)
qed

text \<open>C39: The test of expiry passes exactly if less than two seconds go by between the time stamp of its
  fifth message and the push of its sixth: it takes for granted that messages two seconds old go
  and younger ones stay, and that the pushes themselves take no time.\<close>

theorem expiry_test_passes_iff_fast:
  assumes "setup_test_node w (CUSTOM_TCP_PORT, CUSTOM_UDP_PORT) \<noteq> None"
    and "\<forall>clk \<in> {2, 3, 4}. 2 \<le> saturating_sub (readings w 42 0) (fst (stamps w clk))"
  shows "test_buffer_overflow_expiry_behavior w = Some ()
     \<longleftrightarrow> saturating_sub (readings w 42 0) (fst (stamps w 6)) < 2"
proof -
  obtain c where c: "setup_test_node w (CUSTOM_TCP_PORT, CUSTOM_UDP_PORT) = Some c" using assms(1) by blast
  obtain b1 b2 b3 where b: "test_fill w [1, 2, 3, 4] (replica_buffer_new (ReplCustom 4 (Some 2) 10 Eventual 10)) = Some b1"
    "test_pop b1 = Some (1, b2)" "test_length b2 = Some 3" "test_push w 6 b2 = Some b3" "test_length b3 = Some 4"
    "queue b3 ''network1'' = Some (map (test_data w) [2, 3, 4, 6])"
    "config b3 = ReplCustom 4 (Some 2) 10 Eventual 10"
    using filled_and_popped [of "ReplCustom 4 (Some 2) 10 Eventual 10" "Some 2" w] by (auto simp: push_limits_def)
  then obtain b4 where b4: "test_push w 42 b3 = Some b4"
    "queue b4 ''network1'' = Some (map (test_data w)
       (if 2 \<le> saturating_sub (readings w 42 0) (fst (stamps w 6)) then [42] else [6, 42]))"
    using push_into_full [OF b(6) _ assms(2)] by (auto simp: push_limits_def)
  show ?thesis
  proof (cases "2 \<le> saturating_sub (readings w 42 0) (fst (stamps w 6))")
    case True
    then obtain b5 where "test_pop b4 = Some (42, b5)" using pop_oldest [of b4 w 42 "[]"] b4(2) by auto
    then show ?thesis
      using True c b b4(1) by (simp add: test_buffer_overflow_expiry_behavior_def assertions)
  next
    case False
    then obtain b5 where b5: "test_pop b4 = Some (6, b5)" "queue b5 ''network1'' = Some (map (test_data w) [42])"
      using pop_oldest [of b4 w 6 "[42]"] b4(2) by auto
    then obtain b6 where "test_pop b5 = Some (42, b6)" using pop_oldest [of b5 w 42 "[]"] by auto
    then show ?thesis
      using False c b b4(1) b5(1) by (simp add: test_buffer_overflow_expiry_behavior_def assertions)
  qed
qed

text \<open>The other tests pass whenever the node can be set up.\<close>

theorem buffer_tests_pass:
  assumes "setup_test_node w (15555, 6666) \<noteq> None" "setup_test_node w (15551, 6661) \<noteq> None"
  shows "test_initialization_with_default_config = Some ()"
    "test_initialization_with_custom_config = Some ()"
    "test_buffer_overflow_no_expiry_behavior w = Some ()"
    "test_pop_from_empty_buffer w = Some ()"
proof -
  obtain b1 b2 b3 where b: "test_fill w [1, 2, 3, 4] (replica_buffer_new (ReplCustom 4 None 10 Eventual 10)) = Some b1"
    "test_pop b1 = Some (1, b2)" "test_push w 6 b2 = Some b3"
    "queue b3 ''network1'' = Some (map (test_data w) (2 # [3, 4, 6]))"
    using filled_and_popped [of "ReplCustom 4 None 10 Eventual 10" None w] by (auto simp: push_limits_def)
  obtain b4 where b4: "test_pop b3 = Some (2, b4)" "queue b4 ''network1'' = Some (map (test_data w) (3 # [4, 6]))"
    using pop_oldest [OF b(4)] by auto
  obtain b5 where "test_pop b4 = Some (3, b5)" using pop_oldest [OF b4(2)] by auto
  then show "test_buffer_overflow_no_expiry_behavior w = Some ()"
    using assms(1) b(1-3) b4(1) by (auto simp: test_buffer_overflow_no_expiry_behavior_def assertions)
  show "test_initialization_with_default_config = Some ()"
    by (simp add: test_initialization_with_default_config_def assertions consistency_model_def replica_buffer_new_def)
  show "test_initialization_with_custom_config = Some ()"
    by (simp add: test_initialization_with_custom_config_def assertions consistency_model_def replica_buffer_new_def Let_def)
  show "test_pop_from_empty_buffer w = Some ()"
    using assms(2) by (auto simp: test_pop_from_empty_buffer_def assertions pop_front_queue_def replica_buffer_new_def)
qed

text \<open>A world in which the test takes three seconds, all of them in the sleep.\<close>

definition sample_world :: test_world where
  "sample_world = \<lparr>tw_codecs = sample_codecs, tw_keys = sample_keys, tw_host = sample_host,
     stamps = (\<lambda>clk. if clk < 5 then (100, 100) else (103, 103)), readings = (\<lambda>_ _. 103),
     senders = (\<lambda>_. PeerId ''p'')\<rparr>"

lemma sample_world_setup: "setup_test_node sample_world pp \<noteq> None"
  by (simp add: setup_test_node_def sample_world_def build_def build_swarm_def build_swarm_tokio_def
      start_listening_def sample_host_def with_config_def Let_def)

theorem expiry_test_passes_iff_fast_witness:
  "test_buffer_overflow_expiry_behavior sample_world = Some ()"
proof -
  have "2 \<le> saturating_sub (readings sample_world 42 0) (fst (stamps sample_world clk))" if "clk \<in> {2, 3, 4}" for clk
    using that by (auto simp: sample_world_def saturating_sub_def)
  then have "test_buffer_overflow_expiry_behavior sample_world = Some ()
      \<longleftrightarrow> saturating_sub (readings sample_world 42 0) (fst (stamps sample_world 6)) < 2"
    using expiry_test_passes_iff_fast [OF sample_world_setup] by blast
  then show ?thesis by (simp add: sample_world_def saturating_sub_def)
qed

theorem buffer_tests_pass_witness: "test_pop_from_empty_buffer sample_world = Some ()"
  by (rule buffer_tests_pass(4) [OF sample_world_setup sample_world_setup])

end
