(* ===== verification/Config_Props.thy ===== *)
theory Config_Props
  imports Sample_Nodes
begin

text \<open>
  What the configuration guarantees (\<open>swarm-nl/src/setup.rs\<close>, the INI functions of
  \<open>util.rs\<close>, \<open>CoreBuilder\<close> and \<open>save_keypair_offline\<close> of \<open>core/mod.rs\<close>).
\<close>

section \<open>Ports\<close>

definition ports_ok :: "bootstrap_config \<Rightarrow> bool" where
  "ports_ok c \<longleftrightarrow> MIN_PORT \<le> tcp_port c \<and> tcp_port c \<le> MAX_PORT
     \<and> MIN_PORT \<le> udp_port c \<and> udp_port c \<le> MAX_PORT"

lemma ports_ok_setters:
  "ports_ok c \<Longrightarrow> ports_ok (with_tcp p c)" "ports_ok c \<Longrightarrow> ports_ok (with_udp p c)"
  "ports_ok (with_bootnodes ns c) = ports_ok c" "ports_ok (with_blacklist bl c) = ports_ok c"
  by (auto simp: ports_ok_def with_tcp_def with_udp_def with_bootnodes_def with_blacklist_def)

lemma ports_ok_new: "ports_ok (bootstrap_new ko)"
  by (simp add: ports_ok_def bootstrap_new_def MIN_PORT_def MAX_PORT_def)

lemma ports_ok_generated:
  "generate_keypair_from_protobuf ko kt b c = Some c' \<Longrightarrow> ports_ok c \<Longrightarrow> ports_ok c'"
  by (auto simp: generate_keypair_from_protobuf_def ports_ok_def split: option.splits key_type.splits)

text \<open>C40: Whatever the file says, a configuration read from it listens on ports between \<open>MIN_PORT\<close>
  and \<open>MAX_PORT\<close>.\<close>

theorem file_ports_in_range:
  assumes "from_file cd ko files path = Some c"
  shows "MIN_PORT \<le> fst (ports c) \<and> fst (ports c) \<le> MAX_PORT
     \<and> MIN_PORT \<le> snd (ports c) \<and> snd (ports c) \<le> MAX_PORT"
proof -
  have "ports_ok c"
    using assms ports_ok_generated [OF _ ports_ok_new]
    by (auto simp: from_file_def read_ini_file_def Let_def case_prod_beta ports_ok_setters
        split: option.splits sum.splits)
  then show ?thesis by (simp add: ports_ok_def ports_def)
qed

definition sample_files :: "string \<rightharpoonup> ini_doc" where
  "sample_files =
     [''boot.ini'' \<mapsto> [''ports'' \<mapsto> [''tcp'' \<mapsto> ''70'', ''udp'' \<mapsto> ''5000''], ''bootstrap'' \<mapsto> Map.empty]]"

definition plain_codecs :: codecs where
  "plain_codecs =
     \<lparr>peer_str = (\<lambda>p. case p of PeerId b \<Rightarrow> b), parse_peer = (\<lambda>s. Some (PeerId s)),
      base58_peer = (\<lambda>s. Some (PeerId s)), parse_addr = (\<lambda>s. Some s),
      image_json = (\<lambda>_. None), json_image = (\<lambda>_. None)\<rparr>"

lemma sample_ports: "parse_port ''70'' = 70" "parse_port ''5000'' = 5000"
  by (simp_all add: parse_port_def parse_u16_def parse_uint_def code_of_def)

lemma sample_file_read:
  "map_option ports (from_file plain_codecs sample_keys sample_files ''boot.ini'') = Some (1000, 5000)"
  by (simp add: from_file_def read_ini_file_def sample_files_def ini_ports_def get_default_def
      sample_ports ini_auth_def generate_keypair_from_protobuf_def key_type_from_def with_tcp_def
      with_udp_def with_bootnodes_def with_blacklist_def bootstrap_new_def ports_def MIN_PORT_def
      MAX_PORT_def Let_def)

theorem file_ports_in_range_witness:
  "\<exists>c. from_file plain_codecs sample_keys sample_files ''boot.ini'' = Some c
     \<and> MIN_PORT \<le> fst (ports c) \<and> snd (ports c) = 5000"
proof (cases "from_file plain_codecs sample_keys sample_files ''boot.ini''")
  case None
  with sample_file_read show ?thesis by simp
next
  case (Some c)
  from file_ports_in_range [OF Some] Some sample_file_read show ?thesis by simp
qed

section \<open>The list of bytes in the file\<close>

definition digit :: "char \<Rightarrow> bool" where
  "digit c \<longleftrightarrow> 48 \<le> code_of c \<and> code_of c \<le> 57"

lemma digit_neq: "digit c \<Longrightarrow> c \<noteq> CHR '','' \<and> c \<noteq> CHR ''['' \<and> c \<noteq> CHR '']'' \<and> c \<noteq> CHR '' ''"
  by (auto simp: digit_def code_of_def)

lemma show_nat_digit: "c \<in> set (show_nat n) \<Longrightarrow> digit c"
  using show_nat_digits by (simp add: digit_def)

lemma strip_start_digit:
  assumes "list_all (\<lambda>w. w \<noteq> [] \<and> \<not> digit (hd w)) encs" "digit c"
  shows "strip_start encs (c # s) = c # s"
proof -
  have "find (\<lambda>w. prefix w (c # s)) encs = None"
    using assms by (auto simp: find_None_iff list_all_iff) (metis list.sel(1) prefix_Cons)
  then show ?thesis by (subst strip_start.simps) (simp add: ws_prefix_len_def)
qed

lemma ws_not_digit:
  "list_all (\<lambda>w. w \<noteq> [] \<and> \<not> digit (hd w)) ws_encodings"
  "list_all (\<lambda>w. w \<noteq> [] \<and> \<not> digit (hd w)) (map rev ws_encodings)"
  by (simp_all add: ws_encodings_def digit_def code_of_def)

lemma ws_encodings_eq:
  "ws_encodings = [[CHR 0x09], [CHR 0x0A], [CHR 0x0B], [CHR 0x0C], [CHR 0x0D], [CHR 0x20], [CHR 0xC2, CHR 0x85],
     [CHR 0xC2, CHR 0xA0], [CHR 0xE1, CHR 0x9A, CHR 0x80], [CHR 0xE2, CHR 0x80, CHR 0x80],
     [CHR 0xE2, CHR 0x80, CHR 0x81], [CHR 0xE2, CHR 0x80, CHR 0x82], [CHR 0xE2, CHR 0x80, CHR 0x83],
     [CHR 0xE2, CHR 0x80, CHR 0x84], [CHR 0xE2, CHR 0x80, CHR 0x85], [CHR 0xE2, CHR 0x80, CHR 0x86],
     [CHR 0xE2, CHR 0x80, CHR 0x87], [CHR 0xE2, CHR 0x80, CHR 0x88], [CHR 0xE2, CHR 0x80, CHR 0x89],
     [CHR 0xE2, CHR 0x80, CHR 0x8A], [CHR 0xE2, CHR 0x80, CHR 0xA8], [CHR 0xE2, CHR 0x80, CHR 0xA9],
     [CHR 0xE2, CHR 0x80, CHR 0xAF], [CHR 0xE2, CHR 0x81, CHR 0x9F], [CHR 0xE3, CHR 0x80, CHR 0x80]]"
  by code_simp

lemma strip_start_space: "strip_start ws_encodings (CHR '' '' # s) = strip_start ws_encodings s"
proof -
  have "ws_prefix_len ws_encodings (CHR '' '' # s) = 1"
    by (simp add: ws_prefix_len_def ws_encodings_eq)
  then show ?thesis by (subst strip_start.simps) simp
qed

lemma strip_start_digits:
  assumes "list_all (\<lambda>w. w \<noteq> [] \<and> \<not> digit (hd w)) encs" "s \<noteq> []" "list_all digit s"
  shows "strip_start encs s = s"
  using assms strip_start_digit by (cases s) auto

lemma trim_digits:
  assumes "s \<noteq> []" "list_all digit s"
  shows "trim s = s" "trim (CHR '' '' # s) = s"
proof -
  have "strip_start (map rev ws_encodings) (rev s) = rev s"
    by (rule strip_start_digits [OF ws_not_digit(2)]) (use assms in simp_all)
  moreover have "strip_start ws_encodings s = s"
    by (rule strip_start_digits [OF ws_not_digit(1) assms])
  ultimately show "trim s = s" "trim (CHR '' '' # s) = s"
    by (simp_all add: trim_def strip_start_space)
qed

lemma join_comma: "join_with '', '' (p # ps) = p @ concat (map (\<lambda>d. '', '' @ d) ps)"
  by (induction ps arbitrary: p) simp_all

lemma split_comma:
  assumes "CHR '','' \<notin> set p" "list_all (\<lambda>d. CHR '','' \<notin> set d) ps"
  shows "split_on '','' (p @ concat (map (\<lambda>d. '', '' @ d) ps)) = p # map (\<lambda>d. CHR '' '' # d) ps"
  using assms
proof (induction ps arbitrary: p)
  case Nil
  then show ?case by (simp add: clean_split clean_disjoint)
next
  case (Cons d ps)
  have "split_on '','' (p @ '','' @ ((CHR '' '' # d) @ concat (map (\<lambda>d. '', '' @ d) ps)))
      = p # split_on '','' ((CHR '' '' # d) @ concat (map (\<lambda>d. '', '' @ d) ps))"
    by (rule clean_split_append) (use Cons.prems in \<open>auto intro: clean_disjoint\<close>)
  also have "split_on '','' ((CHR '' '' # d) @ concat (map (\<lambda>d. '', '' @ d) ps))
      = (CHR '' '' # d) # map (\<lambda>d. CHR '' '' # d) ps"
    by (rule Cons.IH) (use Cons.prems in auto)
  finally show ?case by simp
qed

lemma trim_brackets_wrapped:
  assumes "CHR ''['' \<notin> set s" "CHR '']'' \<notin> set s"
  shows "trim_brackets (''['' @ s @ '']'') = s"
proof -
  let ?br = "\<lambda>c. c = CHR ''['' \<or> c = CHR '']''"
  have drop: "dropWhile ?br t = t" if "CHR ''['' \<notin> set t" "CHR '']'' \<notin> set t" for t
    using that by (cases t) auto
  show ?thesis
  proof (cases s)
    case Nil
    then show ?thesis by (simp add: trim_brackets_def)
  next
    case (Cons c cs)
    then have "dropWhile ?br (s @ '']'') = s @ '']''" using assms by auto
    moreover have "dropWhile ?br (rev s) = rev s" by (rule drop) (use assms in auto)
    ultimately show ?thesis by (simp add: trim_brackets_def)
  qed
qed

lemma code_of_bound: "code_of c \<le> 255"
proof -
  have "(of_char c :: nat) < 256"
    using range_nat_of_char by (metis atLeastLessThan_iff rangeI)
  then show ?thesis unfolding code_of_def by linarith
qed

lemma bytes_text_round_trip: "string_to_vec parse_u8 (debug_bytes b) = map code_of b"
proof -
  let ?ds = "map (\<lambda>c. show_nat (code_of c)) b"
  have chars: "c \<in> set (join_with '', '' ds) \<Longrightarrow> c \<in> \<Union> (set ` set ds) \<union> {CHR '','', CHR '' ''}" for c ds
    by (induction ds rule: induct_list012) auto
  have "digit c \<or> c \<in> {CHR '','', CHR '' ''}" if "c \<in> set (join_with '', '' ?ds)" for c
    using chars [OF that] show_nat_digit by auto
  then have "CHR ''['' \<notin> set (join_with '', '' ?ds)" "CHR '']'' \<notin> set (join_with '', '' ?ds)"
    using digit_neq by blast+
  then have body: "trim_brackets (debug_bytes b) = join_with '', '' ?ds"
    unfolding debug_bytes_def by (rule trim_brackets_wrapped)
  show ?thesis
  proof (cases b)
    case Nil
    have "trim [] = []" by (simp add: trim_def strip_start.simps)
    with Nil body show ?thesis
      by (simp add: string_to_vec_def List.map_filter_simps parse_u8_def parse_uint_def)
  next
    case (Cons c cs)
    have "split_on '','' (join_with '', '' ?ds)
        = show_nat (code_of c) # map (\<lambda>d. CHR '' '' # d) (map (\<lambda>c. show_nat (code_of c)) cs)"
      unfolding Cons list.map join_comma
      by (rule split_comma) (use show_nat_digit digit_neq in \<open>auto simp: list_all_iff\<close>)
    moreover have "parse_u8 (trim (show_nat (code_of x))) = Some (code_of x)"
      "parse_u8 (trim (CHR '' '' # show_nat (code_of x))) = Some (code_of x)" for x
      using trim_digits [of "show_nat (code_of x)"] show_nat_digit code_of_bound
      by (simp_all add: list_all_iff parse_u8_def parse_show)
    moreover have "List.map_filter (\<lambda>s. parse_u8 (trim s))
        (map (\<lambda>d. CHR '' '' # d) (map (\<lambda>c. show_nat (code_of c)) cs)) = map code_of cs"
      using calculation(3) by (induction cs) (simp_all add: List.map_filter_simps)
    ultimately show ?thesis
      using body Cons by (simp add: string_to_vec_def List.map_filter_simps)
  qed
qed

section \<open>Saving the key pair\<close>

lemma save_keypair_doc:
  assumes "save_keypair_offline ko creatable writable kp path files = Some (files', True)"
  shows "\<exists>proto doc doc'. to_protobuf_encoding ko kp = Some proto
     \<and> (files path = Some doc \<or> files path = None \<and> doc = Map.empty) \<and> files' path = Some doc'
     \<and> (\<forall>s. s \<noteq> ''auth'' \<longrightarrow> doc' s = doc s)
     \<and> doc' ''auth'' = Some ((case doc ''auth'' of None \<Rightarrow> Map.empty | Some m \<Rightarrow> m)
          (''protobuf_keypair'' \<mapsto> debug_bytes proto,
           ''Crypto'' \<mapsto> key_type_name (keypair_type kp)))"
  using assms
  by (auto simp: save_keypair_offline_def write_config_def Let_def split: option.splits if_splits)

text \<open>The bytes of a saved key pair are read back from the file unchanged.\<close>

theorem saved_key_bytes_read_back:
  assumes "save_keypair_offline ko creatable writable kp path files = Some (files', True)"
  shows "\<exists>proto doc'. to_protobuf_encoding ko kp = Some proto \<and> files' path = Some doc'
     \<and> snd (ini_auth doc') = proto"
  using save_keypair_doc [OF assms]
  by (auto simp: ini_auth_def get_default_def bytes_text_round_trip code_of_def comp_def)

lemma sample_saved:
  "\<exists>files'. save_keypair_offline sample_keys (\<lambda>_. True) (\<lambda>_. True) (Keypair Ed25519 ''k'') ''boot.ini''
     sample_files = Some (files', True)"
  by (simp add: save_keypair_offline_def write_config_def sample_files_def sample_keys_def)

theorem saved_key_bytes_read_back_witness:
  "\<exists>files' doc'. files' ''boot.ini'' = Some doc' \<and> snd (ini_auth doc') = ''k''"
  using sample_saved saved_key_bytes_read_back
  by (fastforce simp: sample_keys_def)

section \<open>Building a node\<close>

text \<open>A node never dials a bootnode of its blacklist, nor puts it in its routing table, and the
  blacklist is handed to the swarm entry by entry.\<close>

theorem blacklisted_bootnodes_are_skipped:
  assumes "build rt cd h nodes blocked b = (cs, Inr ls)" "p \<in> list_of (cb_blacklist b)"
  shows "SwarmDial a (Some p) \<notin> set cs \<and> KadAddAddress p a \<notin> set cs
     \<and> (p \<in> set blocked \<longrightarrow> GossipBlacklist p \<in> set cs)"
proof -
  have "q \<notin> list_of (cb_blacklist b)"
    if "(q, x) \<in> set (List.map_filter (bootnode_target cd (cb_blacklist b)) nodes)" for q x
    using map_filter_SomeD [OF that] bootnode_target_allowed by blast
  then have "SwarmDial a (Some p) \<notin> set (fst (dial_bootnodes cd h (cb_blacklist b) nodes))"
    "KadAddAddress p a \<notin> set (fst (dial_bootnodes cd h (cb_blacklist b) nodes))"
    using dial_bootnodes_calls [of cd h "cb_blacklist b" nodes] assms(2) by fastforce+
  then show ?thesis using build_ok [OF assms(1)] by auto
qed

theorem blacklisted_bootnodes_are_skipped_witness:
  "\<exists>cs ls. build Tokio sample_codecs sample_host [(''p'', ''/x''), (''q'', ''/y'')] [PeerId ''p'']
       ((sample_builder 5)\<lparr>cb_blacklist := \<lparr>list_of = {PeerId ''p''}\<rparr>\<rparr>) = (cs, Inr ls)
     \<and> SwarmDial ''/x'' (Some (PeerId ''p'')) \<notin> set cs \<and> GossipBlacklist (PeerId ''p'') \<in> set cs
     \<and> SwarmDial ''/y'' (Some (PeerId ''q'')) \<in> set cs"
proof -
  let ?b = "(sample_builder 5)\<lparr>cb_blacklist := \<lparr>list_of = {PeerId ''p''}\<rparr>\<rparr>"
  obtain cs ls where b: "build Tokio sample_codecs sample_host [(''p'', ''/x''), (''q'', ''/y'')] [PeerId ''p''] ?b
      = (cs, Inr ls)" "SwarmDial ''/y'' (Some (PeerId ''q'')) \<in> set cs"
    by (simp add: build_def build_swarm_def build_swarm_tokio_def start_listening_def sample_host_def
        sample_builder_def with_stream_size_def with_config_def bootnode_target_def sample_codecs_def Let_def)
  from blacklisted_bootnodes_are_skipped [OF b(1), of "PeerId ''p''" "''/x''"] b show ?thesis by auto
qed

end
