(* ===== verification/Example_Common.thy ===== *)
theory Example_Common
  imports Shard_Ops Builder
begin

text \<open>
  What the example programs (\<open>examples/\<close>) share: the string functions of the standard
  library their menus use, the texts of \<open>NetworkError\<close>, the way they set up a node from a
  fixed key pair and the other nodes' addresses, and the loop that reports the events of
  the setup.

  A program is a state that holds the node's \<open>Core\<close>, what it has printed (\<open>screen\<close>, one
  entry for each line) and its own data. The events that reach it are those of the event
  queue of the \<open>Core\<close>; what is typed is a list of input lines. \<open>None\<close> is a panic.
\<close>

section \<open>Strings\<close>

text \<open>\<open>str::split_whitespace\<close>: the non-empty pieces between white space.\<close>

function ws_pieces :: "string \<Rightarrow> string list" where
  "ws_pieces [] = [[]]"
| "ws_pieces (c # cs) =
     (let n = ws_prefix_len ws_encodings (c # cs) in
      if n \<noteq> 0 then [] # ws_pieces (drop (n - 1) cs)
      else (case ws_pieces cs of [] \<Rightarrow> [[c]] | p # ps \<Rightarrow> (c # p) # ps))"
  by pat_completeness auto
termination by (relation "measure length") auto

definition split_whitespace :: "string \<Rightarrow> string list" where
  "split_whitespace s = filter (\<lambda>p. p \<noteq> []) (ws_pieces s)"

text \<open>\<open>str::lines\<close>: the end of a line is a line feed with the carriage return before it, and
  nothing after the last one is no line.\<close>

definition strip_cr :: "string \<Rightarrow> string" where
  "strip_cr s = (if s \<noteq> [] \<and> code_of (last s) = 13 then butlast s else s)"

definition lines_of :: "string \<Rightarrow> string list" where
  "lines_of s =
     (let ps = split_on [char_of (10 :: nat)] s in
      map strip_cr (butlast ps) @ (if last ps = [] then [] else [last ps]))"

text \<open>\<open>str::parse::<i32>\<close>: a sign, then at least one digit, in the range of the type.\<close>

definition parse_i32 :: "string \<Rightarrow> int option" where
  "parse_i32 s =
     (let (neg, t) =
            (case s of
               [] \<Rightarrow> (False, [])
             | c # cs \<Rightarrow> if c = CHR ''-'' then (True, cs)
                 else if c = CHR ''+'' then (False, cs) else (False, s)) in
      if t = [] then None
      else (case digits_val 0 t of
              None \<Rightarrow> None
            | Some n \<Rightarrow>
                (if neg then (if n \<le> 2 ^ 31 then Some (- int n) else None)
                 else (if n \<le> 2 ^ 31 - 1 then Some (int n) else None))))"

text \<open>\<open>trim_matches\<close> of one character.\<close>

definition trim_char :: "char \<Rightarrow> string \<Rightarrow> string" where
  "trim_char c s = rev (dropWhile (\<lambda>x. x = c) (rev (dropWhile (\<lambda>x. x = c) s)))"

text \<open>The \<open>Display\<close> texts of \<open>NetworkError\<close>.\<close>

definition error_text :: "network_error \<Rightarrow> string" where
  "error_text e =
     (case e of
        NetworkReadTimeout \<Rightarrow> ''timeout occured waiting for data from network layer''
      | StreamBufferOverflow \<Rightarrow> ''internal request stream buffer is full''
      | KadStoreRecordError _ \<Rightarrow> ''failed to store record in DHT''
      | RpcDataFetchError \<Rightarrow> ''failed to fetch data from peer''
      | KadFetchRecordError _ \<Rightarrow> ''failed to fetch record from the DHT''
      | InternalTaskError \<Rightarrow> ''task carrying app response panicked''
      | DailPeerError \<Rightarrow> ''failed to dail peer''
      | GossipsubBroadcastMessageError \<Rightarrow> ''failed to broadcast message to peers in the topic''
      | GossipsubJoinNetworkError \<Rightarrow> ''failed to join a mesh network''
      | GossipsubExitNetworkError \<Rightarrow> ''failed to exit a mesh network''
      | InternalStreamError \<Rightarrow> ''internal stream failed to transport data''
      | MissingReplNetwork \<Rightarrow> ''replica network not found''
      | MissingShardingNetworkIdError \<Rightarrow>
          ''network id for sharding has not been configured. See `CoreBuilder::with_shard()`''
      | DataForwardingError \<Rightarrow> ''threshold for data forwarding not met''
      | ShardingFailureError \<Rightarrow> ''failed to shard data''
      | ShardingFetchError \<Rightarrow> ''failed to fetch sharded data''
      | ShardNotFound \<Rightarrow> ''shard not found for input key''
      | MissingShardNodesError \<Rightarrow> ''no nodes found in logical shard'')"

text \<open>The \<open>Debug\<close> forms and the texts of I/O errors (here by path) that the programs print; no
  result depends on them.\<close>

record formats =
  debug_peer :: "peer_id \<Rightarrow> string"
  debug_strings :: "string list \<Rightarrow> string"
  debug_bytes_list :: "byte_vector \<Rightarrow> string"
  debug_error :: "network_error \<Rightarrow> string"
  io_error :: "string \<Rightarrow> string"

definition sample_formats :: formats where
  "sample_formats =
     \<lparr>debug_peer = (\<lambda>p. case p of PeerId b \<Rightarrow> b), debug_strings = concat, debug_bytes_list = concat,
      debug_error = error_text, io_error = id\<rparr>"

section \<open>Setting up a node\<close>

text \<open>The key pairs of the examples, in the protobuf encoding.\<close>

definition node_1_keypair :: bytes where
  "node_1_keypair = map char_of
     ([8, 1, 18, 64, 34, 116, 25, 74, 122, 174, 130, 2, 98, 221, 17, 247, 176, 102, 205, 3, 27,
       202, 193, 27, 6, 104, 216, 158, 235, 38, 141, 58, 64, 81, 157, 155, 36, 193, 50, 147, 85,
       72, 64, 174, 65, 132, 232, 78, 231, 224, 88, 38, 55, 78, 178, 65, 42, 97, 39, 152, 42, 164,
       148, 159, 36, 170, 109, 178] :: nat list)"

definition node_2_keypair :: bytes where
  "node_2_keypair = map char_of
     ([8, 1, 18, 64, 37, 37, 86, 103, 79, 48, 103, 83, 170, 172, 131, 160, 15, 138, 237, 128, 114,
       144, 239, 7, 37, 6, 217, 25, 202, 210, 55, 89, 55, 93, 0, 153, 82, 226, 1, 54, 240, 36,
       110, 110, 173, 119, 143, 79, 44, 82, 126, 121, 247, 154, 252, 215, 43, 21, 101, 109, 235,
       10, 127, 128, 52, 52, 68, 31] :: nat list)"

definition node_3_keypair :: bytes where
  "node_3_keypair = map char_of
     ([8, 1, 18, 64, 211, 172, 68, 234, 95, 121, 188, 130, 107, 113, 212, 215, 211, 189, 219, 190,
       137, 91, 250, 222, 34, 152, 190, 117, 139, 199, 250, 5, 33, 65, 14, 180, 214, 5, 151, 109,
       184, 106, 73, 186, 126, 52, 59, 220, 170, 158, 195, 249, 110, 74, 222, 161, 88, 194, 187,
       112, 95, 131, 113, 251, 106, 94, 61, 177] :: nat list)"

definition local_tcp :: "port \<Rightarrow> multiaddr_string" where
  "local_tcp p = ''/ip4/127.0.0.1/tcp/'' @ show_nat (unat p)"

text \<open>The two other nodes of a group of three, as bootnodes.\<close>

definition two_bootnodes ::
    "codecs \<Rightarrow> peer_id \<times> peer_id \<Rightarrow> port \<times> port \<Rightarrow> port \<times> port \<Rightarrow> nodes_map" where
  "two_bootnodes cd peer_ids ports_2 ports_3 =
     [peer_str cd (fst peer_ids) \<mapsto> local_tcp (fst ports_2),
      peer_str cd (snd peer_ids) \<mapsto> local_tcp (fst ports_3)]"

text \<open>The configuration of a node with a fixed key pair; \<open>None\<close> is the panic on one that does
  not decode.\<close>

definition deterministic_config ::
    "key_ops \<Rightarrow> bytes \<Rightarrow> port \<times> port \<Rightarrow> nodes_map \<Rightarrow> bootstrap_config option" where
  "deterministic_config ko protobuf pp boot =
     map_option (\<lambda>c. with_bootnodes boot (with_udp (snd pp) (with_tcp (fst pp) c)))
       (generate_keypair_from_protobuf ko ''ed25519'' protobuf (bootstrap_new ko))"

text \<open>The callbacks of the examples that let everything pass.\<close>

definition echo_rpc :: rpc_callback where
  "echo_rpc data = Some data"

definition allow_gossip :: gossip_callback where
  "allow_gossip src mid source topic data = Some True"

text \<open>\<open>builder.build().await.unwrap()\<close>: the \<open>Core\<close> with the network task's first state. The
  first list is the iteration order of the bootnodes' table.\<close>

definition build_unwrap ::
    "runtime \<Rightarrow> codecs \<Rightarrow> host \<Rightarrow> (peer_id_string \<times> multiaddr_string) list \<Rightarrow> core_builder
      \<Rightarrow> loop_state option" where
  "build_unwrap rt cd h order b =
     (case snd (build rt cd h order [] b) of Inl _ \<Rightarrow> None | Inr ls \<Rightarrow> Some ls)"

section \<open>The events of the setup\<close>

text \<open>\<open>while let Some(event) = node.next_event().await\<close> takes the events there are.\<close>

lemma next_event_shrinks:
  "next_event c = (c', Some e) \<Longrightarrow> length (event_queue c') < length (event_queue c)"
  by (auto simp: next_event_def dq_pop_def split: list.splits)

function drain_events :: "core \<Rightarrow> core \<times> network_event list" where
  "drain_events c =
     (case next_event c of
        (c', None) \<Rightarrow> (c', [])
      | (c', Some e) \<Rightarrow> (let (c'', es) = drain_events c' in (c'', e # es)))"
  by pat_completeness auto
termination
  by (relation "measure (\<lambda>c. length (event_queue c))") (auto dest: next_event_shrinks [OF sym])

declare drain_events.simps [simp del]

lemma drain_events_all: "drain_events c = take_events c"
proof (induction c rule: drain_events.induct)
  case (1 c)
  show ?case
  proof (cases "event_queue c")
    case Nil
    then show ?thesis
      by (subst drain_events.simps)
        (simp add: next_event_def dq_pop_def take_events_def dq_drain_def dq_into_inner_def)
  next
    case (Cons e es)
    then have n: "next_event c = (c\<lparr>event_queue := es\<rparr>, Some e)"
      by (simp add: next_event_def dq_pop_def)
    have "drain_events (c\<lparr>event_queue := es\<rparr>) = take_events (c\<lparr>event_queue := es\<rparr>)"
      by (rule "1.IH") (auto simp: n)
    then show ?thesis
      by (subst drain_events.simps)
        (simp add: n Cons take_events_def dq_drain_def dq_into_inner_def)
  qed
qed

definition setup_lines :: "codecs \<Rightarrow> formats \<Rightarrow> network_event \<Rightarrow> string list" where
  "setup_lines cd fm ev =
     (case ev of
        NewListenAddr local _ addr \<Rightarrow>
          [''Peer id: '' @ peer_str cd local, ''We're listening on '' @ addr]
      | ConnectionEstablished peer _ _ _ _ \<Rightarrow>
          [''Connection established with peer: '' @ debug_peer fm peer]
      | _ \<Rightarrow> [])"

definition report_setup :: "codecs \<Rightarrow> formats \<Rightarrow> core \<Rightarrow> core \<times> string list" where
  "report_setup cd fm c =
     (let (c', es) = drain_events c in (c', concat (map (setup_lines cd fm) es)))"

lemma deterministic_config_ports:
  assumes "deterministic_config ko proto pp boot = Some cfg"
    and "MIN_PORT < fst pp" "fst pp < MAX_PORT" "MIN_PORT < snd pp" "snd pp < MAX_PORT"
  shows "tcp_port cfg = fst pp \<and> udp_port cfg = snd pp \<and> boot_nodes cfg = boot
    \<and> bc_blacklist cfg = \<lparr>list_of = {}\<rparr>"
  using assms
  by (auto simp: deterministic_config_def with_bootnodes_def with_udp_def with_tcp_def
      generate_keypair_from_protobuf_def bootstrap_new_def split: option.splits if_splits)

section \<open>Menus\<close>

text \<open>\<open>input.trim().split_whitespace()\<close>: the words of a line; the first is the command.\<close>

definition words_of :: "string \<Rightarrow> string list" where
  "words_of input = split_whitespace (trim input)"

definition unknown_line :: "string \<Rightarrow> string" where
  "unknown_line w = ''Unknown command: '' @ [CHR 0x27] @ w @ [CHR 0x27] @ ''. Please try again.''"

definition no_command_line :: string where
  "no_command_line = ''No command entered. Please try again.''"

definition goodbye_line :: string where
  "goodbye_line = ''Exiting the application. Goodbye!''"

text \<open>Words hold no white space and are not empty.\<close>

lemma ws_prefix_space: "ws_prefix_len ws_encodings (CHR 0x20 # cs) \<noteq> 0"
proof -
  have "char_of (32 :: nat) = CHR 0x20" by code_simp
  moreover have "map char_of [32 :: nat] \<in> set ws_encodings"
    unfolding ws_encodings_def set_map by (rule imageI) simp
  ultimately have "[CHR 0x20] \<in> set ws_encodings" by simp
  moreover have "\<And>w. w \<in> set ws_encodings \<Longrightarrow> w \<noteq> []" by (auto simp: ws_encodings_def)
  moreover have "prefix [CHR 0x20] (CHR 0x20 # cs)" by simp
  ultimately show ?thesis
    by (auto simp: ws_prefix_len_def find_None_iff find_Some_iff split: option.splits)
qed

lemma ws_pieces_no_space: "p \<in> set (ws_pieces s) \<Longrightarrow> CHR 0x20 \<notin> set p"
proof (induction s arbitrary: p rule: ws_pieces.induct)
  case (2 c cs)
  let ?n = "ws_prefix_len ws_encodings (c # cs)"
  show ?case
  proof (cases "?n = 0")
    case True
    then have "c \<noteq> CHR 0x20" using ws_prefix_space by metis
    then show ?thesis using 2 True by (auto simp: Let_def split: list.splits)
  next
    case False
    then show ?thesis using 2 by (auto simp: Let_def)
  qed
qed simp

lemma split_whitespace_words:
  "p \<in> set (split_whitespace s) \<Longrightarrow> p \<noteq> [] \<and> CHR 0x20 \<notin> set p"
  by (auto simp: split_whitespace_def dest: ws_pieces_no_space)

text \<open>A line of plain words is read as these words.\<close>

definition plain_char :: "char \<Rightarrow> bool" where
  "plain_char c = (32 < code_of c \<and> code_of c < 128)"

definition plain_word :: "string \<Rightarrow> bool" where
  "plain_word w = (w \<noteq> [] \<and> list_all plain_char w)"

lemma ws_first_last:
  "w \<in> set ws_encodings \<Longrightarrow> w \<noteq> [] \<and> \<not> plain_char (hd w) \<and> \<not> plain_char (last w)"
  unfolding ws_encodings_def by (auto simp: plain_char_def code_of_def)

lemma ws_prefix_plain:
  assumes "plain_char c"
  shows "ws_prefix_len ws_encodings (c # cs) = 0" "ws_prefix_len (map rev ws_encodings) (c # cs) = 0"
proof -
  have "\<not> prefix w (c # cs)" if "w \<in> set ws_encodings" for w
    using ws_first_last [OF that] assms by (cases w) auto
  then have "find (\<lambda>w. prefix w (c # cs)) ws_encodings = None" by (simp add: find_None_iff)
  then show "ws_prefix_len ws_encodings (c # cs) = 0" by (simp add: ws_prefix_len_def)
  have "\<not> prefix (rev w) (c # cs)" if "w \<in> set ws_encodings" for w
    using ws_first_last [OF that] assms by (cases w rule: rev_cases) auto
  then have "find (\<lambda>w. prefix w (c # cs)) (map rev ws_encodings) = None" by (simp add: find_None_iff)
  then show "ws_prefix_len (map rev ws_encodings) (c # cs) = 0" by (simp add: ws_prefix_len_def)
qed

lemma strip_plain:
  "plain_char c \<Longrightarrow> strip_start ws_encodings (c # cs) = c # cs"
  "plain_char c \<Longrightarrow> strip_start (map rev ws_encodings) (c # cs) = c # cs"
  by (simp_all add: strip_start.simps [of _ "c # cs"] ws_prefix_plain)

lemma trim_plain:
  assumes "s \<noteq> []" "plain_char (hd s)" "plain_char (last s)" shows "trim s = s"
proof -
  obtain c cs where s: "s = c # cs" using assms(1) by (cases s) auto
  then have 1: "strip_start ws_encodings s = s" using assms(2) by (simp add: strip_plain)
  obtain d ds where r: "rev s = d # ds" using assms(1) by (cases "rev s") auto
  then have "d = last s" using assms(1) by (metis hd_rev list.sel(1))
  then have "plain_char d" using assms(3) by simp
  then have "strip_start (map rev ws_encodings) (rev s) = rev s"
    unfolding r by (rule strip_plain(2))
  with 1 show ?thesis by (simp add: trim_def)
qed

lemma ws_space_len: "ws_prefix_len ws_encodings (CHR 0x20 # cs) = 1"
proof -
  have "w = [char_of (32 :: nat)]" if "w \<in> set ws_encodings" "code_of (hd w) = 32" for w
    using that unfolding ws_encodings_def by (auto simp: code_of_def)
  moreover have "code_of (hd w) = 32" if w: "w \<in> set ws_encodings" "prefix w (CHR 0x20 # cs)" for w
  proof -
    obtain x xs where "w = x # xs" using ws_first_last [OF w(1)] by (cases w) auto
    then show ?thesis using w(2) by (simp add: code_of_def)
  qed
  ultimately have "length w = 1" if "w \<in> set ws_encodings" "prefix w (CHR 0x20 # cs)" for w
    using that by fastforce
  with ws_prefix_space [of cs] show ?thesis
    by (auto simp: ws_prefix_len_def find_Some_iff split: option.splits)
qed

lemma ws_pieces_word:
  "list_all plain_char w \<Longrightarrow> ws_pieces (w @ CHR 0x20 # rest) = w # ws_pieces rest"
  by (induction w) (simp_all add: ws_prefix_plain ws_space_len Let_def)

lemma ws_pieces_last: "list_all plain_char w \<Longrightarrow> ws_pieces w = [w]"
  by (induction w) (simp_all add: ws_prefix_plain Let_def)

lemma ws_pieces_join:
  "ws \<noteq> [] \<Longrightarrow> list_all plain_word ws \<Longrightarrow> ws_pieces (join_with '' '' ws) = ws"
proof (induction ws rule: induct_list012)
  case (3 x y zs)
  then show ?case using ws_pieces_word [of x "join_with '' '' (y # zs)"] by (simp add: plain_word_def)
qed (simp_all add: plain_word_def ws_pieces_last)

lemma join_ends:
  "ws \<noteq> [] \<Longrightarrow> list_all plain_word ws \<Longrightarrow> join_with '' '' ws \<noteq> []
     \<and> plain_char (hd (join_with '' '' ws)) \<and> plain_char (last (join_with '' '' ws))"
proof (induction ws rule: induct_list012)
  case (2 x)
  then show ?case by (auto simp: plain_word_def list_all_iff)
next
  case (3 x y zs)
  then show ?case by (auto simp: plain_word_def list_all_iff)
qed simp

lemma words_of_join:
  assumes "ws \<noteq> []" "list_all plain_word ws" shows "words_of (join_with '' '' ws) = ws"
proof -
  have "filter (\<lambda>p. p \<noteq> []) ws = ws"
    using assms(2) by (simp add: filter_id_conv list_all_iff plain_word_def)
  then show ?thesis
    using join_ends [OF assms] ws_pieces_join [OF assms]
    by (simp add: words_of_def trim_plain split_whitespace_def)
qed

interpretation space_sep: delimiter "'' ''"
  by unfold_locales simp

section \<open>Programs\<close>

text \<open>
  A program runs a menu, which may end it or panic (\<open>None\<close>), beside a task that looks at one
  event at a time and may panic too (\<open>False\<close>), which ends only the task. They share the node
  with the network task, whose work in between is a step of its own.
\<close>

datatype turn = Typed env string | Listen | Network "core \<Rightarrow> core"

fun run_turns ::
    "(env \<Rightarrow> string \<Rightarrow> 'a \<Rightarrow> ('a \<times> bool) option) \<Rightarrow> ('a \<Rightarrow> 'a \<times> bool)
      \<Rightarrow> ((core \<Rightarrow> core) \<Rightarrow> 'a \<Rightarrow> 'a) \<Rightarrow> turn list \<Rightarrow> bool \<Rightarrow> 'a \<Rightarrow> ('a \<times> bool) option" where
  "run_turns menu listen update [] alive a = Some (a, alive)"
| "run_turns menu listen update (Typed env input # turns) alive a =
     Option.bind (menu env input a)
       (\<lambda>(a', more). if more then run_turns menu listen update turns alive a' else Some (a', alive))"
| "run_turns menu listen update (Listen # turns) alive a =
     (if \<not> alive then run_turns menu listen update turns alive a
      else (let (a', alive') = listen a in run_turns menu listen update turns alive' a'))"
| "run_turns menu listen update (Network f # turns) alive a =
     run_turns menu listen update turns alive (update f a)"

section \<open>Forwarded data\<close>

text \<open>What a node does with a forwarded text: the event reaches the listener.\<close>

lemma forwarded_event:
  assumes "event_queue c = []" "utf8_valid text"
  shows "next_event (handle_incoming_shard_data env sid peer [text] c)
     = ((handle_incoming_shard_data env sid peer [text] c)\<lparr>event_queue := []\<rparr>,
        Some (IncomingForwardedData [text] peer))"
proof -
  let ?c1 = "push_event (IncomingForwardedData [text] peer) c"
  have "event_queue (fst (replicate_data env [text] sid ?c1)) = event_queue ?c1"
    by (auto simp: replicate_data_def Let_def case_prod_beta split: option.split sum.split)
  moreover have "event_queue ?c1 = [IncomingForwardedData [text] peer]"
    using assms(1) by (simp add: push_event_def dq_push_def MAX_QUEUE_ELEMENTS_def)
  ultimately show ?thesis
    using assms(2) by (simp add: handle_incoming_shard_data_def byte_vec_to_string_vec_def from_utf8_def
        next_event_def dq_pop_def)
qed

end
