(* ===== verification/Config_Tests.thy ===== *)
theory Config_Tests
  imports Buffer_Tests Config_Props Example_Common
begin

text \<open>
  The tests of \<open>swarm-nl/src/setup.rs\<close> and \<open>swarm-nl/src/util.rs\<close>, as functions of the world they
  run in: the key generation and decoding of libp2p, the files on disk and which paths can be
  written, what the \<open>openssl\<close> command leaves, and the random peer. A test is \<open>None\<close> when an assertion
  of it or an \<open>unwrap\<close> panics; of an expected panic the model does not keep the message.
\<close>

section \<open>The world of the tests\<close>

record config_world =
  cw_codecs :: codecs
  cw_keys :: key_ops
  cw_files :: "string \<rightharpoonup> ini_doc"
  cw_writable :: "string \<Rightarrow> bool"
  cw_openssl :: "bytes option option"
  cw_random_peer :: peer_id

text \<open>\<open>Ini::write_to_file\<close>, a failure ignored.\<close>

definition ini_write :: "config_world \<Rightarrow> string \<Rightarrow> ini_doc \<Rightarrow> (string \<rightharpoonup> ini_doc)" where
  "ini_write w path doc = (if cw_writable w path then (cw_files w)(path \<mapsto> doc) else cw_files w)"

text \<open>\<open>std::fs::write\<close>, and the key operations that see the file.\<close>

definition with_file :: "string \<Rightarrow> bytes \<Rightarrow> key_ops \<Rightarrow> key_ops" where
  "with_file path b ko = ko\<lparr>read_file := (read_file ko)(path \<mapsto> b)\<rparr>"

section \<open>Tests of setup.rs\<close>

definition file_read_should_panic :: "config_world \<Rightarrow> test" where
  "file_read_should_panic w =
     should_panic (from_file (cw_codecs w) (cw_keys w) (cw_files w) ''non_existent_file.ini'')"

definition default_config_works :: "config_world \<Rightarrow> test" where
  "default_config_works w =
     (let c = bootstrap_new (cw_keys w) in
      do {
        assert_eq (tcp_port c) MIN_PORT;
        assert_eq (udp_port c) MAX_PORT;
        assert_eq (keypair_type (bc_keypair c)) Ed25519;
        assert_eq (boot_nodes c) Map.empty
      })"

definition new_config_with_bootnodes_works :: "config_world \<Rightarrow> test" where
  "new_config_with_bootnodes_works w =
     (let key_1 = ''12D3KooWBmwXN3rsVfnLsZKbXeBrSLfczHxZHwVjPrbKwpLfYm3t'';
          val_1 = ''/ip4/192.168.1.205/tcp/1509'';
          key_2 = ''12A0ZooWBmwXN3rsVfnLsZKbXeBrSLfczHxZHwVjPrbKwpLfYm3t'';
          val_2 = ''/ip4/192.168.1.205/tcp/1588'';
          c = with_bootnodes [key_1 \<mapsto> val_1, key_2 \<mapsto> val_2] (bootstrap_new (cw_keys w)) in
      do {
        assert_eq (card (dom (boot_nodes c))) 2;
        assert_eq (boot_nodes c key_1) (Some val_1);
        assert_eq (boot_nodes c key_2) (Some val_2)
      })"

definition new_config_with_tcp_port_works :: "config_world \<Rightarrow> test" where
  "new_config_with_tcp_port_works w =
     (let c = bootstrap_new (cw_keys w) in
      do {
        assert_eq (fst (ports c)) MIN_PORT;
        assert_eq (fst (ports (with_tcp 49666 c))) 49666;
        assert_eq (fst (ports (with_tcp (MIN_PORT - 42) (bootstrap_new (cw_keys w))))) MIN_PORT
      })"

definition new_config_with_udp_port_works :: "config_world \<Rightarrow> test" where
  "new_config_with_udp_port_works w =
     (let c = bootstrap_new (cw_keys w) in
      do {
        assert_eq (snd (ports c)) MAX_PORT;
        assert_eq (snd (ports (with_udp 55555 c))) 55555;
        assert_eq (snd (ports (with_udp (MIN_PORT - 42) (bootstrap_new (cw_keys w))))) MAX_PORT
      })"

text \<open>The encoding of a fresh key, unwrapped.\<close>

definition fresh_encoding :: "config_world \<Rightarrow> key_type \<Rightarrow> bytes option" where
  "fresh_encoding w kt = to_protobuf_encoding (cw_keys w) (generate_key (cw_keys w) kt)"

definition key_type_is_invalid :: "config_world \<Rightarrow> test" where
  "key_type_is_invalid w =
     do {
       b \<leftarrow> fresh_encoding w Ed25519;
       c \<leftarrow> generate_keypair_from_protobuf (cw_keys w) ''SomeMagicCryptoType'' b (bootstrap_new (cw_keys w));
       assert_eq (keypair_type (bc_keypair c)) Ed25519
     }"

definition key_pair_is_invalid :: "config_world \<Rightarrow> test" where
  "key_pair_is_invalid w =
     (let invalid = [CHR 0x00, CHR 0x00];
          attempt = (\<lambda>kt. generate_keypair_from_protobuf (cw_keys w) kt invalid (bootstrap_new (cw_keys w))) in
      should_panic
        (do {
           attempt ''Ed25519'';
           attempt ''RSA'';
           attempt ''Secp256k1'';
           attempt ''Ecdsa''
         }))"

definition rsa_specified_without_filepath_panics :: "config_world \<Rightarrow> test" where
  "rsa_specified_without_filepath_panics w =
     should_panic (generate_keypair (cw_keys w) RSA None (bootstrap_new (cw_keys w)))"

definition rsa_specified_with_nonexistant_file :: "config_world \<Rightarrow> test" where
  "rsa_specified_with_nonexistant_file w =
     should_panic (generate_keypair (cw_keys w) RSA (Some ''invalid_rsa_file.pk8'') (bootstrap_new (cw_keys w)))"

definition rsa_with_invalid_contents_should_panic :: "config_world \<Rightarrow> test" where
  "rsa_with_invalid_contents_should_panic w =
     (let path = ''invalid_rsa_keypair_temp_file.pk8'' in
      if \<not> cw_writable w path then None
      else
       (let ko = with_file path (replicate 64 (CHR 0x00)) (cw_keys w) in
        should_panic (generate_keypair ko RSA (Some path) (bootstrap_new ko))))"

text \<open>\<open>generate_rsa_keypair_files\<close> runs \<open>openssl\<close>, which leaves a file if all goes well; the test
  dies if it cannot be run at all.\<close>

definition generate_rsa_keypair_files :: "config_world \<Rightarrow> key_ops option" where
  "generate_rsa_keypair_files w =
     map_option (\<lambda>left. case left of None \<Rightarrow> cw_keys w | Some b \<Rightarrow> with_file ''private.pk8'' b (cw_keys w))
       (cw_openssl w)"

definition rsa_from_valid_file_works :: "config_world \<Rightarrow> test" where
  "rsa_from_valid_file_works w =
     do {
       ko \<leftarrow> generate_rsa_keypair_files w;
       c \<leftarrow> generate_keypair ko RSA (Some ''private.pk8'') (bootstrap_new ko);
       assert_eq (keypair_type (bc_keypair c)) RSA
     }"

definition generate_keypair_from_protobuf_ed25519_works :: "config_world \<Rightarrow> test" where
  "generate_keypair_from_protobuf_ed25519_works w =
     do {
       b \<leftarrow> fresh_encoding w Ed25519;
       c \<leftarrow> generate_keypair_from_protobuf (cw_keys w) ''Ed25519'' b (bootstrap_new (cw_keys w));
       assert_eq (keypair_type (bc_keypair c)) Ed25519
     }"

definition generate_keypair_from_protobuf_ecdsa_works :: "config_world \<Rightarrow> test" where
  "generate_keypair_from_protobuf_ecdsa_works w =
     do {
       b \<leftarrow> fresh_encoding w Ecdsa;
       c \<leftarrow> generate_keypair_from_protobuf (cw_keys w) ''Ecdsa'' b (bootstrap_new (cw_keys w));
       assert_eq (keypair_type (bc_keypair c)) Ecdsa
     }"

definition generate_keypair_from_protobuf_secp256k1_works :: "config_world \<Rightarrow> test" where
  "generate_keypair_from_protobuf_secp256k1_works w =
     do {
       b \<leftarrow> fresh_encoding w Secp256k1;
       c \<leftarrow> generate_keypair_from_protobuf (cw_keys w) ''Secp256k1'' b (bootstrap_new (cw_keys w));
       assert_eq (keypair_type (bc_keypair c)) Secp256k1
     }"

section \<open>Tests of util.rs\<close>

definition test_bootnode_text :: string where
  "test_bootnode_text =
     ''[12D3KooWGfbL6ZNGWqS11MoptH2A7DB1DG6u85FhXBUPXPVkVVRq:/ip4/192.168.1.205/tcp/1509]''"

definition ini_without_keypair :: "string \<Rightarrow> ini_doc" where
  "ini_without_keypair blacklist =
     [''ports'' \<mapsto> [''tcp'' \<mapsto> show_nat (unat CUSTOM_TCP_PORT), ''udp'' \<mapsto> show_nat (unat CUSTOM_UDP_PORT)],
      ''bootstrap'' \<mapsto> [''boot_nodes'' \<mapsto> test_bootnode_text],
      ''blacklist'' \<mapsto> [''blacklist'' \<mapsto> blacklist]]"

definition create_test_ini_file_without_keypair :: "config_world \<Rightarrow> string \<Rightarrow> (string \<rightharpoonup> ini_doc)" where
  "create_test_ini_file_without_keypair w path = ini_write w path (ini_without_keypair ''[]'')"

definition auth_section :: "config_world \<Rightarrow> string \<Rightarrow> key_type \<Rightarrow> ini_doc option" where
  "auth_section w crypto kt =
     map_option (\<lambda>b. [''auth'' \<mapsto> [''crypto'' \<mapsto> crypto, ''protobuf_keypair'' \<mapsto> debug_bytes b]])
       (fresh_encoding w kt)"

definition create_test_ini_file_with_keypair ::
    "config_world \<Rightarrow> string \<Rightarrow> key_type \<Rightarrow> (string \<rightharpoonup> ini_doc) option" where
  "create_test_ini_file_with_keypair w path kt =
     map_option
       (\<lambda>auth. ini_write w path
          (auth(''bootstrap'' \<mapsto> [''boot_nodes'' \<mapsto> test_bootnode_text],
                ''blacklist'' \<mapsto> [''blacklist'' \<mapsto> ''[]''])))
       (case kt of
          Ed25519 \<Rightarrow> auth_section w ''ed25519'' Ed25519
        | Secp256k1 \<Rightarrow> auth_section w ''secp256k1'' Secp256k1
        | Ecdsa \<Rightarrow> auth_section w ''ecdsa'' Ecdsa
        | RSA \<Rightarrow> Some Map.empty)"

text \<open>\<open>read_ini_file(...).unwrap()\<close> is \<open>from_file\<close>; the test of a missing file looks at the result.\<close>

definition file_does_not_exist :: "config_world \<Rightarrow> test" where
  "file_does_not_exist w =
     do {
       r \<leftarrow> read_ini_file (cw_codecs w) (cw_keys w) (cw_files w) ''non_existent_file.ini'';
       assert_eq (case r of Inl _ \<Rightarrow> True | Inr _ \<Rightarrow> False) True
     }"

definition written_keypair :: "nat list" where
  "written_keypair =
     [8, 1, 18, 64, 116, 193, 199, 84, 83, 25, 220, 116, 119, 194, 155, 173, 2, 241,
      82, 0, 130, 225, 121, 9, 232, 244, 8, 253, 170, 13, 100, 24, 195, 179, 60, 133,
      128, 221, 43, 214, 180, 33, 61, 73, 124, 161, 127, 119, 40, 146, 226, 50, 65,
      35, 97, 188, 159, 169, 250, 241, 98, 36, 146, 9, 139, 98, 114, 224]"

definition write_config_works :: "config_world \<Rightarrow> test" where
  "write_config_works w =
     (let path = ''temp_test_write_ini_file.ini'';
          files = create_test_ini_file_without_keypair w path;
          add_keypair = write_config (cw_writable w) ''auth'' ''serialized_keypair''
            (''['' @ join_with '', '' (map show_nat written_keypair) @ '']'') path files in
      assert_eq (snd add_keypair) True)"

definition read_ini_file_with_custom_setup_works :: "config_world \<Rightarrow> test" where
  "read_ini_file_with_custom_setup_works w =
     (let path = ''temp_test_read_ini_file_custom.ini'';
          files = create_test_ini_file_without_keypair w path in
      do {
        c \<leftarrow> from_file (cw_codecs w) (cw_keys w) files path;
        assert_eq (fst (ports c)) CUSTOM_TCP_PORT;
        assert_eq (snd (ports c)) CUSTOM_UDP_PORT;
        assert_eq (keypair_type (bc_keypair c)) Ed25519
      })"

definition read_ini_file_with_default_setup_works :: "config_world \<Rightarrow> test" where
  "read_ini_file_with_default_setup_works w =
     (let path = ''temp_test_ini_file_default.ini'' in
      do {
        files \<leftarrow> create_test_ini_file_with_keypair w path Ecdsa;
        c \<leftarrow> from_file (cw_codecs w) (cw_keys w) files path;
        assert_eq (keypair_type (bc_keypair c)) Ecdsa
      })"

definition string_to_vec_works :: test where
  "string_to_vec_works = assert_eq (string_to_vec parse_i32 ''[1, 2, 3]'') [1, 2, 3]"

definition string_to_hashmap_works :: test where
  "string_to_hashmap_works =
     assert_eq (string_to_hashmap test_bootnode_text)
       [''12D3KooWGfbL6ZNGWqS11MoptH2A7DB1DG6u85FhXBUPXPVkVVRq'' \<mapsto> ''/ip4/192.168.1.205/tcp/1509'']"

definition bootstrap_config_blacklist_works :: "config_world \<Rightarrow> test" where
  "bootstrap_config_blacklist_works w =
     (let path = ''bootstrap_config_blacklist_test.ini'';
          banned = cw_random_peer w;
          files = ini_write w path (ini_without_keypair (''['' @ peer_str (cw_codecs w) banned @ '']'')) in
      do {
        c \<leftarrow> from_file (cw_codecs w) (cw_keys w) files path;
        assert_eq (card (list_of (bc_blacklist c))) 1;
        assert_true (banned \<in> list_of (bc_blacklist c))
      })"

section \<open>Why they pass\<close>

text \<open>A key written under the names the reader looks for comes back as it was.\<close>

lemma ini_auth_written:
  assumes "doc ''auth'' = Some sec" "sec ''crypto'' = Some crypto"
    and "sec ''protobuf_keypair'' = Some (debug_bytes b)"
  shows "ini_auth doc = (crypto, b)"
  using assms by (simp add: ini_auth_def get_default_def bytes_text_round_trip code_of_def comp_def)

lemma generated_from_encoding:
  assumes "key_ops_ok ko" "to_protobuf_encoding ko k = Some b" "key_type_from crypto = Some (keypair_type k)"
    and "keypair_type k \<noteq> RSA"
  shows "generate_keypair_from_protobuf ko crypto b c = Some (c\<lparr>bc_keypair := k\<rparr>)"
  using assms by (auto simp: generate_keypair_from_protobuf_def key_ops_ok_def try_into_def split: key_type.splits)

lemma from_file_eq:
  assumes "files path = Some doc" "doc ''bootstrap'' = Some sec" "ini_auth doc = (crypto, b)"
    and "generate_keypair_from_protobuf ko crypto b (bootstrap_new ko) = Some c"
  shows "from_file cd ko files path = Some
     (with_udp (snd (ini_ports doc)) (with_tcp (fst (ini_ports doc))
       (with_blacklist (ini_blacklist cd doc) (with_bootnodes (string_to_hashmap (get_default sec ''boot_nodes'')) c))))"
  using assms by (simp add: from_file_def read_ini_file_def case_prod_beta Let_def)

lemma from_file_key:
  assumes "files path = Some doc" "doc ''bootstrap'' = Some sec" "ini_auth doc = (crypto, b)"
  shows "map_option bc_keypair (from_file cd ko files path) =
     map_option bc_keypair (generate_keypair_from_protobuf ko crypto b (bootstrap_new ko))"
  using assms by (simp add: from_file_def read_ini_file_def case_prod_beta Let_def with_udp_def with_tcp_def
      with_blacklist_def with_bootnodes_def split: option.split)

lemma setters_keep_key:
  "bc_keypair (with_tcp p c) = bc_keypair c" "bc_keypair (with_udp p c) = bc_keypair c"
  "bc_keypair (with_blacklist bl c) = bc_keypair c" "bc_keypair (with_bootnodes ns c) = bc_keypair c"
  by (simp_all add: with_tcp_def with_udp_def with_blacklist_def with_bootnodes_def)

lemma setters_keep_blacklist:
  "bc_blacklist (with_tcp p c) = bc_blacklist c" "bc_blacklist (with_udp p c) = bc_blacklist c"
  "bc_blacklist (with_bootnodes ns c) = bc_blacklist c"
  by (simp_all add: with_tcp_def with_udp_def with_bootnodes_def)

text \<open>C37: A key pair stored in the file under \<open>crypto\<close> and \<open>protobuf_keypair\<close> is the key pair of the node
  that is started from the file, whatever else the file says beside its \<open>bootstrap\<close> section, for
  every key type but RSA.\<close>

theorem ini_key_read_back:
  assumes "key_ops_ok ko" "to_protobuf_encoding ko k = Some b" "keypair_type k \<noteq> RSA"
    and "files path = Some doc" "doc ''bootstrap'' \<noteq> None"
    and "doc ''auth'' = Some sec" "sec ''protobuf_keypair'' = Some (debug_bytes b)"
    and "sec ''crypto'' = Some crypto" "key_type_from crypto = Some (keypair_type k)"
  shows "\<exists>c. from_file cd ko files path = Some c \<and> bc_keypair c = k"
proof -
  obtain bsec where "doc ''bootstrap'' = Some bsec" using assms(5) by blast
  moreover have "ini_auth doc = (crypto, b)" using assms(6,7,8) ini_auth_written by simp
  ultimately show ?thesis
    using from_file_eq [of files path doc bsec crypto b ko _ cd] assms(4) setters_keep_key
      generated_from_encoding [OF assms(1,2,9,3)] by simp
qed

text \<open>The type under which a file makes the reader look at the saved bytes.\<close>

definition crypto_of :: "ini_doc \<Rightarrow> string" where
  "crypto_of doc = (case doc ''auth'' of None \<Rightarrow> [] | Some sec \<Rightarrow> get_default sec ''crypto'')"

lemma saved_auth:
  assumes "save_keypair_offline ko creatable writable kp path files = Some (files', True)"
    and "doc = (case files path of None \<Rightarrow> Map.empty | Some d \<Rightarrow> d)"
  shows "\<exists>b doc'. to_protobuf_encoding ko kp = Some b \<and> files' path = Some doc'
     \<and> doc' ''bootstrap'' = doc ''bootstrap'' \<and> ini_auth doc' = (crypto_of doc, b)"
proof -
  obtain b doc' where d: "to_protobuf_encoding ko kp = Some b" "files' path = Some doc'"
    "doc' ''bootstrap'' = doc ''bootstrap''"
    and sec: "doc' ''auth'' = Some ((case doc ''auth'' of None \<Rightarrow> Map.empty | Some m \<Rightarrow> m)
      (''protobuf_keypair'' \<mapsto> debug_bytes b, ''Crypto'' \<mapsto> key_type_name (keypair_type kp)))"
    using save_keypair_doc [OF assms(1)] assms(2) by fastforce
  have "ini_auth doc' = (crypto_of doc, b)"
    unfolding ini_auth_def sec option.case crypto_of_def
    by (simp add: get_default_def bytes_text_round_trip code_of_def comp_def split: option.split)
  with d show ?thesis by blast
qed

text \<open>C38: A saved key pair is used again only by a file that names its type already. Saving writes the
  type under \<open>Crypto\<close>, reading looks for it under \<open>crypto\<close>. So for a node started from the file
  after its key pair was saved there: it panics if the file has no \<open>bootstrap\<close> section, as one that
  the saving has just created; it gets a new Ed25519 key pair if \<open>crypto\<close> was absent or names no key
  type; its own one back if \<open>crypto\<close> named the type of the key pair before; and it panics if \<open>crypto\<close>
  named another type, unless this is RSA and the saved bytes happen to be a PKCS 8 key. Keys encode
  and decode as libp2p documents.\<close>

theorem saved_identity_needs_its_type:
  assumes "key_ops_ok ko" "save_keypair_offline ko creatable writable kp path files = Some (files', True)"
    and "doc = (case files path of None \<Rightarrow> Map.empty | Some d \<Rightarrow> d)"
  shows "map_option bc_keypair (from_file cd ko files' path) =
     (if doc ''bootstrap'' = None then None
      else case key_type_from (crypto_of doc) of
             None \<Rightarrow> Some (generate_key ko Ed25519)
           | Some kt \<Rightarrow> if kt = keypair_type kp then Some kp
               else if kt = RSA then rsa_from_pkcs8 ko (the (to_protobuf_encoding ko kp))
               else None)"
proof -
  obtain b doc' where b: "to_protobuf_encoding ko kp = Some b" "files' path = Some doc'"
    "doc' ''bootstrap'' = doc ''bootstrap''" "ini_auth doc' = (crypto_of doc, b)"
    using saved_auth [OF assms(2,3)] by blast
  have "keypair_type kp \<noteq> RSA" using assms(2) by (auto simp: save_keypair_offline_def Let_def split: if_splits)
  moreover have "from_protobuf_encoding ko b = Some kp" using assms(1) b(1) by (simp add: key_ops_ok_def)
  ultimately have key: "map_option bc_keypair (generate_keypair_from_protobuf ko (crypto_of doc) b c) =
      (case key_type_from (crypto_of doc) of
         None \<Rightarrow> Some (generate_key ko Ed25519)
       | Some kt \<Rightarrow> if kt = keypair_type kp then Some kp
           else if kt = RSA then rsa_from_pkcs8 ko (the (to_protobuf_encoding ko kp)) else None)" for c
    using b(1) by (simp add: generate_keypair_from_protobuf_def try_into_def option.map_comp comp_def option.map_ident
        split: option.split key_type.split)
  show ?thesis
  proof (cases "doc ''bootstrap''")
    case None
    then show ?thesis using b(2,3) by (simp add: from_file_def read_ini_file_def)
  next
    case (Some sec)
    then have "doc' ''bootstrap'' = Some sec" using b(3) by simp
    from from_file_key [of files' path doc' sec, OF b(2) this b(4), of cd ko] show ?thesis unfolding key using Some by simp
  qed
qed

text \<open>What the tests need of the world.\<close>

definition base58_text :: "string \<Rightarrow> bool" where
  "base58_text s \<longleftrightarrow> plain_word s \<and> set s \<inter> {CHR '','', CHR ''['', CHR '']''} = {}"

definition world_ok :: "config_world \<Rightarrow> bool" where
  "world_ok w \<longleftrightarrow> key_ops_ok (cw_keys w) \<and> peer_text_ok (cw_codecs w)
     \<and> base58_text (peer_str (cw_codecs w) (cw_random_peer w))
     \<and> cw_files w ''non_existent_file.ini'' = None \<and> (\<forall>path. cw_writable w path)
     \<and> fresh_encoding w Ed25519 \<noteq> None \<and> fresh_encoding w Ecdsa \<noteq> None \<and> fresh_encoding w Secp256k1 \<noteq> None
     \<and> from_protobuf_encoding (cw_keys w) [CHR 0x00, CHR 0x00] = None
     \<and> read_file (cw_keys w) ''invalid_rsa_file.pk8'' = None
     \<and> rsa_from_pkcs8 (cw_keys w) [] = None \<and> rsa_from_pkcs8 (cw_keys w) (replicate 64 (CHR 0x00)) = None
     \<and> (\<exists>b. cw_openssl w = Some (Some b) \<and> rsa_from_pkcs8 (cw_keys w) b \<noteq> None)"

lemma bootstrap_fields [simp]:
  "tcp_port (bootstrap_new ko) = MIN_PORT" "udp_port (bootstrap_new ko) = MAX_PORT"
  "bc_keypair (bootstrap_new ko) = generate_key ko Ed25519" "boot_nodes (bootstrap_new ko) = Map.empty"
  "list_of (bc_blacklist (bootstrap_new ko)) = {}"
  by (simp_all add: bootstrap_new_def)

lemma ports_set:
  "fst (ports (with_tcp p c)) = (if MIN_PORT < p \<and> p < MAX_PORT then p else tcp_port c)"
  "snd (ports (with_udp p c)) = (if MIN_PORT < p \<and> p < MAX_PORT then p else udp_port c)"
  "fst (ports (with_udp p c)) = tcp_port c"
  "tcp_port (with_tcp p c) = (if MIN_PORT < p \<and> p < MAX_PORT then p else tcp_port c)"
  "udp_port (with_udp p c) = (if MIN_PORT < p \<and> p < MAX_PORT then p else udp_port c)"
  "udp_port (with_tcp p c) = udp_port c"
  by (simp_all add: ports_def with_tcp_def with_udp_def)

lemma default_tests:
  assumes "world_ok w"
  shows "file_read_should_panic w = Some ()" "default_config_works w = Some ()"
    "new_config_with_bootnodes_works w = Some ()" "new_config_with_tcp_port_works w = Some ()"
    "new_config_with_udp_port_works w = Some ()"
proof -
  note ok = assms [unfolded world_ok_def key_ops_ok_def]
  show "file_read_should_panic w = Some ()"
    using ok by (simp add: file_read_should_panic_def from_file_def read_ini_file_def assertions)
  show "default_config_works w = Some ()"
    using ok by (simp add: default_config_works_def assertions Let_def)
  show "new_config_with_bootnodes_works w = Some ()"
    by (simp add: new_config_with_bootnodes_works_def assertions with_bootnodes_def Let_def)
  show "new_config_with_tcp_port_works w = Some ()"
    by (simp add: new_config_with_tcp_port_works_def assertions ports_set ports_def Let_def MIN_PORT_def MAX_PORT_def)
  show "new_config_with_udp_port_works w = Some ()"
    by (simp add: new_config_with_udp_port_works_def assertions ports_set ports_def Let_def MIN_PORT_def MAX_PORT_def)
qed

lemma type_names:
  "key_type_from ''Ed25519'' = Some Ed25519" "key_type_from ''Ecdsa'' = Some Ecdsa"
  "key_type_from ''Secp256k1'' = Some Secp256k1" "key_type_from ''ecdsa'' = Some Ecdsa"
  "key_type_from ''SomeMagicCryptoType'' = None" "key_type_from [] = None"
  by code_simp+

lemma key_tests:
  assumes "world_ok w"
  shows "key_type_is_invalid w = Some ()" "key_pair_is_invalid w = Some ()"
    "rsa_specified_without_filepath_panics w = Some ()" "rsa_specified_with_nonexistant_file w = Some ()"
    "rsa_with_invalid_contents_should_panic w = Some ()" "rsa_from_valid_file_works w = Some ()"
    "generate_keypair_from_protobuf_ed25519_works w = Some ()"
    "generate_keypair_from_protobuf_ecdsa_works w = Some ()"
    "generate_keypair_from_protobuf_secp256k1_works w = Some ()"
proof -
  note ok = assms [unfolded world_ok_def]
  have ty: "keypair_type (generate_key (cw_keys w) t) = t" for t using ok by (simp add: key_ops_ok_def)
  have rt: "generate_keypair_from_protobuf (cw_keys w) s b (bootstrap_new (cw_keys w))
      = Some ((bootstrap_new (cw_keys w))\<lparr>bc_keypair := generate_key (cw_keys w) t\<rparr>)"
    if "fresh_encoding w t = Some b" "key_type_from s = Some t" "t \<noteq> RSA" for s t b
    using generated_from_encoding [of "cw_keys w" "generate_key (cw_keys w) t" b s] ok that
    by (simp add: ty fresh_encoding_def)
  show "generate_keypair_from_protobuf_ed25519_works w = Some ()"
    using ok by (auto simp: generate_keypair_from_protobuf_ed25519_works_def rt type_names ty assertions)
  show "generate_keypair_from_protobuf_ecdsa_works w = Some ()"
    using ok by (auto simp: generate_keypair_from_protobuf_ecdsa_works_def rt type_names ty assertions)
  show "generate_keypair_from_protobuf_secp256k1_works w = Some ()"
    using ok by (auto simp: generate_keypair_from_protobuf_secp256k1_works_def rt type_names ty assertions)
  show "key_type_is_invalid w = Some ()"
    using ok by (auto simp: key_type_is_invalid_def generate_keypair_from_protobuf_def type_names ty assertions)
  show "key_pair_is_invalid w = Some ()"
    using ok by (simp add: key_pair_is_invalid_def generate_keypair_from_protobuf_def type_names assertions Let_def)
  show "rsa_specified_without_filepath_panics w = Some ()"
    by (simp add: rsa_specified_without_filepath_panics_def generate_keypair_def assertions)
  show "rsa_specified_with_nonexistant_file w = Some ()"
    using ok by (simp add: rsa_specified_with_nonexistant_file_def generate_keypair_def assertions)
  show "rsa_with_invalid_contents_should_panic w = Some ()"
    using ok by (simp add: rsa_with_invalid_contents_should_panic_def generate_keypair_def with_file_def assertions Let_def
        del: replicate.simps)
  obtain b k where "cw_openssl w = Some (Some b)" "rsa_from_pkcs8 (cw_keys w) b = Some k" using ok by auto
  moreover from this have "keypair_type k = RSA" using ok by (simp add: key_ops_ok_def)
  ultimately show "rsa_from_valid_file_works w = Some ()"
    by (simp add: rsa_from_valid_file_works_def generate_rsa_keypair_files_def generate_keypair_def with_file_def assertions)
qed

lemma list_text_read: "string_to_vec_works = Some ()"
proof -
  have "trim_brackets ''[1, 2, 3]'' = ''1, 2, 3''" using trim_brackets_wrapped [of "''1, 2, 3''"] by simp
  moreover have "split_on '','' ''1, 2, 3'' = [''1'', '' 2'', '' 3'']"
    using split_comma [of "''1''" "[''2'', ''3'']"] by simp
  moreover have "trim ''1'' = ''1''" "trim '' 2'' = ''2''" "trim '' 3'' = ''3''"
    by (simp_all add: trim_digits digit_def code_of_def)
  moreover have "parse_i32 ''1'' = Some 1" "parse_i32 ''2'' = Some 2" "parse_i32 ''3'' = Some 3"
    by (simp_all add: parse_i32_def code_of_def Let_def)
  ultimately show ?thesis
    by (simp add: string_to_vec_works_def assertions string_to_vec_def List.map_filter_simps)
qed

lemma map_text_read: "string_to_hashmap_works = Some ()"
proof -
  let ?peer = "''12D3KooWGfbL6ZNGWqS11MoptH2A7DB1DG6u85FhXBUPXPVkVVRq''"
  let ?addr = "''/ip4/192.168.1.205/tcp/1509''"
  let ?entry = "?peer @ '':'' @ ?addr"
  have "test_bootnode_text = ''['' @ ?entry @ '']''" by (simp add: test_bootnode_text_def)
  moreover have "trim_brackets (''['' @ ?entry @ '']'') = ?entry" by (rule trim_brackets_wrapped) simp_all
  moreover have "split_on '','' ?entry = [?entry]" by (rule clean_split) (simp_all add: clean_disjoint)
  moreover have "CHR '':'' \<in> set ?entry" by simp
  moreover have "trim ?entry = ?entry" "trim ?peer = ?peer" "trim ?addr = ?addr"
    by (rule trim_plain; simp add: plain_char_def code_of_def)+
  moreover have "splitn2 ?entry = (?peer, Some ?addr)" by (simp add: splitn2_def)
  moreover have "1 < length ?peer" by simp
  ultimately show ?thesis
    unfolding string_to_hashmap_works_def string_to_hashmap_def
    by (simp add: assertions hashmap_step_def del: append_Cons append_Nil)
qed

lemma test_file_ports:
  "ini_ports (ini_without_keypair bl) = (CUSTOM_TCP_PORT, CUSTOM_UDP_PORT)"
  by (simp add: ini_ports_def ini_without_keypair_def get_default_def parse_port_def parse_u16_def
      parse_show CUSTOM_TCP_PORT_def CUSTOM_UDP_PORT_def)

lemma test_file_read:
  assumes "files path = Some (ini_without_keypair bl)"
  shows "\<exists>ns. from_file cd ko files path = Some
     (with_udp CUSTOM_UDP_PORT (with_tcp CUSTOM_TCP_PORT
       (with_blacklist (ini_blacklist cd (ini_without_keypair bl)) (with_bootnodes ns
         ((bootstrap_new ko)\<lparr>bc_keypair := generate_key ko Ed25519\<rparr>)))))"
proof -
  have "ini_auth (ini_without_keypair bl) = ([], [])" by (simp add: ini_auth_def ini_without_keypair_def)
  moreover obtain sec where "ini_without_keypair bl ''bootstrap'' = Some sec" by (simp add: ini_without_keypair_def)
  ultimately show ?thesis
    using from_file_eq [of files path "ini_without_keypair bl" sec "[]" "[]" ko _ cd] assms
    by (auto simp: generate_keypair_from_protobuf_def type_names test_file_ports)
qed

lemma one_peer_read:
  assumes "base58_text s" "parse_peer cd s = Some p"
  shows "ini_blacklist cd (ini_without_keypair (''['' @ s @ '']'')) = [p]"
proof -
  have s: "CHR '','' \<notin> set s" "CHR ''['' \<notin> set s" "CHR '']'' \<notin> set s" and "plain_word s"
    using assms(1) by (auto simp: base58_text_def)
  then have "s \<noteq> []" "plain_char (hd s)" "plain_char (last s)"
    by (auto simp: plain_word_def list_all_iff)
  then have "trim s = s" by (rule trim_plain)
  moreover have "trim_brackets (''['' @ s @ '']'') = s" by (rule trim_brackets_wrapped [OF s(2,3)])
  moreover have "split_on '','' s = [s]" using s(1) by (simp add: clean_split clean_disjoint)
  ultimately have "string_to_vec (parse_peer cd) (''['' @ s @ '']'') = [p]"
    using assms(2) unfolding string_to_vec_def by (simp add: List.map_filter_simps del: append_Cons append_Nil)
  then show ?thesis
    by (simp add: ini_blacklist_def ini_without_keypair_def get_default_def)
qed

lemma custom_ports: "MIN_PORT < CUSTOM_TCP_PORT" "CUSTOM_TCP_PORT < MAX_PORT"
  "MIN_PORT < CUSTOM_UDP_PORT" "CUSTOM_UDP_PORT < MAX_PORT"
  by (simp_all add: MIN_PORT_def MAX_PORT_def CUSTOM_TCP_PORT_def CUSTOM_UDP_PORT_def)

lemma file_tests:
  assumes "world_ok w"
  shows "file_does_not_exist w = Some ()" "write_config_works w = Some ()"
    "read_ini_file_with_custom_setup_works w = Some ()" "read_ini_file_with_default_setup_works w = Some ()"
    "bootstrap_config_blacklist_works w = Some ()"
proof -
  note ok = assms [unfolded world_ok_def]
  let ?cd = "cw_codecs w" and ?ko = "cw_keys w" and ?p = "cw_random_peer w"
  have ty: "keypair_type (generate_key ?ko t) = t" for t using ok by (simp add: key_ops_ok_def)
  show "file_does_not_exist w = Some ()"
    using ok by (simp add: file_does_not_exist_def read_ini_file_def assertions)
  show "write_config_works w = Some ()"
    using ok by (simp add: write_config_works_def create_test_ini_file_without_keypair_def ini_write_def
        write_config_def assertions Let_def del: append_Cons)
  let ?files = "create_test_ini_file_without_keypair w ''temp_test_read_ini_file_custom.ini''"
  have "?files ''temp_test_read_ini_file_custom.ini'' = Some (ini_without_keypair ''[]'')"
    using ok by (simp add: create_test_ini_file_without_keypair_def ini_write_def)
  then show "read_ini_file_with_custom_setup_works w = Some ()"
    using test_file_read [where files = ?files and path = "''temp_test_read_ini_file_custom.ini''" and bl = "''[]''"
        and cd = ?cd and ko = ?ko]
    by (auto simp: read_ini_file_with_custom_setup_works_def assertions Let_def setters_keep_key ports_set custom_ports ty)
  let ?text = "peer_str ?cd ?p" and ?bpath = "''bootstrap_config_blacklist_test.ini''"
  let ?bfiles = "ini_write w ?bpath (ini_without_keypair (''['' @ ?text @ '']''))"
  have "?bfiles ?bpath = Some (ini_without_keypair (''['' @ ?text @ '']''))" using ok by (simp add: ini_write_def)
  then show "bootstrap_config_blacklist_works w = Some ()"
    using test_file_read [where files = ?bfiles and path = ?bpath and bl = "''['' @ ?text @ '']''"
        and cd = ?cd and ko = ?ko] one_peer_read [of ?text ?cd ?p] ok
    by (auto simp: bootstrap_config_blacklist_works_def assertions Let_def setters_keep_blacklist with_blacklist_def
        peer_text_ok_def)
  obtain b where b: "fresh_encoding w Ecdsa = Some b" using ok by blast
  let ?doc = "[''auth'' \<mapsto> [''crypto'' \<mapsto> ''ecdsa'', ''protobuf_keypair'' \<mapsto> debug_bytes b],
      ''bootstrap'' \<mapsto> [''boot_nodes'' \<mapsto> test_bootnode_text], ''blacklist'' \<mapsto> [''blacklist'' \<mapsto> ''[]'']]"
  let ?dpath = "''temp_test_ini_file_default.ini''"
  have "create_test_ini_file_with_keypair w ?dpath Ecdsa = Some ((cw_files w)(?dpath \<mapsto> ?doc))"
    using ok b by (simp add: create_test_ini_file_with_keypair_def auth_section_def ini_write_def)
  moreover obtain bsec where "?doc ''bootstrap'' = Some bsec" by simp
  moreover have "ini_auth ?doc = (''ecdsa'', b)"
    by (rule ini_auth_written [where sec = "[''crypto'' \<mapsto> ''ecdsa'', ''protobuf_keypair'' \<mapsto> debug_bytes b]"])
      simp_all
  moreover have "generate_keypair_from_protobuf ?ko ''ecdsa'' b (bootstrap_new ?ko)
      = Some ((bootstrap_new ?ko)\<lparr>bc_keypair := generate_key ?ko Ecdsa\<rparr>)"
    by (rule generated_from_encoding) (use ok b in \<open>simp_all add: fresh_encoding_def ty type_names\<close>)
  ultimately show "read_ini_file_with_default_setup_works w = Some ()"
    using from_file_eq [of "(cw_files w)(?dpath \<mapsto> ?doc)" ?dpath ?doc bsec "''ecdsa''" b ?ko _ ?cd]
    by (simp add: read_ini_file_with_default_setup_works_def assertions setters_keep_key ty Let_def)
qed

definition config_tests :: "config_world \<Rightarrow> test list" where
  "config_tests w =
     [file_read_should_panic w, default_config_works w, new_config_with_bootnodes_works w,
      new_config_with_tcp_port_works w, new_config_with_udp_port_works w, key_type_is_invalid w,
      key_pair_is_invalid w, rsa_specified_without_filepath_panics w, rsa_specified_with_nonexistant_file w,
      rsa_with_invalid_contents_should_panic w, rsa_from_valid_file_works w,
      generate_keypair_from_protobuf_ed25519_works w, generate_keypair_from_protobuf_ecdsa_works w,
      generate_keypair_from_protobuf_secp256k1_works w, file_does_not_exist w, write_config_works w,
      read_ini_file_with_custom_setup_works w, read_ini_file_with_default_setup_works w,
      string_to_vec_works, string_to_hashmap_works, bootstrap_config_blacklist_works w]"

text \<open>All of these tests pass in a world where keys are generated and decoded as documented, files
  can be written and \<open>openssl\<close> works.\<close>

theorem config_tests_pass:
  assumes "world_ok w" shows "list_all (\<lambda>t. t = Some ()) (config_tests w)"
  by (simp add: config_tests_def default_tests [OF assms] key_tests [OF assms] file_tests [OF assms]
      list_text_read map_text_read)

text \<open>A world of this kind: an encoding is a tag for the type and the key.\<close>

definition tagged_keys :: key_ops where
  "tagged_keys =
     \<lparr>generate_key = (\<lambda>t. Keypair t ''k''),
      from_protobuf_encoding =
        (\<lambda>b. case b of
           [] \<Rightarrow> None
         | c # cs \<Rightarrow>
             (if c = CHR ''e'' then Some (Keypair Ed25519 cs) else if c = CHR ''r'' then Some (Keypair RSA cs)
              else if c = CHR ''s'' then Some (Keypair Secp256k1 cs)
              else if c = CHR ''c'' then Some (Keypair Ecdsa cs) else None)),
      to_protobuf_encoding =
        (\<lambda>k. Some ((case keypair_type k of Ed25519 \<Rightarrow> CHR ''e'' | RSA \<Rightarrow> CHR ''r'' | Secp256k1 \<Rightarrow> CHR ''s''
           | Ecdsa \<Rightarrow> CHR ''c'') # keypair_bytes k)),
      rsa_from_pkcs8 = (\<lambda>b. if b = ''der'' then Some (Keypair RSA b) else None), read_file = (\<lambda>_. None)\<rparr>"

definition config_test_world :: config_world where
  "config_test_world =
     \<lparr>cw_codecs = plain_codecs, cw_keys = tagged_keys, cw_files = Map.empty, cw_writable = (\<lambda>_. True),
      cw_openssl = Some (Some ''der''), cw_random_peer = PeerId ''QmPeer''\<rparr>"

lemma tagged_keys_ok: "key_ops_ok tagged_keys"
  by (auto simp: key_ops_ok_def tagged_keys_def keypair.expand split: if_splits key_type.splits)

lemma zeros_no_key: "replicate 64 (CHR 0x00) \<noteq> ''der''"
proof
  assume "replicate 64 (CHR 0x00) = ''der''"
  then have "length (replicate 64 (CHR 0x00)) = length ''der''" by (rule arg_cong)
  then show False by simp
qed

lemma config_test_world_ok: "world_ok config_test_world"
  by (simp add: world_ok_def config_test_world_def tagged_keys_ok peer_text_ok_def plain_codecs_def base58_text_def
      plain_word_def plain_char_def code_of_def fresh_encoding_def split: peer_id.split)
    (simp add: tagged_keys_def zeros_no_key)

theorem config_tests_pass_witness: "list_all (\<lambda>t. t = Some ()) (config_tests config_test_world)"
  by (rule config_tests_pass [OF config_test_world_ok])

theorem ini_key_read_back_witness:
  "\<exists>c. from_file plain_codecs tagged_keys
       [''boot.ini'' \<mapsto> [''bootstrap'' \<mapsto> Map.empty,
          ''auth'' \<mapsto> [''crypto'' \<mapsto> ''ecdsa'', ''protobuf_keypair'' \<mapsto> debug_bytes ''cold'']]] ''boot.ini'' = Some c
     \<and> bc_keypair c = Keypair Ecdsa ''old''"
  by (rule ini_key_read_back [OF tagged_keys_ok, where b = "''cold''" and crypto = "''ecdsa''"
        and sec = "[''crypto'' \<mapsto> ''ecdsa'', ''protobuf_keypair'' \<mapsto> debug_bytes ''cold'']"
        and doc = "[''bootstrap'' \<mapsto> Map.empty,
          ''auth'' \<mapsto> [''crypto'' \<mapsto> ''ecdsa'', ''protobuf_keypair'' \<mapsto> debug_bytes ''cold'']]"])
    (simp_all add: tagged_keys_def type_names)

theorem saved_identity_needs_its_type_witness:
  "\<exists>files'. save_keypair_offline tagged_keys (\<lambda>_. True) (\<lambda>_. True) (Keypair Ecdsa ''old'') ''boot.ini''
       sample_files = Some (files', True)
     \<and> map_option bc_keypair (from_file plain_codecs tagged_keys files' ''boot.ini'') = Some (Keypair Ed25519 ''k'')"
proof -
  obtain files' where f: "save_keypair_offline tagged_keys (\<lambda>_. True) (\<lambda>_. True) (Keypair Ecdsa ''old'') ''boot.ini''
       sample_files = Some (files', True)"
    by (simp add: save_keypair_offline_def write_config_def sample_files_def tagged_keys_def)
  from saved_identity_needs_its_type [OF tagged_keys_ok f refl, of plain_codecs] f show ?thesis
    by (simp add: sample_files_def crypto_of_def key_type_from_def tagged_keys_def)
qed

end
