(* ===== verification/Core_Wrappers.thy ===== *)
theory Core_Wrappers
  imports Event_Loop Builder
begin

text \<open>
  The small parts around the core: the event type of the combined behaviour
  (\<open>swarm-nl/src/core/mod.rs\<close>), which says which protocol an event of the swarm comes from, the
  getters of the configuration types, the comparison operators of the replicated data, and the
  helpers of \<open>swarm-nl/src/util.rs\<close> that read the clock, draw random text or decode a peer.
\<close>

section \<open>Events of the behaviour\<close>

record ping_event =
  ping_peer :: peer_id
  ping_result :: "ping_failure + duration"

datatype identify_event = Identified peer_id string identify_info | Identify_Quiet

datatype rpc_message = Request_Msg nat rpc_data | Response_Msg rpc_data

datatype rpc_event = Rpc_Message peer_id rpc_message | Rpc_Failed_Outbound | Rpc_Quiet

datatype gossip_event =
    Gossip_Received gossip_message
  | Gossip_Peer_Subscribed peer_id string
  | Gossip_Peer_Unsubscribed peer_id string
  | Gossip_Quiet

datatype core_event =
    Ping ping_event
  | RequestResponse rpc_event
  | Kademlia kad_event
  | Identify identify_event
  | Gossipsub gossip_event

text \<open>The five \<open>From\<close> implementations.\<close>

definition from_ping :: "ping_event \<Rightarrow> core_event" where "from_ping event = Ping event"
definition from_kademlia :: "kad_event \<Rightarrow> core_event" where "from_kademlia event = Kademlia event"
definition from_identify :: "identify_event \<Rightarrow> core_event" where "from_identify event = Identify event"
definition from_request_response :: "rpc_event \<Rightarrow> core_event" where
  "from_request_response event = RequestResponse event"
definition from_gossipsub :: "gossip_event \<Rightarrow> core_event" where "from_gossipsub event = Gossipsub event"

text \<open>The event of the swarm, in the form \<open>Event_Loop\<close> has it, where the protocol is part of the
  constructor.\<close>

fun behaviour_event :: "core_event \<Rightarrow> swarm_event" where
  "behaviour_event (Ping e) =
     (case ping_result e of Inl failure \<Rightarrow> Ping_Err (ping_peer e) failure | Inr d \<Rightarrow> Ping_Ok (ping_peer e) d)"
| "behaviour_event (Kademlia e) = Kad_Ev e"
| "behaviour_event (Identify (Identified peer version info)) = Identify_Received peer version info"
| "behaviour_event (Identify Identify_Quiet) = Identify_Other"
| "behaviour_event (RequestResponse (Rpc_Message peer (Request_Msg channel data))) = Rpc_Request peer channel data"
| "behaviour_event (RequestResponse (Rpc_Message peer (Response_Msg data))) = Rpc_Response data"
| "behaviour_event (RequestResponse Rpc_Failed_Outbound) = Rpc_Outbound_Failure"
| "behaviour_event (RequestResponse Rpc_Quiet) = Rpc_Other"
| "behaviour_event (Gossipsub (Gossip_Received msg)) = Gossip_Message msg"
| "behaviour_event (Gossipsub (Gossip_Peer_Subscribed peer topic)) = Gossip_Subscribed peer topic"
| "behaviour_event (Gossipsub (Gossip_Peer_Unsubscribed peer topic)) = Gossip_Unsubscribed peer topic"
| "behaviour_event (Gossipsub Gossip_Quiet) = Gossip_Other"

text \<open>Only gossip, requests and identification can bring the network task down: the handlers of the
  other two protocols always return.\<close>

lemma ping_and_kademlia_survive:
  "handle_swarm_event cd now (behaviour_event (from_ping e)) ls \<noteq> None"
  "handle_swarm_event cd now (behaviour_event (from_kademlia k)) ls \<noteq> None"
  by (simp_all add: from_ping_def from_kademlia_def handle_swarm_event_def split: sum.splits)

section \<open>Getters\<close>

definition keypair_of :: "bootstrap_config \<Rightarrow> keypair" where "keypair_of c = bc_keypair c"
definition bootnodes :: "bootstrap_config \<Rightarrow> nodes_map" where "bootnodes c = boot_nodes c"
definition blacklist_of :: "bootstrap_config \<Rightarrow> blacklist_rec" where "blacklist_of c = bc_blacklist c"
definition network_id :: "core_builder \<Rightarrow> string" where "network_id b = cb_network_id b"
definition bootstrap_default :: "key_ops \<Rightarrow> bootstrap_config" where "bootstrap_default ko = bootstrap_new ko"

text \<open>What is set is what the getters return; bootnodes and blacklist only grow.\<close>

lemma getters_setters:
  "bootnodes (with_bootnodes ns c) p = (case ns p of None \<Rightarrow> bootnodes c p | Some a \<Rightarrow> Some a)"
  "blacklist_into_inner (blacklist_of (with_blacklist ps c)) = blacklist_into_inner (blacklist_of c) \<union> set ps"
  "keypair_of (with_bootnodes ns c) = keypair_of c" "keypair_of (with_blacklist ps c) = keypair_of c"
  by (simp_all add: bootnodes_def with_bootnodes_def map_add_def blacklist_into_inner_def blacklist_of_def
      with_blacklist_def keypair_of_def split: option.split)

section \<open>Comparing replicated data\<close>

definition repl_partial_cmp :: "repl_buffer_data \<Rightarrow> repl_buffer_data \<Rightarrow> ordering option" where
  "repl_partial_cmp a b = Some (repl_cmp a b)"

text \<open>The contract of \<open>Ord\<close>: the three comparisons agree.\<close>

lemma comparisons_agree: "repl_eq a b \<longleftrightarrow> repl_partial_cmp a b = Some (repl_cmp a a)"
  by (auto simp: repl_partial_cmp_def repl_eq_key repl_cmp_key cmp_def)

section \<open>Helpers of util.rs\<close>

text \<open>\<open>from_base58\<close> and \<open>PeerId::from_bytes\<close> are libraries; text that is no base58 counts as empty.\<close>

definition string_to_peer_id ::
    "(string \<Rightarrow> bytes option) \<Rightarrow> (bytes \<Rightarrow> peer_id option) \<Rightarrow> string \<Rightarrow> peer_id option" where
  "string_to_peer_id from_base58 from_bytes peer_id_string =
     from_bytes (case from_base58 peer_id_string of None \<Rightarrow> [] | Some b \<Rightarrow> b)"

text \<open>The generator's successive draws of alphanumeric characters are an argument.\<close>

definition generate_random_string :: "(nat \<Rightarrow> char) \<Rightarrow> nat \<Rightarrow> string" where
  "generate_random_string sample n = map sample [0..<n]"

lemma random_string_length: "length (generate_random_string sample n) = n"
  by (simp add: generate_random_string_def)

text \<open>The system clock in nanoseconds from the epoch, which may be before it; then the reading
  panics.\<close>

definition get_unix_timestamp :: "int \<Rightarrow> seconds option" where
  "get_unix_timestamp now = (if now < 0 then None else Some (word_of_int (now div 10 ^ 9)))"

lemma timestamp_monotone:
  assumes "0 \<le> t" "t \<le> t'" "t' < 2 ^ 64 * 10 ^ 9"
  shows "the (get_unix_timestamp t) \<le> the (get_unix_timestamp t')"
proof -
  have "t' div 10 ^ 9 < 2 ^ 64" using assms(3) by simp
  moreover have "t div 10 ^ 9 \<le> t' div 10 ^ 9" using assms(2) by (simp add: zdiv_mono1)
  moreover have "0 \<le> t div 10 ^ 9" using assms(1) by simp
  ultimately show ?thesis
    using assms(1,2) by (simp add: get_unix_timestamp_def word_le_def take_bit_int_eq_self_iff unsigned_of_int
      take_bit_int_eq_self)
qed

end
