(* ===== verification/Loop_Props.thy ===== *)
theory Loop_Props
  imports Sample_Nodes
begin

text \<open>
  What the network task guarantees (\<open>Core::handle_async_operations\<close> in
  \<open>swarm-nl/src/core/mod.rs\<close>): how many answers a request gets, which gossip and RPC
  messages a remote peer can bring the task down with, and what pings do.
\<close>

section \<open>Answers\<close>

text \<open>Serving a request queues at most one response, under the identifier of that request, and
  touches neither the shared state of the node nor earlier responses.\<close>

theorem request_answered_at_most_once:
  "(out_channel (handle_app_data cd sw sid req ls) = out_channel ls
    \<or> (\<exists>r. out_channel (handle_app_data cd sw sid req ls) = out_channel ls @ [ToApplication sid r]))
   \<and> node (handle_app_data cd sw sid req ls) = node ls"
  by (cases req) (simp_all add: handle_dial_def handle_store_record_def handle_lookup_def
      handle_get_providers_def handle_send_rpc_def handle_broadcast_def handle_join_def
      handle_exit_def handle_blacklist_def handle_filter_blacklist_def make_call_def respond_def
      Let_def split: option.split)

text \<open>A dial to an address that does not parse is dropped: it gets no answer, now or later, and the
  network is not touched.\<close>

theorem unparsable_dial_is_dropped:
  assumes "parse_addr cd addr = None"
  shows "handle_app_data cd sw sid (DailPeer peer addr) ls = ls"
  using assms by (simp add: handle_dial_def)

theorem unparsable_dial_is_dropped_witness:
  "out_channel (handle_app_data sample_codecs sample_swarm (StreamId 1) (DailPeer (PeerId ''p'') ''x'')
     (loop_start (sample_core 5))) = []"
  using unparsable_dial_is_dropped [of sample_codecs "''x''" sample_swarm "StreamId 1" "PeerId ''p''"
      "loop_start (sample_core 5)"]
  by (simp add: sample_codecs_def loop_start_def)

text \<open>Blacklisting shows in the gossip information from then on until the peer is taken off
  again; the swarm is told each time.\<close>

theorem blacklist_is_reported:
  "\<exists>topics mesh. gossip_info_response sw (loop_blacklist (handle_blacklist sid p ls))
       = GossipsubGetInfo_Resp topics mesh (insert p (list_of (loop_blacklist ls)))
   \<and> gossip_info_response sw (loop_blacklist (handle_filter_blacklist sid p (handle_blacklist sid p ls)))
       = GossipsubGetInfo_Resp topics mesh (list_of (loop_blacklist ls) - {p})
   \<and> calls (handle_filter_blacklist sid p (handle_blacklist sid p ls))
       = calls ls @ [GossipBlacklist p, GossipRemoveBlacklisted p]"
  by (simp add: gossip_info_response_def blacklist_into_inner_def handle_blacklist_def
      handle_filter_blacklist_def make_call_def respond_def)

section \<open>Gossip\<close>

lemma gossip_fields_nonempty [simp]: "gossip_fields payload \<noteq> []"
  by (simp add: gossip_fields_def)

lemma gossip_fields_join:
  assumes "ps \<noteq> []" "list_all (clean GOSSIP_MESSAGE_SEPARATOR) ps" "list_all utf8_valid ps"
  shows "gossip_fields (join_with GOSSIP_MESSAGE_SEPARATOR ps) = ps"
proof -
  have "utf8_valid GOSSIP_MESSAGE_SEPARATOR"
    by (rule ascii_utf8_valid) (simp add: GOSSIP_MESSAGE_SEPARATOR_def ascii_def code_of_def)
  then have "from_utf8_lossy (join_with GOSSIP_MESSAGE_SEPARATOR ps)
      = join_with GOSSIP_MESSAGE_SEPARATOR ps"
    by (intro from_utf8_lossy_valid utf8_valid_join) (use assms in auto)
  moreover have "split_on GOSSIP_MESSAGE_SEPARATOR (join_with GOSSIP_MESSAGE_SEPARATOR ps) = ps"
    by (rule gossip_sep.split_join) (use assms in \<open>auto simp: list_all_iff\<close>)
  ultimately show ?thesis by (simp add: gossip_fields_def)
qed

definition reserved_flag :: "string \<Rightarrow> bool" where
  "reserved_flag f \<longleftrightarrow> f \<in> {REPL_GOSSIP_FLAG, STRONG_CONSISTENCY_FLAG, EVENTUAL_CONSISTENCY_FLAG,
     SHARD_GOSSIP_JOIN_FLAG, SHARD_GOSSIP_EXIT_FLAG}"

text \<open>C28: A message whose parts hold no separator reaches the application of a receiver part by part
  as it was sent, if the parts are UTF-8, the receiver's filter lets it through and its first part
  is no flag.\<close>

theorem broadcast_reaches_application:
  assumes "message \<noteq> []" "list_all (clean GOSSIP_MESSAGE_SEPARATOR) message" "list_all utf8_valid message"
    and "\<not> reserved_flag (hd message)"
    and "gossip_filter_fn (network_info (node receiver)) source mid origin topic message = Some True"
  shows "\<exists>payload. calls (handle_broadcast sw sid topic message ls) = calls ls @ [GossipPublish topic payload]
     \<and> handle_gossip cd now \<lparr>propagation_source = source, gossip_id = mid, gossip_source = origin,
            gossip_payload = payload, gossip_topic = topic\<rparr> receiver
         = Some (log_event (GossipsubIncomingMessageHandled source message) receiver)"
proof -
  let ?payload = "join_with GOSSIP_MESSAGE_SEPARATOR message"
  have "calls (handle_broadcast sw sid topic message ls) = calls ls @ [GossipPublish topic ?payload]"
    by (simp add: handle_broadcast_def Let_def make_call_def respond_def)
  moreover have "gossip_fields ?payload = message" by (rule gossip_fields_join) (use assms in auto)
  ultimately show ?thesis
    using assms by (intro exI [of _ ?payload])
      (auto simp: handle_gossip_def Let_def index_def reserved_flag_def hd_conv_nth handle_plain_gossip_def)
qed

theorem broadcast_reaches_application_witness:
  "\<exists>payload. calls (handle_broadcast sample_swarm (StreamId 1) ''t'' [''hello'', ''world'']
        (loop_start (sample_core 5))) = [GossipPublish ''t'' payload]
     \<and> handle_gossip sample_codecs 0 \<lparr>propagation_source = PeerId ''q'', gossip_id = ''1'',
          gossip_source = None, gossip_payload = payload, gossip_topic = ''t''\<rparr> (loop_start (sample_core 5))
         = Some (log_event (GossipsubIncomingMessageHandled (PeerId ''q'') [''hello'', ''world''])
                  (loop_start (sample_core 5)))"
proof -
  have "gossip_filter_fn (network_info (sample_core 5)) a b c d e = Some True" for a b c d e
    by (simp add: sample_core_def initial_core_def initial_info_def sample_builder_def
        with_stream_size_def with_config_def)
  then show ?thesis
    using broadcast_reaches_application [of "[''hello'', ''world'']" "loop_start (sample_core 5)"
        "PeerId ''q''" "''1''" None "''t''" sample_swarm "StreamId 1" "loop_start (sample_core 5)"
        sample_codecs 0]
    by (simp add: GOSSIP_MESSAGE_SEPARATOR_def reserved_flag_def flag_defs loop_start_def
        utf8_head_def utf8_seq_def byte_at_def code_of_def)
qed

text \<open>The gossip messages that are too short for their flag.\<close>

definition gossip_too_short :: "codecs \<Rightarrow> string_vector \<Rightarrow> bool" where
  "gossip_too_short cd g \<longleftrightarrow>
     hd g = REPL_GOSSIP_FLAG \<and> length g < 4
     \<or> hd g = STRONG_CONSISTENCY_FLAG \<and> length g < 3
     \<or> hd g = EVENTUAL_CONSISTENCY_FLAG \<and> length g < 5
     \<or> hd g \<in> {SHARD_GOSSIP_JOIN_FLAG, SHARD_GOSSIP_EXIT_FLAG}
         \<and> (length g < 2 \<or> length g = 2 \<and> parse_peer cd (g ! 1) \<noteq> None)"

lemma bind_None: "Option.bind x f = None \<longleftrightarrow> (\<forall>y. x = Some y \<longrightarrow> f y = None)"
  by (cases x) auto

text \<open>C14: The gossip messages that bring the network task down are exactly those that carry a flag and
  are too short for it, which any peer can send, and those without a flag on which the
  application's own filter panics. A join or an exit without its third field is too short only if
  its second one is the text of a peer.\<close>

theorem gossip_panics_iff_too_short:
  "handle_gossip cd now msg ls = None \<longleftrightarrow>
     gossip_too_short cd (gossip_fields (gossip_payload msg))
     \<or> \<not> reserved_flag (hd (gossip_fields (gossip_payload msg)))
         \<and> gossip_filter_fn (network_info (node ls)) (propagation_source msg) (gossip_id msg)
             (gossip_source msg) (gossip_topic msg) (gossip_fields (gossip_payload msg)) = None"
proof -
  let ?g = "gossip_fields (gossip_payload msg)"
  have idx: "index ?g 0 = Some (hd ?g)" by (simp add: index_def hd_conv_nth)
  have repl: "handle_repl_gossip now msg ?g ls = None \<longleftrightarrow> length ?g < 4"
    by (auto simp: handle_repl_gossip_def incoming_repl_def bind_None slice_iffs)
  have strong: "handle_strong_gossip ?g ls = None \<longleftrightarrow> length ?g < 3"
    by (auto simp: handle_strong_gossip_def bind_None slice_iffs)
  have eventual: "handle_eventual_gossip ?g ls = None \<longleftrightarrow> length ?g < 5"
    by (auto simp: handle_eventual_gossip_def bind_None slice_iffs)
  have join: "handle_shard_join cd ?g ls = None
      \<longleftrightarrow> length ?g < 2 \<or> length ?g = 2 \<and> parse_peer cd (?g ! 1) \<noteq> None"
    by (auto simp: handle_shard_join_def bind_None slice_iffs split: option.split)
  have exit: "handle_shard_exit cd ?g ls = None
      \<longleftrightarrow> length ?g < 2 \<or> length ?g = 2 \<and> parse_peer cd (?g ! 1) \<noteq> None"
    by (auto simp: handle_shard_exit_def bind_None slice_iffs split: option.split)
  show ?thesis
    using flags_distinct(1)
    by (auto simp: handle_gossip_def Let_def idx repl strong eventual join exit gossip_too_short_def
        reserved_flag_def handle_plain_gossip_def)
qed

section \<open>RPC\<close>

definition rpc_too_short :: "rpc_data \<Rightarrow> replica_buffer_queue \<Rightarrow> bool" where
  "rpc_too_short data rb \<longleftrightarrow>
     data = []
     \<or> from_utf8_lossy (hd data) = RPC_SYNC_PULL_FLAG
         \<and> (length data < 2
            \<or> length data = 2 \<and> queue rb (case from_utf8 (data ! 1) of None \<Rightarrow> [] | Some rn \<Rightarrow> rn) \<noteq> None)
     \<or> from_utf8_lossy (hd data) \<in> {SHARD_RPC_SYNC_FLAG, RPC_DATA_FORWARDING_FLAG} \<and> length data < 2"

lemma pull_None:
  "pull_missing_data cd rn ids rb = None \<longleftrightarrow> queue rb rn \<noteq> None \<and> ids = []"
  by (auto simp: pull_missing_data_def select_requested_def index_def split: option.splits)

definition reserved_rpc_flag :: "string \<Rightarrow> bool" where
  "reserved_rpc_flag f \<longleftrightarrow> f \<in> {RPC_SYNC_PULL_FLAG, SHARD_RPC_SYNC_FLAG, RPC_DATA_FORWARDING_FLAG,
     SHARD_RPC_REQUEST_FLAG}"

text \<open>C15: The RPC requests that bring the network task down are exactly the empty one, the
  pull, shard sync and forwarding requests without their first argument, a pull request for a
  network of the node that names no message, and those on which the application's storage, asked
  by a shard request, or its RPC handler panics.\<close>

theorem rpc_panics_iff_too_short:
  "handle_rpc_request cd peer channel data ls = None \<longleftrightarrow>
     rpc_too_short data (replica_buffer (node ls))
     \<or> from_utf8_lossy (hd data) = SHARD_RPC_REQUEST_FLAG
         \<and> fetch_data (local_storage (sharding (network_info (node ls)))) (tl data) = None
     \<or> \<not> reserved_rpc_flag (from_utf8_lossy (hd data)) \<and> rpc_handler_fn (network_info (node ls)) data = None"
proof (cases data)
  case (Cons d ds)
  let ?flag = "from_utf8_lossy d"
  have pull: "serve_sync_pull cd channel data ls = None \<longleftrightarrow> length data < 2
      \<or> length data = 2 \<and> queue (replica_buffer (node ls))
            (case from_utf8 (data ! 1) of None \<Rightarrow> [] | Some rn \<Rightarrow> rn) \<noteq> None"
    by (auto simp: serve_sync_pull_def bind_None slice_iffs pull_None)
  have sync: "serve_shard_sync cd channel data ls = None \<longleftrightarrow> length data < 2"
    by (auto simp: serve_shard_sync_def bind_None slice_iffs)
  have forwarded: "serve_forwarded peer channel data ls = None \<longleftrightarrow> length data < 2"
    by (auto simp: serve_forwarded_def bind_None slice_iffs)
  have request: "serve_shard_request channel data ls = None
      \<longleftrightarrow> fetch_data (local_storage (sharding (network_info (node ls)))) (tl data) = None"
    by (cases "fetch_data (local_storage (sharding (network_info (node ls)))) (tl data)")
       (auto simp: serve_shard_request_def slice_from_def Cons fetch_local_def Let_def)
  have "index data 0 = Some d" "hd data = d" "data \<noteq> []" by (simp_all add: Cons index_def)
  then show ?thesis
    using flags_distinct(2)
    by (auto simp: handle_rpc_request_def Let_def rpc_too_short_def pull sync forwarded request
        reserved_rpc_flag_def simp del: not_None_eq)
qed (simp add: handle_rpc_request_def index_def rpc_too_short_def)

section \<open>Ping\<close>

text \<open>The counts of a node stay at 0 or, with the limit 0, at 1: the sum of \<open>count_error\<close> never wraps.\<close>

definition small_counts :: "u16 \<Rightarrow> (peer_id \<rightharpoonup> u16) \<Rightarrow> bool" where
  "small_counts limit m \<longleftrightarrow> (\<forall>peer k. m peer = Some k \<longrightarrow> k = 0 \<or> limit = 0 \<and> k = 1)"

lemma count_error_stays_small:
  "small_counts limit Map.empty"
  "small_counts limit m \<Longrightarrow> small_counts limit (fst (count_error peer limit m))"
  "small_counts limit m \<Longrightarrow> small_counts limit (halve_count peer m)"
proof -
  have half: "n = 0 \<or> n = 1 \<Longrightarrow> n div 2 = 0" for n :: u16 by auto
  show "small_counts limit Map.empty" by (simp add: small_counts_def)
  assume m: "small_counts limit m"
  then show "small_counts limit (fst (count_error peer limit m))"
    by (auto simp: small_counts_def count_error_def Let_def split: option.splits)
  show "small_counts limit (halve_count peer m)"
    using m half by (fastforce simp: small_counts_def halve_count_def split: option.splits)
qed

text \<open>Under \<open>DisconnectAfterMaxErrors n\<close> with any \<open>n\<close> above 0, the very first failed ping
  disconnects the peer; no count is ever kept, so the limit has no effect.\<close>

theorem first_ping_error_disconnects:
  assumes "policy (loop_ping ls) = DisconnectAfterMaxErrors limit" "limit \<noteq> 0"
    and "outbound_errors (manager (loop_ping ls)) peer \<in> {None, Some 0}"
  shows "calls (handle_ping_err peer failure ls) = calls ls @ [SwarmDisconnect peer]
     \<and> outbound_errors (manager (loop_ping (handle_ping_err peer failure ls))) peer = None
     \<and> policy (loop_ping (handle_ping_err peer failure ls)) = DisconnectAfterMaxErrors limit"
  using assms
  by (auto simp: handle_ping_err_def ping_failure_policy_def count_error_def Let_def make_call_def
      log_event_def update_node_def)

definition pinging :: loop_state where
  "pinging = (loop_start (sample_core 5))
     \<lparr>loop_ping := \<lparr>policy = DisconnectAfterMaxErrors 10,
        manager = \<lparr>timeouts = Map.empty, outbound_errors = Map.empty\<rparr>\<rparr>\<rparr>"

theorem first_ping_error_disconnects_witness:
  "calls (handle_ping_err (PeerId ''p'') Ping_Other pinging) = [SwarmDisconnect (PeerId ''p'')]"
  using first_ping_error_disconnects [of pinging 10 "PeerId ''p''" Ping_Other]
  by (simp add: pinging_def loop_start_def)

text \<open>Without a policy of disconnection no ping result disconnects anyone, and a successful ping
  halves both counts of that peer and no other.\<close>

theorem pings_without_policy:
  assumes "policy (loop_ping ls) = NoDisconnect"
  shows "calls (handle_ping_err peer failure ls) = calls ls
     \<and> calls (handle_ping_ok peer d ls) = calls ls
     \<and> outbound_errors (manager (loop_ping (handle_ping_ok peer d ls))) q
         = (if q = peer then map_option (\<lambda>n. n div 2) (outbound_errors (manager (loop_ping ls)) q)
            else outbound_errors (manager (loop_ping ls)) q)
     \<and> timeouts (manager (loop_ping (handle_ping_ok peer d ls))) q
         = (if q = peer then map_option (\<lambda>n. n div 2) (timeouts (manager (loop_ping ls)) q)
            else timeouts (manager (loop_ping ls)) q)"
  using assms
  by (auto simp: handle_ping_err_def handle_ping_ok_def ping_failure_policy_def ping_decay_def
      halve_count_def Let_def make_call_def log_event_def update_node_def split: option.split)

theorem pings_without_policy_witness:
  "calls (handle_ping_err (PeerId ''p'') Ping_Timeout
     (pinging\<lparr>loop_ping := (loop_ping pinging)\<lparr>policy := NoDisconnect\<rparr>\<rparr>)) = []"
  using pings_without_policy [of "pinging\<lparr>loop_ping := (loop_ping pinging)\<lparr>policy := NoDisconnect\<rparr>\<rparr>"
      "PeerId ''p''" Ping_Timeout]
  by (simp add: pinging_def loop_start_def)

end
