(* ===== verification/Example_Repl.thy ===== *)
theory Example_Repl
  imports Example_Common Sample_Nodes
begin

text \<open>
  The replication examples (\<open>examples/replication/*/src/main.rs\<close>, \<open>examples/http-client\<close>,
  \<open>examples/ipfs\<close>): a node in a replica network, a task that watches incoming data, and a
  menu to replicate what is typed, to read the buffer and, in \<open>peer-cloning\<close>, to clone
  another node. \<open>strong-consistency\<close> has no menu: it replicates every line.

  The answers of the HTTP server and of the IPFS daemon are functions of what is sent. The
  prompt is not part of the screen; standard error is.
\<close>

definition REPL_NETWORK_ID :: string where "REPL_NETWORK_ID = ''replica_xx''"

section \<open>Setting up\<close>

definition repl_builder ::
    "key_ops \<Rightarrow> consistency_model \<Rightarrow> port \<times> port \<Rightarrow> bytes \<Rightarrow> nodes_map \<Rightarrow> core_builder option" where
  "repl_builder ko model pp protobuf boot =
     Option.bind (deterministic_config ko protobuf pp boot) (\<lambda>cfg.
     map_option (with_replication (ReplCustom 150 (Some 10) 5 model 2))
       (with_gossipsub (\<lambda>_. True) GossipDefault allow_gossip
          (with_rpc RpcDefault echo_rpc (with_config cfg))))"

definition eventual_setup_node where
  "eventual_setup_node cd ko h pp protobuf boot order =
     Option.bind (repl_builder ko Eventual pp protobuf boot) (build_unwrap Tokio cd h order)"

definition cloning_setup_node where
  "cloning_setup_node cd ko h pp protobuf boot order =
     Option.bind (repl_builder ko (Strong All_Peers) pp protobuf boot) (build_unwrap Tokio cd h order)"

definition strong_setup_node where
  "strong_setup_node cd ko h pp protobuf boot order =
     Option.bind (repl_builder ko (Strong All_Peers) pp protobuf boot) (build_unwrap Tokio cd h order)"

definition http_setup_node where
  "http_setup_node cd ko h pp protobuf boot order =
     Option.bind (repl_builder ko Eventual pp protobuf boot) (build_unwrap Tokio cd h order)"

definition ipfs_setup_node where
  "ipfs_setup_node cd ko h pp protobuf boot order =
     Option.bind (repl_builder ko Eventual pp protobuf boot) (build_unwrap Tokio cd h order)"

record repl_app =
  rp_node :: core
  rp_screen :: "string list"

definition psay :: "string list \<Rightarrow> repl_app \<Rightarrow> repl_app" where
  "psay ls a = a\<lparr>rp_screen := rp_screen a @ ls\<rparr>"

text \<open>Joining the network (a failure panics), then the events of the setup; \<open>world\<close> is what
  the network task does before they are read.\<close>

definition join_replicas ::
    "codecs \<Rightarrow> formats \<Rightarrow> env \<Rightarrow> (core \<Rightarrow> core) \<Rightarrow> string \<Rightarrow> loop_state \<Rightarrow> repl_app option" where
  "join_replicas cd fm env world joining ls =
     (case join_repl_network env REPL_NETWORK_ID (node ls) of
        (c, Inl e) \<Rightarrow> None
      | (c, Inr _) \<Rightarrow>
          (let (c1, lines) = report_setup cd fm (world c) in
           Some \<lparr>rp_node = c1, rp_screen = [joining, ''Replica network successfully joined''] @ lines\<rparr>))"

section \<open>The commands\<close>

definition replicate_command :: "env \<Rightarrow> string \<Rightarrow> repl_app \<Rightarrow> repl_app" where
  "replicate_command env data a =
     (if data \<noteq> [] then
        (let a1 = psay [''Replicating data: '' @ data] a in
         case replicate_data env [data] REPL_NETWORK_ID (rp_node a1) of
           (c, Inr _) \<Rightarrow> psay [''Replication successful''] (a1\<lparr>rp_node := c\<rparr>)
         | (c, Inl e) \<Rightarrow> psay [''Replication failed: '' @ error_text e] (a1\<lparr>rp_node := c\<rparr>))
      else psay [''Error: No data provided to replicate.''] a)"

text \<open>\<open>while let Some(repl_data) = node.consume_repl_data(..).await\<close> prints the first item of
  each element; without one it panics.\<close>

lemma consume_shrinks:
  assumes "consume_repl_data rn c = (c', Some d)"
  shows "length (public_queue c' rn) < length (public_queue c rn)"
proof -
  obtain q q' where q: "queue (replica_buffer c) rn = Some q" "q = d # q'"
    using assms by (auto simp: consume_repl_data_def pop_front_queue_def Let_def bset_first_def
        split: option.splits list.splits)
  then have "queue (replica_buffer c') rn = Some (rset_remove d (d # q'))"
    using assms by (auto simp: consume_repl_data_def pop_front_queue_def Let_def)
  with q show ?thesis by (simp add: public_queue_def or_default_def rset_remove_def)
qed

function read_buffer :: "core \<Rightarrow> (core \<times> string list) option" where
  "read_buffer c =
     (case consume_repl_data REPL_NETWORK_ID c of
        (c', None) \<Rightarrow> Some (c', [])
      | (c', Some d) \<Rightarrow>
          Option.bind (index (rdata d) 0) (\<lambda>t.
            map_option (\<lambda>(c'', lines). (c'', (''Buffer Data: '' @ t) # lines)) (read_buffer c')))"
  by pat_completeness auto
termination
  by (relation "measure (\<lambda>c. length (public_queue c REPL_NETWORK_ID))")
    (auto dest: consume_shrinks [OF sym])

declare read_buffer.simps [simp del]

definition read_command :: "repl_app \<Rightarrow> repl_app option" where
  "read_command a =
     map_option (\<lambda>(c, lines). psay (''Reading contents from buffer...'' # lines) (a\<lparr>rp_node := c\<rparr>))
       (read_buffer (rp_node a))"

text \<open>The menu of the examples that only replicate and read.\<close>

definition repl_menu :: "env \<Rightarrow> string \<Rightarrow> repl_app \<Rightarrow> (repl_app \<times> bool) option" where
  "repl_menu env input a =
     (case words_of input of
        [] \<Rightarrow> Some (psay [no_command_line] a, True)
      | command # parts \<Rightarrow>
          (let data = join_with '' '' parts in
           if command = ''repl'' then Some (replicate_command env data a, True)
           else if command = ''read'' then map_option (\<lambda>a'. (a', True)) (read_command a)
           else if command = ''exit'' then Some (psay [goodbye_line] a, False)
           else Some (psay [unknown_line command] a, True)))"

section \<open>Eventual consistency\<close>

definition eventual_usage :: "string list" where
  "eventual_usage =
     [[char_of (10 :: nat)] @ ''==================='', ''Replication Test Menu'', ''Usage:'',
      ''repl <data> - Replicate to peers'', ''read        - Read content from buffer'',
      ''exit        - Exit the application'']"

definition eventual_start ::
    "codecs \<Rightarrow> formats \<Rightarrow> key_ops \<Rightarrow> host \<Rightarrow> env \<Rightarrow> (core \<Rightarrow> core)
      \<Rightarrow> port \<times> port \<Rightarrow> port \<times> port \<Rightarrow> port \<times> port \<Rightarrow> peer_id \<times> peer_id \<Rightarrow> bytes
      \<Rightarrow> (peer_id_string \<times> multiaddr_string) list \<Rightarrow> repl_app option" where
  "eventual_start cd fm ko h env world ports_1 ports_2 ports_3 peer_ids keypair order =
     map_option (psay eventual_usage)
       (Option.bind
         (eventual_setup_node cd ko h ports_1 keypair (two_bootnodes cd peer_ids ports_2 ports_3) order)
         (join_replicas cd fm env world ''Joining replica network''))"

definition eventual_listen :: "codecs \<Rightarrow> repl_app \<Rightarrow> repl_app \<times> bool" where
  "eventual_listen cd a =
     (case next_event (rp_node a) of
        (c, Some (ReplicaDataIncoming _ _ _ _ _ source)) \<Rightarrow>
          (psay [''Recieved incoming replica data from '' @ peer_str cd source] (a\<lparr>rp_node := c\<rparr>), True)
      | (c, _) \<Rightarrow> (a\<lparr>rp_node := c\<rparr>, True))"

definition eventual_run :: "codecs \<Rightarrow> turn list \<Rightarrow> repl_app \<Rightarrow> (repl_app \<times> bool) option" where
  "eventual_run cd turns a =
     run_turns repl_menu (eventual_listen cd) (\<lambda>f a. a\<lparr>rp_node := f (rp_node a)\<rparr>) turns True a"

section \<open>Cloning\<close>

definition clone_command :: "codecs \<Rightarrow> formats \<Rightarrow> env \<Rightarrow> string \<Rightarrow> repl_app \<Rightarrow> repl_app" where
  "clone_command cd fm env data a =
     (if data = [] then psay [''Error: No data provided to replicate. Usage: clone <peer_id>''] a
      else
        (case parse_peer cd (hd (split_on '' '' data)) of
           None \<Rightarrow> psay [''Error: Invalid PeerId provided. Please ensure the ID is in the correct format.''] a
         | Some peer \<Rightarrow>
             (let a1 = psay [''Attempting to clone replica peer: '' @ peer_str cd peer] a in
              case replicate_buffer cd env REPL_NETWORK_ID peer (rp_node a1) of
                (c, Inr _) \<Rightarrow> psay [''Replication successful: '' @ peer_str cd peer] (a1\<lparr>rp_node := c\<rparr>)
              | (c, Inl e) \<Rightarrow>
                  psay [''Error: Failed to clone peer '' @ peer_str cd peer @ '': '' @ debug_error fm e]
                    (a1\<lparr>rp_node := c\<rparr>))))"

definition cloning_menu ::
    "codecs \<Rightarrow> formats \<Rightarrow> env \<Rightarrow> string \<Rightarrow> repl_app \<Rightarrow> (repl_app \<times> bool) option" where
  "cloning_menu cd fm env input a =
     (case words_of input of
        command # parts \<Rightarrow>
          (if command = ''clone''
           then Some (clone_command cd fm env (join_with '' '' parts) a, True)
           else repl_menu env input a)
      | [] \<Rightarrow> repl_menu env input a)"

definition cloning_usage :: "string list" where
  "cloning_usage =
     [[char_of (10 :: nat)] @ ''==================='', ''Replication Example Menu'', ''Usage:'',
      ''repl <data>       - Replicate to peers'', ''read              - Read content from buffer'',
      ''clone <peer_id>   - Clone a node and replicate it'' @ [CHR 0x27] @ ''s buffer'',
      ''exit              - Exit the application'']"

definition cloning_start ::
    "codecs \<Rightarrow> formats \<Rightarrow> key_ops \<Rightarrow> host \<Rightarrow> env \<Rightarrow> (core \<Rightarrow> core)
      \<Rightarrow> port \<times> port \<Rightarrow> port \<times> port \<Rightarrow> port \<times> port \<Rightarrow> peer_id \<times> peer_id \<Rightarrow> bytes
      \<Rightarrow> (peer_id_string \<times> multiaddr_string) list \<Rightarrow> repl_app option" where
  "cloning_start cd fm ko h env world ports_1 ports_2 ports_3 peer_ids keypair order =
     map_option (psay cloning_usage)
       (Option.bind
         (cloning_setup_node cd ko h ports_1 keypair (two_bootnodes cd peer_ids ports_2 ports_3) order)
         (join_replicas cd fm env world ''Joining replica network''))"

definition cloning_listen :: "codecs \<Rightarrow> repl_app \<Rightarrow> repl_app \<times> bool" where
  "cloning_listen cd a =
     (case next_event (rp_node a) of
        (c, Some (ReplicaDataIncoming _ _ _ _ _ source)) \<Rightarrow>
          (psay [''Recieved incoming replica data from '' @ peer_str cd source] (a\<lparr>rp_node := c\<rparr>), True)
      | (c, _) \<Rightarrow> (a\<lparr>rp_node := c\<rparr>, True))"

definition cloning_run :: "codecs \<Rightarrow> formats \<Rightarrow> turn list \<Rightarrow> repl_app \<Rightarrow> (repl_app \<times> bool) option" where
  "cloning_run cd fm turns a =
     run_turns (cloning_menu cd fm) (cloning_listen cd) (\<lambda>f a. a\<lparr>rp_node := f (rp_node a)\<rparr>) turns True a"

section \<open>The HTTP client\<close>

text \<open>What the server answers to a request, and the requests that were sent: the source and the
  data of an event.\<close>

datatype post_result = Post_Status bool string | Post_Error string

record http_app =
  ht_app :: repl_app
  posted :: "(string \<times> string_vector) list"

definition http_usage :: "string list" where
  "http_usage =
     [[char_of (10 :: nat)] @ ''==================='', ''HTTP Client Example Menu'', ''Usage:'',
      ''repl <data> - Replicate to peers'', ''read        - Read content from buffer'',
      ''exit        - Exit the application'']"

definition http_start ::
    "codecs \<Rightarrow> formats \<Rightarrow> key_ops \<Rightarrow> host \<Rightarrow> env \<Rightarrow> (core \<Rightarrow> core)
      \<Rightarrow> port \<times> port \<Rightarrow> port \<times> port \<Rightarrow> port \<times> port \<Rightarrow> peer_id \<times> peer_id \<Rightarrow> bytes
      \<Rightarrow> (peer_id_string \<times> multiaddr_string) list \<Rightarrow> http_app option" where
  "http_start cd fm ko h env world ports_1 ports_2 ports_3 peer_ids keypair order =
     map_option (\<lambda>a. \<lparr>ht_app = psay http_usage a, posted = []\<rparr>)
       (Option.bind
         (http_setup_node cd ko h ports_1 keypair (two_bootnodes cd peer_ids ports_2 ports_3) order)
         (join_replicas cd fm env world ''Joining replica network...''))"

definition http_listen ::
    "codecs \<Rightarrow> (string \<times> string_vector \<Rightarrow> post_result) \<Rightarrow> http_app \<Rightarrow> http_app \<times> bool" where
  "http_listen cd server a =
     (case next_event (rp_node (ht_app a)) of
        (c, Some (ReplicaDataIncoming data _ _ _ _ source)) \<Rightarrow>
          (let payload = (peer_str cd source, data) in
           (a\<lparr>posted := posted a @ [payload],
              ht_app := psay
                [''Recieved incoming replica data from '' @ peer_str cd source,
                 ''Sending a POST request to a remote server...'',
                 (case server payload of
                    Post_Status True _ \<Rightarrow> ''Successfully sent POST request.''
                  | Post_Status False st \<Rightarrow> ''Failed to send POST request. Status: '' @ st
                  | Post_Error e \<Rightarrow> ''Error sending POST request: '' @ e)]
                ((ht_app a)\<lparr>rp_node := c\<rparr>)\<rparr>, True))
      | (c, _) \<Rightarrow> (a\<lparr>ht_app := (ht_app a)\<lparr>rp_node := c\<rparr>\<rparr>, True))"

definition http_menu :: "env \<Rightarrow> string \<Rightarrow> http_app \<Rightarrow> (http_app \<times> bool) option" where
  "http_menu env input a =
     map_option (\<lambda>(r, more). (a\<lparr>ht_app := r\<rparr>, more)) (repl_menu env input (ht_app a))"

definition http_run ::
    "codecs \<Rightarrow> (string \<times> string_vector \<Rightarrow> post_result) \<Rightarrow> turn list \<Rightarrow> http_app
      \<Rightarrow> (http_app \<times> bool) option" where
  "http_run cd server turns a =
     run_turns http_menu (http_listen cd server)
       (\<lambda>f a. a\<lparr>ht_app := (ht_app a)\<lparr>rp_node := f (rp_node (ht_app a))\<rparr>\<rparr>) turns True a"

section \<open>IPFS\<close>

record ipfs_app =
  ip_app :: repl_app
  uploads :: "string list"

definition ipfs_usage :: "string list" where
  "ipfs_usage =
     [[char_of (10 :: nat)] @ ''==================='', ''IPFS Example Menu'', ''Usage:'',
      ''repl <data> - Replicate to peers'', ''read        - Read content from buffer'',
      ''exit        - Exit the application'']"

definition ipfs_start ::
    "codecs \<Rightarrow> formats \<Rightarrow> key_ops \<Rightarrow> host \<Rightarrow> env \<Rightarrow> (core \<Rightarrow> core)
      \<Rightarrow> port \<times> port \<Rightarrow> port \<times> port \<Rightarrow> port \<times> port \<Rightarrow> peer_id \<times> peer_id \<Rightarrow> bytes
      \<Rightarrow> (peer_id_string \<times> multiaddr_string) list \<Rightarrow> ipfs_app option" where
  "ipfs_start cd fm ko h env world ports_1 ports_2 ports_3 peer_ids keypair order =
     map_option (\<lambda>a. \<lparr>ip_app = psay ipfs_usage a, uploads = []\<rparr>)
       (Option.bind
         (ipfs_setup_node cd ko h ports_1 keypair (two_bootnodes cd peer_ids ports_2 ports_3) order)
         (join_replicas cd fm env world ''Joining replica network...''))"

text \<open>Only the first item is uploaded; \<open>daemon\<close> answers with a hash or an error text. Without an
  item the task panics.\<close>

definition ipfs_listen ::
    "codecs \<Rightarrow> (string \<Rightarrow> string + string) \<Rightarrow> ipfs_app \<Rightarrow> ipfs_app \<times> bool" where
  "ipfs_listen cd daemon a =
     (case next_event (rp_node (ip_app a)) of
        (c, Some (ReplicaDataIncoming data _ _ _ _ source)) \<Rightarrow>
          (let a1 = psay [''Recieved incoming replica data from '' @ peer_str cd source]
                      ((ip_app a)\<lparr>rp_node := c\<rparr>) in
           case index data 0 of
             None \<Rightarrow> (a\<lparr>ip_app := a1\<rparr>, False)
           | Some d0 \<Rightarrow>
               (a\<lparr>uploads := uploads a @ [d0],
                  ip_app := psay
                    [case daemon d0 of
                       Inr hash \<Rightarrow> ''File successfully uploaded to IPFS with hash: '' @ hash
                     | Inl e \<Rightarrow> ''Error adding file: '' @ e] a1\<rparr>, True))
      | (c, _) \<Rightarrow> (a\<lparr>ip_app := (ip_app a)\<lparr>rp_node := c\<rparr>\<rparr>, True))"

definition ipfs_menu :: "env \<Rightarrow> string \<Rightarrow> ipfs_app \<Rightarrow> (ipfs_app \<times> bool) option" where
  "ipfs_menu env input a =
     map_option (\<lambda>(r, more). (a\<lparr>ip_app := r\<rparr>, more)) (repl_menu env input (ip_app a))"

definition ipfs_run ::
    "codecs \<Rightarrow> (string \<Rightarrow> string + string) \<Rightarrow> turn list \<Rightarrow> ipfs_app \<Rightarrow> (ipfs_app \<times> bool) option" where
  "ipfs_run cd daemon turns a =
     run_turns ipfs_menu (ipfs_listen cd daemon)
       (\<lambda>f a. a\<lparr>ip_app := (ip_app a)\<lparr>rp_node := f (rp_node (ip_app a))\<rparr>\<rparr>) turns True a"

section \<open>Strong consistency\<close>

definition strong_start ::
    "codecs \<Rightarrow> formats \<Rightarrow> key_ops \<Rightarrow> host \<Rightarrow> env \<Rightarrow> (core \<Rightarrow> core)
      \<Rightarrow> port \<times> port \<Rightarrow> port \<times> port \<Rightarrow> port \<times> port \<Rightarrow> peer_id \<times> peer_id \<Rightarrow> bytes
      \<Rightarrow> (peer_id_string \<times> multiaddr_string) list \<Rightarrow> repl_app option" where
  "strong_start cd fm ko h env world ports_1 ports_2 ports_3 peer_ids keypair order =
     Option.bind
       (strong_setup_node cd ko h ports_1 keypair (two_bootnodes cd peer_ids ports_2 ports_3) order)
       (join_replicas cd fm env world ''Joining replica network'')"

text \<open>The task also takes one element from the buffer; it panics on one without an item or
  without a count of confirmations.\<close>

definition strong_listen :: "codecs \<Rightarrow> repl_app \<Rightarrow> repl_app \<times> bool" where
  "strong_listen cd a =
     (let (c, ev) = next_event (rp_node a);
          a1 = (case ev of
                  Some (ReplicaDataIncoming _ _ _ _ _ source) \<Rightarrow>
                    psay [''Recieved incoming replica data from '' @ peer_str cd source] (a\<lparr>rp_node := c\<rparr>)
                | _ \<Rightarrow> a\<lparr>rp_node := c\<rparr>) in
      case consume_repl_data REPL_NETWORK_ID c of
        (c', None) \<Rightarrow> (a1\<lparr>rp_node := c'\<rparr>, True)
      | (c', Some d) \<Rightarrow>
          (case (index (rdata d) 0, confirmations d) of
             (Some t, Some n) \<Rightarrow>
               (psay [''Data received from replica: '' @ t @ '' ('' @ show_u64 n @ '' confirmations)'']
                  (a1\<lparr>rp_node := c'\<rparr>), True)
           | _ \<Rightarrow> (a1\<lparr>rp_node := c'\<rparr>, False)))"

definition strong_menu :: "env \<Rightarrow> string \<Rightarrow> repl_app \<Rightarrow> (repl_app \<times> bool) option" where
  "strong_menu env input a =
     (let trimmed_input = trim input in
      if trimmed_input = ''exit'' then Some (a, False)
      else
        (let a1 = psay [''Replicating...''] a in
         Some (case replicate_data env [trimmed_input] REPL_NETWORK_ID (rp_node a1) of
                 (c, Inr _) \<Rightarrow> psay [''Replication successful''] (a1\<lparr>rp_node := c\<rparr>)
               | (c, Inl e) \<Rightarrow> psay [''Replication failed: '' @ error_text e] (a1\<lparr>rp_node := c\<rparr>), True)))"

definition strong_run :: "codecs \<Rightarrow> turn list \<Rightarrow> repl_app \<Rightarrow> (repl_app \<times> bool) option" where
  "strong_run cd turns a =
     run_turns strong_menu (strong_listen cd) (\<lambda>f a. a\<lparr>rp_node := f (rp_node a)\<rparr>) turns True a"

section \<open>Reading the buffer\<close>

lemma consume_head:
  assumes "queue (replica_buffer c) rn = Some (d # q)"
  shows "\<exists>c'. consume_repl_data rn c = (c', Some d) \<and> queue (replica_buffer c') rn = Some q"
  using assms
  by (simp add: consume_repl_data_def pop_front_queue_def Let_def rset_remove_def)

lemma consume_empty:
  "queue (replica_buffer c) rn \<in> {None, Some []} \<Longrightarrow> consume_repl_data rn c = (c, None)"
  by (auto simp: consume_repl_data_def pop_front_queue_def)

lemma read_buffer_queue:
  assumes "queue (replica_buffer c) REPL_NETWORK_ID = Some q"
  shows "if list_all (\<lambda>d. rdata d \<noteq> []) q
      then \<exists>c'. read_buffer c = Some (c', map (\<lambda>d. ''Buffer Data: '' @ hd (rdata d)) q)
         \<and> queue (replica_buffer c') REPL_NETWORK_ID = Some []
      else read_buffer c = None"
  using assms
proof (induction q arbitrary: c)
  case Nil
  then show ?case by (subst (1 2) read_buffer.simps) (simp add: consume_empty)
next
  case (Cons d q)
  then obtain c1 where c1: "consume_repl_data REPL_NETWORK_ID c = (c1, Some d)"
    "queue (replica_buffer c1) REPL_NETWORK_ID = Some q"
    using consume_head by blast
  have step: "read_buffer c = Option.bind (index (rdata d) 0) (\<lambda>t.
      map_option (\<lambda>(c'', lines). (c'', (''Buffer Data: '' @ t) # lines)) (read_buffer c1))"
    by (subst read_buffer.simps) (simp add: c1(1))
  show ?case
  proof (cases "list_all (\<lambda>d. rdata d \<noteq> []) q")
    case True
    with Cons.IH [OF c1(2)] obtain c2 where
      "read_buffer c1 = Some (c2, map (\<lambda>d. ''Buffer Data: '' @ hd (rdata d)) q)"
      "queue (replica_buffer c2) REPL_NETWORK_ID = Some []" by auto
    with True show ?thesis by (cases "rdata d") (simp_all add: step index_def)
  next
    case False
    with Cons.IH [OF c1(2)] have "read_buffer c1 = None" by simp
    with False show ?thesis by (simp add: step)
  qed
qed

lemma read_word_menu:
  "words_of input = [''read''] \<Longrightarrow>
     repl_menu env input a = map_option (\<lambda>a'. (a', True)) (read_command a)"
  by (simp add: repl_menu_def)

lemma read_command_queue:
  assumes "queue (replica_buffer (rp_node a)) REPL_NETWORK_ID = Some q"
  shows "if list_all (\<lambda>d. rdata d \<noteq> []) q
      then \<exists>a'. read_command a = Some a'
         \<and> queue (replica_buffer (rp_node a')) REPL_NETWORK_ID = Some []
         \<and> rp_screen a' = rp_screen a @ ''Reading contents from buffer...''
             # map (\<lambda>d. ''Buffer Data: '' @ hd (rdata d)) q
      else read_command a = None"
  using read_buffer_queue [OF assms] by (auto simp: read_command_def psay_def)

text \<open>The command \<open>read\<close> of the examples prints the buffered texts in the order of (clock,
  message id) and empties the buffer; it ends the program with a panic exactly when some
  peer has replicated an empty list of items.\<close>

theorem read_prints_buffer_in_order:
  assumes "queue (replica_buffer (rp_node a)) REPL_NETWORK_ID = Some q"
    and "words_of input = [''read'']"
  shows "(if list_all (\<lambda>d. rdata d \<noteq> []) q
          then \<exists>a'. repl_menu env input a = Some (a', True)
             \<and> queue (replica_buffer (rp_node a')) REPL_NETWORK_ID = Some []
             \<and> rp_screen a' = rp_screen a @ ''Reading contents from buffer...''
                 # map (\<lambda>d. ''Buffer Data: '' @ hd (rdata d)) q
          else repl_menu env input a = None)"
  using read_command_queue [OF assms(1)]
  by (auto simp: read_word_menu [OF assms(2)])

definition sample_reader :: "repl_buffer_data list \<Rightarrow> repl_app" where
  "sample_reader q =
     \<lparr>rp_node = (sample_core 5)\<lparr>replica_buffer :=
        (replica_buffer (sample_core 5))\<lparr>queue := [REPL_NETWORK_ID \<mapsto> q]\<rparr>\<rparr>, rp_screen = []\<rparr>"

definition sample_item :: "string_vector \<Rightarrow> repl_buffer_data" where
  "sample_item items = \<lparr>rdata = items, lamport_clock = 3, outgoing_timestamp = 5,
     incoming_timestamp = 6, message_id = ''m'', sender = PeerId ''p'', confirmations = None\<rparr>"

lemma read_word: "words_of ''read'' = [''read'']"
  using words_of_join [of "[''read'']"] by (simp add: plain_word_def plain_char_def code_of_def)

theorem read_prints_buffer_in_order_witness:
  "(\<exists>a'. repl_menu silent_env ''read'' (sample_reader [sample_item [''hi'']]) = Some (a', True)
      \<and> rp_screen a' = [''Reading contents from buffer...'', ''Buffer Data: hi''])
   \<and> repl_menu silent_env ''read'' (sample_reader [sample_item []]) = None"
proof
  have q: "queue (replica_buffer (rp_node (sample_reader q))) REPL_NETWORK_ID = Some q" for q
    by (simp add: sample_reader_def)
  have screen: "rp_screen (sample_reader q) = []" for q by (simp add: sample_reader_def)
  show "\<exists>a'. repl_menu silent_env ''read'' (sample_reader [sample_item [''hi'']]) = Some (a', True)
      \<and> rp_screen a' = [''Reading contents from buffer...'', ''Buffer Data: hi'']"
    using read_prints_buffer_in_order [OF q read_word, of "[sample_item [''hi'']]" silent_env]
    by (auto simp: screen sample_item_def)
  show "repl_menu silent_env ''read'' (sample_reader [sample_item []]) = None"
    using read_prints_buffer_in_order [OF q read_word, of "[sample_item []]" silent_env]
    by (simp add: sample_item_def)
qed

text \<open>The task of the strong consistency example is ended by the first element it takes that
  holds no item, or no count of confirmations, such as one that came with a synchronisation;
  every other element is printed with its count.\<close>

theorem strong_listener_survives_iff:
  assumes "queue (replica_buffer (rp_node a)) REPL_NETWORK_ID = Some (d # q)"
  shows "(snd (strong_listen cd a) \<longleftrightarrow> rdata d \<noteq> [] \<and> confirmations d \<noteq> None)
     \<and> queue (replica_buffer (rp_node (fst (strong_listen cd a)))) REPL_NETWORK_ID = Some q
     \<and> (\<forall>t ts n. rdata d = t # ts \<and> confirmations d = Some n \<longrightarrow>
          last (rp_screen (fst (strong_listen cd a)))
            = ''Data received from replica: '' @ t @ '' ('' @ show_u64 n @ '' confirmations)'')"
proof -
  obtain c ev where ev: "next_event (rp_node a) = (c, ev)" by fastforce
  then have "queue (replica_buffer c) REPL_NETWORK_ID = Some (d # q)"
    using assms by (auto simp: next_event_def Let_def split: prod.splits)
  then obtain c' where c': "consume_repl_data REPL_NETWORK_ID c = (c', Some d)"
    "queue (replica_buffer c') REPL_NETWORK_ID = Some q"
    using consume_head by blast
  show ?thesis
    by (cases "rdata d"; cases "confirmations d")
      (simp_all add: strong_listen_def ev c' index_def psay_def Let_def)
qed

theorem strong_listener_survives_iff_witness:
  "\<not> snd (strong_listen sample_codecs (sample_reader [sample_item [''hi'']]))"
  using strong_listener_survives_iff [of "sample_reader [sample_item [''hi'']]" "sample_item [''hi'']" "[]" sample_codecs]
  by (simp add: sample_reader_def sample_item_def)

end
