(* ===== verification/Repl_Journey.thy ===== *)
theory Repl_Journey
  imports "HOL-Library.Multiset" Loop_Props Sync_Props Example_Repl
begin

text \<open>
  Replication from node to node: what a node broadcasts arrives at its receivers as it was sent,
  what was typed into a replication example at one node is read at another, and two nodes that
  got the same messages, in whatever order, read the same.
\<close>

section \<open>Replication from node to node\<close>

lemma repl_flag_text:
  "utf8_valid REPL_GOSSIP_FLAG" "utf8_valid STRONG_CONSISTENCY_FLAG"
  "utf8_valid EVENTUAL_CONSISTENCY_FLAG" "utf8_valid SHARD_GOSSIP_JOIN_FLAG"
  by (rule ascii_utf8_valid, simp add: flag_defs ascii_def code_of_def)+

lemma number_text: "utf8_valid (show_u64 n)" "clean GOSSIP_MESSAGE_SEPARATOR (show_u64 n)"
  using show_u64_ascii ascii_utf8_valid
  by (auto intro!: clean_show_u64 simp: GOSSIP_MESSAGE_SEPARATOR_def code_of_def)

definition gossip_text :: "string \<Rightarrow> bool" where
  "gossip_text s \<longleftrightarrow> clean GOSSIP_MESSAGE_SEPARATOR s \<and> utf8_valid s"

lemma gossip_fields_text:
  "ps \<noteq> [] \<Longrightarrow> list_all gossip_text ps \<Longrightarrow> gossip_fields (join_with GOSSIP_MESSAGE_SEPARATOR ps) = ps"
  by (rule gossip_fields_join) (auto simp: list_all_iff gossip_text_def)

lemma gossip_text_parts [simp]:
  "gossip_text REPL_GOSSIP_FLAG" "gossip_text STRONG_CONSISTENCY_FLAG"
  "gossip_text EVENTUAL_CONSISTENCY_FLAG" "gossip_text SHARD_GOSSIP_JOIN_FLAG"
  "gossip_text (show_u64 n)"
  by (simp_all add: gossip_text_def flags_clean_gossip repl_flag_text number_text)

definition published :: "string \<Rightarrow> byte_vector \<Rightarrow> gossip_message \<Rightarrow> bool" where
  "published topic message msg \<longleftrightarrow>
     gossip_topic msg = topic \<and> gossip_payload msg = join_with GOSSIP_MESSAGE_SEPARATOR message"

lemma published_fields:
  "published topic m msg \<Longrightarrow> m \<noteq> [] \<Longrightarrow> list_all gossip_text m \<Longrightarrow>
     gossip_fields (gossip_payload msg) = m"
  by (simp add: published_def gossip_fields_text)

lemma gossip_text_small: "set s \<inter> set GOSSIP_MESSAGE_SEPARATOR = {} \<Longrightarrow> ascii s \<Longrightarrow> gossip_text s"
  by (simp add: gossip_text_def ascii_utf8_valid clean_disjoint GOSSIP_MESSAGE_SEPARATOR_def)

lemma sample_texts [simp]: "gossip_text ''net''" "gossip_text ''m''" "gossip_text ''p''" "gossip_text ''hi''"
  by (rule gossip_text_small; simp add: GOSSIP_MESSAGE_SEPARATOR_def ascii_def code_of_def)+

definition sample_gossip :: "string \<Rightarrow> byte_vector \<Rightarrow> gossip_message" where
  "sample_gossip topic message =
     \<lparr>propagation_source = PeerId ''q'', gossip_id = ''g1'', gossip_source = Some (PeerId ''o''),
      gossip_payload = join_with GOSSIP_MESSAGE_SEPARATOR message, gossip_topic = topic\<rparr>"

lemma sample_gossip_published [simp]: "published topic m (sample_gossip topic m)"
  by (simp add: published_def sample_gossip_def)

lemma nth_repl_message [simp]:
  "repl_message sent clk rn data ! 0 = REPL_GOSSIP_FLAG" "repl_message sent clk rn data \<noteq> []"
  by (simp_all add: repl_message_def)

lemma repl_gossip_spawns:
  assumes "published rn (repl_message sent clk rn data) msg"
    and "list_all gossip_text data" "gossip_text rn"
  shows "\<exists>d. handle_gossip cd now msg ls = Some (update_node (spawn (IncomingReplData rn d)) ls)
     \<and> rdata d = data \<and> lamport_clock d = clk \<and> outgoing_timestamp d = sent
     \<and> incoming_timestamp d = now \<and> message_id d = gossip_id msg
     \<and> (confirmations d = None \<longleftrightarrow> consistency_model (replica_buffer (node ls)) = Eventual)"
proof -
  have fields: "gossip_fields (gossip_payload msg) = repl_message sent clk rn data"
    by (rule published_fields [OF assms(1)]) (use assms in \<open>simp_all add: repl_message_def\<close>)
  obtain d where d: "incoming_repl now msg (repl_message sent clk rn data) (node ls) = Some (rn, d)"
    "rdata d = data" "lamport_clock d = clk" "outgoing_timestamp d = sent" "incoming_timestamp d = now"
    "message_id d = gossip_id msg"
    "confirmations d = None \<longleftrightarrow> consistency_model (replica_buffer (node ls)) = Eventual"
    by (simp add: incoming_repl_def repl_message_def index_def slice_from_def parse_or_0_def)
  then show ?thesis
    by (intro exI [of _ d])
      (simp add: handle_gossip_def fields Let_def index_def
        handle_repl_gossip_def nth_repl_message)
qed

text \<open>C22: Data that a node replicates, if every item is valid UTF-8 and does not hold the separator of the
  gossip fields, is, at every node the gossip message reaches, spawned for the replica buffer as
  it was sent: the same items, clock and time, under the id of the message.\<close>

theorem replicated_data_arrives:
  assumes "published rn (repl_message sent clk rn data) msg"
    and "list_all gossip_text data" "gossip_text rn"
  shows "\<exists>d. handle_gossip cd now msg ls = Some (update_node (spawn (IncomingReplData rn d)) ls)
     \<and> rdata d = data \<and> lamport_clock d = clk \<and> outgoing_timestamp d = sent
     \<and> incoming_timestamp d = now \<and> message_id d = gossip_id msg
     \<and> (confirmations d = None \<longleftrightarrow> consistency_model (replica_buffer (node ls)) = Eventual)"
  using repl_gossip_spawns [OF assms] .

theorem replicated_data_arrives_witness:
  "\<exists>d. handle_gossip sample_codecs 100 (sample_gossip ''net'' (repl_message 90 4 ''net'' [''hi'']))
        (loop_start (sample_core 5))
      = Some (update_node (spawn (IncomingReplData ''net'' d)) (loop_start (sample_core 5)))
     \<and> rdata d = [''hi''] \<and> lamport_clock d = 4"
  using replicated_data_arrives [of "''net''" 90 4 "[''hi'']"
      "sample_gossip ''net'' (repl_message 90 4 ''net'' [''hi''])" sample_codecs 100
      "loop_start (sample_core 5)"] by auto

lemma strong_gossip_spawns:
  assumes "published rn (strong_message rn mid) msg" "gossip_text rn" "gossip_text mid"
  shows "gossip_fields (gossip_payload msg) = strong_message rn mid"
    and "handle_gossip cd now msg ls = Some (update_node (spawn (DataConfirmation rn mid)) ls)"
proof -
  show fields: "gossip_fields (gossip_payload msg) = strong_message rn mid"
    by (rule published_fields [OF assms(1)]) (use assms in \<open>simp_all add: strong_message_def\<close>)
  have "STRONG_CONSISTENCY_FLAG \<noteq> REPL_GOSSIP_FLAG" using flags_distinct(1) by auto
  then show "handle_gossip cd now msg ls = Some (update_node (spawn (DataConfirmation rn mid)) ls)"
    by (simp add: handle_gossip_def fields Let_def index_def strong_message_def handle_strong_gossip_def)
qed

text \<open>The broadcasts of the two consistency models are understood by their receivers: a confirmation
  names the network and the message, an announcement the sender, the bounds of the clocks
  and the identifiers.\<close>

theorem consistency_gossip_understood:
  assumes "gossip_text rn"
  shows "(published rn (strong_message rn mid) msg \<and> gossip_text mid \<longrightarrow>
            handle_gossip cd now msg ls = Some (update_node (spawn (DataConfirmation rn mid)) ls))
     \<and> (published rn (sync_message cd' me rn entries) msg \<and> gossip_text (peer_str cd' me)
          \<and> list_all gossip_text (map (sync_id cd') entries) \<longrightarrow>
            handle_gossip cd now msg ls = Some (update_node (spawn
              (SyncImage (peer_str cd' me) rn (clock_bounds entries) (map (sync_id cd') entries))) ls))"
proof (intro conjI impI)
  assume a: "published rn (strong_message rn mid) msg \<and> gossip_text mid"
  then show "handle_gossip cd now msg ls = Some (update_node (spawn (DataConfirmation rn mid)) ls)"
    using strong_gossip_spawns(2) assms by blast
next
  assume a: "published rn (sync_message cd' me rn entries) msg \<and> gossip_text (peer_str cd' me)
      \<and> list_all gossip_text (map (sync_id cd') entries)"
  then have fields: "gossip_fields (gossip_payload msg) = sync_message cd' me rn entries"
    by (intro published_fields [of rn]) (use a assms in \<open>simp_all add: sync_message_def\<close>)
  have "EVENTUAL_CONSISTENCY_FLAG \<noteq> REPL_GOSSIP_FLAG"
    "EVENTUAL_CONSISTENCY_FLAG \<noteq> STRONG_CONSISTENCY_FLAG" using flags_distinct(1) by auto
  then show "handle_gossip cd now msg ls = Some (update_node (spawn
      (SyncImage (peer_str cd' me) rn (clock_bounds entries) (map (sync_id cd') entries))) ls)"
    by (simp add: handle_gossip_def fields Let_def index_def sync_message_def handle_eventual_gossip_def
        slice_from_def parse_or_0_def)
qed

theorem consistency_gossip_understood_witness:
  "handle_gossip sample_codecs 100 (sample_gossip ''net'' (strong_message ''net'' ''m''))
      (loop_start (sample_core 5))
     = Some (update_node (spawn (DataConfirmation ''net'' ''m'')) (loop_start (sample_core 5)))
   \<and> handle_gossip sample_codecs 100
      (sample_gossip ''net'' (sync_message total_codecs (PeerId ''p'') ''net'' []))
      (loop_start (sample_core 5))
     = Some (update_node (spawn (SyncImage ''p'' ''net'' (0, 0) [])) (loop_start (sample_core 5)))"
proof -
  note strong = consistency_gossip_understood [of "''net''" "''m''"
      "sample_gossip ''net'' (strong_message ''net'' ''m'')" sample_codecs 100
      "loop_start (sample_core 5)" total_codecs "PeerId ''p''" "[]"]
  note eventual = consistency_gossip_understood [of "''net''" "''m''"
      "sample_gossip ''net'' (sync_message total_codecs (PeerId ''p'') ''net'' [])" sample_codecs 100
      "loop_start (sample_core 5)" total_codecs "PeerId ''p''" "[]"]
  show ?thesis using strong eventual by (simp add: clock_bounds_def)
qed

section \<open>Receiving under eventual consistency\<close>

text \<open>The task of \<open>IncomingReplData\<close> once for each message, each with what happens meanwhile.\<close>

fun receive_all ::
    "codecs \<Rightarrow> string \<Rightarrow> (env \<times> repl_buffer_data) list \<Rightarrow> core \<Rightarrow> core option" where
  "receive_all cd rn [] c = Some c"
| "receive_all cd rn ((env, d) # ms) c =
     Option.bind (run_task cd env (IncomingReplData rn d) c) (receive_all cd rn ms)"

definition replica_with_room :: "string \<Rightarrow> nat \<Rightarrow> core \<Rightarrow> bool" where
  "replica_with_room rn n c \<longleftrightarrow>
     consistency_model (replica_buffer c) = Eventual
     \<and> n \<le> unat (fst (push_limits (config (replica_buffer c))))
     \<and> rset_wf (public_queue c rn) \<and> repl_cfg c rn \<noteq> None"

lemma receive_one:
  assumes "replica_with_room rn n c" "length (public_queue c rn) < n"
  shows "\<exists>c'. run_task cd env (IncomingReplData rn d) c = Some c' \<and> replica_with_room rn n c'
     \<and> queue (replica_buffer c') rn = Some (rset_insert d (public_queue c rn))"
proof -
  have room: "\<not> full (fst (push_limits (config (replica_buffer c)))) (public_queue c rn)"
    using assms by (simp add: replica_with_room_def full_def)
  obtain cfg where cfg: "repl_cfg c rn = Some cfg" using assms by (auto simp: replica_with_room_def)
  let ?ev = "ReplicaDataIncoming (rdata d) rn (outgoing_timestamp d) (incoming_timestamp d)
      (message_id d) (sender d)"
  let ?c1 = "set_replication ((replication (network_info (push_event ?ev c)))
      (rn \<mapsto> bump_clock (lamport_clock d) cfg)) (push_event ?ev c)"
  let ?q = "rset_insert d (public_queue c rn)"
  let ?c' = "set_buffer ((replica_buffer c)\<lparr>queue := (queue (replica_buffer c))(rn \<mapsto> ?q)\<rparr>) ?c1"
  have "run_task cd env (IncomingReplData rn d) c = Some ?c'"
    using assms(1) room cfg
    by (simp add: handle_incoming_repl_data_def repl_push_def replica_with_room_def push_public_def
        push_queue_def evict_loop_room public_queue_def case_prod_beta repl_cfg_def push_event_def
        set_replication_def Let_def)
  moreover have "replica_with_room rn n ?c'"
    using assms(1) by (simp add: replica_with_room_def consistency_model_def public_queue_def
        or_default_def repl_cfg_def set_buffer_def set_replication_def repl_store.inv_ins)
  ultimately show ?thesis by (auto simp: set_buffer_def)
qed

lemma receive_all_queue:
  assumes "replica_with_room rn n c" "length (public_queue c rn) + length ms \<le> n" "ms \<noteq> []"
  shows "\<exists>c'. receive_all cd rn ms c = Some c'
     \<and> queue (replica_buffer c') rn = Some (insert_all (map snd ms) (public_queue c rn))"
  using assms
proof (induction ms arbitrary: c)
  case (Cons m ms)
  obtain env d where m: "m = (env, d)" by fastforce
  obtain c1 where c1: "run_task cd env (IncomingReplData rn d) c = Some c1" "replica_with_room rn n c1"
    "queue (replica_buffer c1) rn = Some (rset_insert d (public_queue c rn))"
    using receive_one [OF Cons.prems(1)] Cons.prems(2) by force
  then have q1: "public_queue c1 rn = rset_insert d (public_queue c rn)"
    by (simp add: public_queue_def or_default_def)
  show ?case
  proof (cases "ms = []")
    case True
    with c1 show ?thesis by (simp add: m insert_all_def)
  next
    case False
    have wf: "rset_wf (public_queue c rn)" using Cons.prems(1) by (simp add: replica_with_room_def)
    have "length (public_queue c1 rn) + length ms \<le> n"
      using Cons.prems(2) repl_store.len_ins_le [OF wf, of d] by (simp add: q1)
    from Cons.IH [OF c1(2) this False] show ?thesis
      using c1(1) by (auto simp: m q1 insert_all_def)
  qed
qed simp

section \<open>Replicas converge\<close>

definition sample_replica :: core where
  "sample_replica =
     set_replication [REPL_NETWORK_ID \<mapsto> \<lparr>cfg_clock = 3, last_clock = 0, cfg_nodes = Map.empty\<rparr>]
       (sample_core 5)"

lemma sample_replica_simps [simp]:
  "replica_buffer sample_replica = replica_buffer_new ReplDefault"
  "repl_cfg sample_replica REPL_NETWORK_ID
     = Some \<lparr>cfg_clock = 3, last_clock = 0, cfg_nodes = Map.empty\<rparr>"
  "request_buffer sample_replica = \<lparr>req_size = 5, req_buffer = {}\<rparr>"
  "app_channel sample_replica = []"
  by (simp_all add: sample_replica_def repl_cfg_def set_replication_def)

lemma sample_replica_room:
  "n \<le> 150 \<Longrightarrow> replica_with_room REPL_NETWORK_ID n sample_replica"
  "public_queue sample_replica REPL_NETWORK_ID = []"
  by (simp_all add: replica_with_room_def public_queue_def or_default_def replica_buffer_new_def
      consistency_model_def push_limits_def MAX_CAPACITY_def rset_wf_def)

definition entry_content :: "repl_buffer_data \<Rightarrow> nonce \<times> string \<times> string_vector" where
  "entry_content d = (lamport_clock d, message_id d, rdata d)"

definition content_key :: "nonce \<times> string \<times> string_vector \<Rightarrow> repl_key" where
  "content_key x = ReplKey (fst x) (fst (snd x))"

lemma content_simps [simp]:
  "content_key (entry_content d) = repl_key d" "snd (snd (entry_content d)) = rdata d"
  by (simp_all add: entry_content_def content_key_def repl_key_def)

lemma insert_all_set:
  "distinct (map repl_key ds) \<Longrightarrow> repl_key ` set ds \<inter> rset_keys q = {} \<Longrightarrow>
     set (insert_all ds q) = set ds \<union> set q"
proof (induction ds arbitrary: q)
  case (Cons d ds)
  then have "repl_key ` set ds \<inter> rset_keys (rset_insert d q) = {}"
    by (auto simp: rset_keys_def rset_insert_def keys_bset_insert)
  with Cons show ?case by (simp add: insert_all_def rset_insert_new)
qed (simp add: insert_all_def)

text \<open>Two buffers that were filled with the same contents agree on them, element by element.\<close>

lemma insert_all_contents:
  assumes "mset (map entry_content ds) = mset (map entry_content ds')" "distinct (map repl_key ds)"
  shows "map entry_content (insert_all ds []) = map entry_content (insert_all ds' [])"
proof -
  have "distinct (map content_key (map entry_content ds))" using assms(2) by (simp add: comp_def)
  then have inj: "inj_on content_key (set (map entry_content ds))" by (simp only: distinct_map)
  have sets: "set (map entry_content ds) = set (map entry_content ds')" by (rule mset_eq_setD [OF assms(1)])
  have "mset (map content_key (map entry_content ds)) = mset (map content_key (map entry_content ds'))"
    using assms(1) by (simp only: mset_map)
  then have "distinct (map content_key (map entry_content ds'))"
    using assms(2) by (metis mset_eq_imp_distinct_iff \<open>distinct (map content_key (map entry_content ds))\<close>)
  then have dist': "distinct (map repl_key ds')" by (simp add: comp_def)
  have elems: "set (map entry_content (insert_all xs [])) = set (map entry_content xs)"
    if "distinct (map repl_key xs)" for xs
    using insert_all_set [OF that, of "[]"] by (simp add: rset_keys_def bset_keys_def)
  have ordered: "sorted (map content_key (map entry_content (insert_all xs [])))
      \<and> distinct (map content_key (map entry_content (insert_all xs [])))" for xs
  proof -
    have "rset_wf (insert_all xs [])" by (rule insert_all_wf) (simp add: rset_wf_def)
    then show ?thesis
      using strict_sorted_iff [of "map repl_key (insert_all xs [])"]
      by (simp add: rset_wf_def bset_wf_def comp_def)
  qed
  show ?thesis
    by (rule map_sorted_distinct_set_unique [where f = content_key])
      (use inj sets ordered elems [OF assms(2)] elems [OF dist'] in auto)
qed

text \<open>Two nodes of a replica network that receive the same data, in whatever order and at whatever
  times, print the same lines for \<open>read\<close>: all of the data, by clock and message id.\<close>

theorem replicas_read_the_same:
  assumes "mset (map (entry_content \<circ> snd) ms) = mset (map (entry_content \<circ> snd) ms')"
    and "distinct (map (repl_key \<circ> snd) ms)" "\<forall>m \<in> set ms. rdata (snd m) \<noteq> []" "ms \<noteq> []"
    and "replica_with_room REPL_NETWORK_ID (length ms) c" "public_queue c REPL_NETWORK_ID = []"
    and "replica_with_room REPL_NETWORK_ID (length ms) c'" "public_queue c' REPL_NETWORK_ID = []"
  shows "\<exists>d d' e e' lines.
     receive_all cd REPL_NETWORK_ID ms c = Some d \<and> read_buffer d = Some (e, lines)
     \<and> receive_all cd REPL_NETWORK_ID ms' c' = Some d' \<and> read_buffer d' = Some (e', lines)
     \<and> mset lines = mset (map (\<lambda>m. ''Buffer Data: '' @ hd (rdata (snd m))) ms)"
proof -
  let ?line = "\<lambda>x :: nonce \<times> string \<times> string_vector. ''Buffer Data: '' @ hd (snd (snd x))"
  let ?q = "insert_all (map snd ms) []" and ?q' = "insert_all (map snd ms') []"
  have len: "length ms = length ms'" using assms(1) by (metis length_map size_mset)
  with assms(4) have ne: "ms' \<noteq> []" by auto
  obtain d where d: "receive_all cd REPL_NETWORK_ID ms c = Some d"
    "queue (replica_buffer d) REPL_NETWORK_ID = Some ?q"
    using receive_all_queue [OF assms(5), of ms] assms(4,6) by auto
  obtain d' where d': "receive_all cd REPL_NETWORK_ID ms' c' = Some d'"
    "queue (replica_buffer d') REPL_NETWORK_ID = Some ?q'"
    using receive_all_queue [OF assms(7), of ms'] ne assms(8) len by auto
  have same: "map entry_content ?q = map entry_content ?q'"
    by (rule insert_all_contents) (use assms(1,2) in \<open>simp_all add: comp_def\<close>)
  have dist: "distinct (map repl_key (map snd ms))" using assms(2) by (simp add: comp_def)
  have elems: "set ?q = snd ` set ms"
    using insert_all_set [OF dist, of "[]"] by (simp add: rset_keys_def bset_keys_def)
  have full: "list_all (\<lambda>d. rdata d \<noteq> []) ?q" using elems assms(3) by (auto simp: list_all_iff)
  then have "list_all (\<lambda>x. snd (snd x) \<noteq> []) (map entry_content ?q)" by (simp add: list_all_iff)
  then have full': "list_all (\<lambda>d. rdata d \<noteq> []) ?q'" unfolding same by (simp add: list_all_iff)
  have lines: "map (\<lambda>d. ''Buffer Data: '' @ hd (rdata d)) r = map ?line (map entry_content r)" for r
    by simp
  obtain e where e: "read_buffer d = Some (e, map ?line (map entry_content ?q))"
    using read_buffer_queue [OF d(2)] full by (auto simp: lines)
  obtain e' where e': "read_buffer d' = Some (e', map ?line (map entry_content ?q))"
    using read_buffer_queue [OF d'(2)] full' by (auto simp: lines same)
  have "rset_wf ?q" by (rule insert_all_wf) (simp add: rset_wf_def)
  then have "distinct (map repl_key ?q)" by (simp add: rset_wf_def distinct_bset_wf)
  then have "distinct ?q" "distinct (map snd ms)" using dist distinct_map by blast+
  then have "mset ?q = mset (map snd ms)"
    using elems by (intro set_eq_iff_mset_eq_distinct [THEN iffD1]) auto
  then have "mset (map ?line (map entry_content ?q)) = mset (map ?line (map entry_content (map snd ms)))"
    by (simp only: mset_map)
  then show ?thesis using d(1) d'(1) e e' by (auto simp: comp_def)
qed

definition sample_received :: "nonce \<Rightarrow> string \<Rightarrow> seconds \<Rightarrow> string \<Rightarrow> repl_buffer_data" where
  "sample_received clk mid now text =
     \<lparr>rdata = [text], lamport_clock = clk, outgoing_timestamp = 90, incoming_timestamp = now,
      message_id = mid, sender = PeerId ''p'', confirmations = None\<rparr>"

theorem replicas_read_the_same_witness:
  "\<exists>d d' e e' lines.
     receive_all sample_codecs REPL_NETWORK_ID
       [(silent_env, sample_received 4 ''m'' 91 ''a''), (silent_env, sample_received 2 ''n'' 92 ''b'')]
       sample_replica = Some d
     \<and> receive_all sample_codecs REPL_NETWORK_ID
       [(silent_env, sample_received 2 ''n'' 95 ''b''), (silent_env, sample_received 4 ''m'' 96 ''a'')]
       sample_replica = Some d'
     \<and> read_buffer d = Some (e, lines) \<and> read_buffer d' = Some (e', lines) \<and> length lines = 2"
proof -
  let ?ms = "[(silent_env, sample_received 4 ''m'' 91 ''a''), (silent_env, sample_received 2 ''n'' 92 ''b'')]"
  let ?ms' = "[(silent_env, sample_received 2 ''n'' 95 ''b''), (silent_env, sample_received 4 ''m'' 96 ''a'')]"
  have "\<exists>d d' e e' lines.
     receive_all sample_codecs REPL_NETWORK_ID ?ms sample_replica = Some d \<and> read_buffer d = Some (e, lines)
     \<and> receive_all sample_codecs REPL_NETWORK_ID ?ms' sample_replica = Some d' \<and> read_buffer d' = Some (e', lines)
     \<and> mset lines = mset (map (\<lambda>m. ''Buffer Data: '' @ hd (rdata (snd m))) ?ms)"
    by (rule replicas_read_the_same)
      (simp_all add: sample_replica_room entry_content_def sample_received_def repl_key_def)
  then obtain d d' e e' lines where r:
    "receive_all sample_codecs REPL_NETWORK_ID ?ms sample_replica = Some d" "read_buffer d = Some (e, lines)"
    "receive_all sample_codecs REPL_NETWORK_ID ?ms' sample_replica = Some d'" "read_buffer d' = Some (e', lines)"
    "mset lines = mset (map (\<lambda>m. ''Buffer Data: '' @ hd (rdata (snd m))) ?ms)" by blast
  from r(5) have "length lines = length ?ms" by (metis length_map size_mset)
  then have "length lines = 2" by simp
  with r(1-4) show ?thesis by blast
qed

section \<open>From a line at one node to a line at another\<close>

lemma repl_command_sends:
  assumes "words_of input = ''repl'' # ws" "join_with '' '' ws \<noteq> []"
    and "repl_cfg (rp_node a) REPL_NETWORK_ID = Some cfg" "chan_open env"
    and "card (req_buffer (request_buffer (rp_node a))) < req_size (request_buffer (rp_node a))"
  shows "\<exists>a' sent clk. repl_menu env input a = Some (a', True)
     \<and> app_channel (rp_node a') = app_channel (rp_node a)
         @ [FromApplication (take_id (rp_node a)) (GossipsubBroadcastMessage REPL_NETWORK_ID
              (repl_message sent clk REPL_NETWORK_ID [join_with '' '' ws]))]"
proof -
  let ?data = "join_with '' '' ws"
  let ?a' = "replicate_command env ?data a"
  have "rp_node ?a' = fst (replicate_data env [?data] REPL_NETWORK_ID (rp_node a))"
    using assms(2) by (simp add: replicate_command_def psay_def Let_def split: prod.split sum.split)
  then show ?thesis
    using replicate_sends(2) [OF assms(3-5), of "[?data]"]
    by (simp add: repl_menu_def assms(1)) blast
qed

text \<open>A new entry takes its place in the queue and leaves the others as they are.\<close>

lemma rset_insert_splits:
  assumes "rset_wf q" "repl_key d \<notin> rset_keys q"
  shows "\<exists>xs ys. q = xs @ ys \<and> rset_insert d q = xs @ d # ys"
proof -
  have "repl_key d \<notin> repl_key ` set q \<Longrightarrow> \<exists>xs ys. q = xs @ ys \<and> bset_insert repl_key d q = xs @ d # ys" for q
  proof (induction q)
    case (Cons a q)
    then obtain xs ys where "q = xs @ ys" "bset_insert repl_key d q = xs @ d # ys" by auto
    moreover have "bset_insert repl_key d (a # q) \<in> {d # a # q, a # bset_insert repl_key d q}"
      using Cons.prems by auto
    ultimately consider "bset_insert repl_key d (a # q) = [] @ d # (a # q)"
      | "a # q = (a # xs) @ ys" "bset_insert repl_key d (a # q) = (a # xs) @ d # ys" by auto
    then show ?case by cases (metis append_Nil, metis)
  qed simp
  then show ?thesis using assms(2) by (simp add: rset_insert_def rset_keys_def bset_keys_def)
qed

text \<open>C9: What is typed after \<open>repl\<close> in an example with eventual consistency, if it is not empty and
  valid UTF-8 without the separator of the gossip fields, is broadcast by a node of the network
  that can take one more request. Every node under eventual consistency that has room for one more
  entry, none of whose entries is empty, and that gets the message, under an id that is new to it,
  prints at its next \<open>read\<close> the texts it held before, in the same order, with exactly that text in
  one place among them.\<close>

theorem typed_data_is_read_elsewhere:
  assumes "words_of input = ''repl'' # ws" "gossip_text (join_with '' '' ws)" "join_with '' '' ws \<noteq> []"
    and "repl_cfg (rp_node a) REPL_NETWORK_ID = Some cfg" "chan_open env"
    and "card (req_buffer (request_buffer (rp_node a))) < req_size (request_buffer (rp_node a))"
    and "replica_with_room REPL_NETWORK_ID n (node ls)"
    and "q = public_queue (node ls) REPL_NETWORK_ID" "length q < n" "list_all (\<lambda>d. rdata d \<noteq> []) q"
    and "words_of line = [''read'']"
  shows "\<exists>a' sid m payload. repl_menu env input a = Some (a', True)
     \<and> app_channel (rp_node a') = app_channel (rp_node a)
         @ [FromApplication sid (GossipsubBroadcastMessage REPL_NETWORK_ID m)]
     \<and> calls (handle_broadcast sw sid REPL_NETWORK_ID m las)
         = calls las @ [GossipPublish REPL_NETWORK_ID payload]
     \<and> (\<forall>msg. gossip_topic msg = REPL_NETWORK_ID \<and> gossip_payload msg = payload
          \<and> gossip_id msg \<notin> message_id ` set q \<longrightarrow>
          (\<exists>t c b' xs ys. handle_gossip cd now msg ls = Some (update_node (spawn t) ls)
             \<and> run_task cd env' t (node (update_node (spawn t) ls)) = Some c
             \<and> repl_menu env'' line \<lparr>rp_node = c, rp_screen = []\<rparr> = Some (b', True)
             \<and> q = xs @ ys
             \<and> rp_screen b' = ''Reading contents from buffer...''
                  # map (\<lambda>d. ''Buffer Data: '' @ hd (rdata d)) xs
                  @ (''Buffer Data: '' @ join_with '' '' ws)
                  # map (\<lambda>d. ''Buffer Data: '' @ hd (rdata d)) ys))"
proof -
  let ?text = "join_with '' '' ws"
  obtain a' sent clk where a': "repl_menu env input a = Some (a', True)"
    "app_channel (rp_node a') = app_channel (rp_node a)
       @ [FromApplication (take_id (rp_node a)) (GossipsubBroadcastMessage REPL_NETWORK_ID
            (repl_message sent clk REPL_NETWORK_ID [?text]))]"
    using repl_command_sends [OF assms(1,3-6)] by blast
  let ?m = "repl_message sent clk REPL_NETWORK_ID [?text]"
  let ?payload = "join_with GOSSIP_MESSAGE_SEPARATOR ?m"
  have rn: "gossip_text REPL_NETWORK_ID"
    by (rule gossip_text_small)
      (simp_all add: REPL_NETWORK_ID_def GOSSIP_MESSAGE_SEPARATOR_def ascii_def code_of_def)
  have read: "\<exists>t c b' xs ys. handle_gossip cd now msg ls = Some (update_node (spawn t) ls)
       \<and> run_task cd env' t (node (update_node (spawn t) ls)) = Some c
       \<and> repl_menu env'' line \<lparr>rp_node = c, rp_screen = []\<rparr> = Some (b', True) \<and> q = xs @ ys
       \<and> rp_screen b' = ''Reading contents from buffer...''
            # map (\<lambda>d. ''Buffer Data: '' @ hd (rdata d)) xs @ (''Buffer Data: '' @ ?text)
            # map (\<lambda>d. ''Buffer Data: '' @ hd (rdata d)) ys"
    if msg: "gossip_topic msg = REPL_NETWORK_ID \<and> gossip_payload msg = ?payload
        \<and> gossip_id msg \<notin> message_id ` set q" for msg
  proof -
    have "published REPL_NETWORK_ID ?m msg" using msg by (simp add: published_def)
    then obtain d where d: "handle_gossip cd now msg ls
        = Some (update_node (spawn (IncomingReplData REPL_NETWORK_ID d)) ls)" "rdata d = [?text]"
      "message_id d = gossip_id msg"
      using repl_gossip_spawns [OF _ _ rn, of sent clk "[?text]" msg cd now ls] assms(2) by auto
    let ?t = "IncomingReplData REPL_NETWORK_ID d"
    have room: "replica_with_room REPL_NETWORK_ID n (node (update_node (spawn ?t) ls))"
      "public_queue (node (update_node (spawn ?t) ls)) REPL_NETWORK_ID = q"
      using assms(7,8) by (simp_all add: replica_with_room_def public_queue_def repl_cfg_def
          update_node_def spawn_def)
    then obtain c where c: "run_task cd env' ?t (node (update_node (spawn ?t) ls)) = Some c"
      "queue (replica_buffer c) REPL_NETWORK_ID = Some (rset_insert d q)"
      using receive_one [of REPL_NETWORK_ID n "node (update_node (spawn ?t) ls)" cd env' d] assms(9) by auto
    have "rset_wf q" "repl_key d \<notin> rset_keys q"
      using room msg d(3) by (auto simp: replica_with_room_def rset_keys_set repl_key_def)
    from rset_insert_splits [OF this] obtain xs ys where split: "q = xs @ ys" "rset_insert d q = xs @ d # ys" by blast
    then have "list_all (\<lambda>d. rdata d \<noteq> []) (xs @ d # ys)" using assms(10) d(2) by simp
    then have "\<exists>b'. repl_menu env'' line \<lparr>rp_node = c, rp_screen = []\<rparr> = Some (b', True)
       \<and> rp_screen b' = ''Reading contents from buffer...''
            # map (\<lambda>d. ''Buffer Data: '' @ hd (rdata d)) (xs @ d # ys)"
      using read_command_queue [of "\<lparr>rp_node = c, rp_screen = []\<rparr>" "xs @ d # ys"] c(2) split(2)
      by (auto simp: read_word_menu [OF assms(11)])
    then show ?thesis using c(1) d(1,2) split(1) by fastforce
  qed
  have "calls (handle_broadcast sw sid REPL_NETWORK_ID ?m las)
      = calls las @ [GossipPublish REPL_NETWORK_ID ?payload]" for sid
    by (simp add: handle_broadcast_def Let_def make_call_def respond_def)
  with a' read show ?thesis by blast
qed

lemma repl_words: "words_of ''repl hi'' = [''repl'', ''hi'']"
  using words_of_join [of "[''repl'', ''hi'']"] by (simp add: plain_word_def plain_char_def code_of_def)

theorem typed_data_is_read_elsewhere_witness:
  "\<exists>a' sid m payload t c b'.
     repl_menu silent_env ''repl hi'' \<lparr>rp_node = sample_replica, rp_screen = []\<rparr> = Some (a', True)
     \<and> app_channel (rp_node a') = [FromApplication sid (GossipsubBroadcastMessage REPL_NETWORK_ID m)]
     \<and> calls (handle_broadcast sample_swarm sid REPL_NETWORK_ID m (loop_start sample_replica))
         = [GossipPublish REPL_NETWORK_ID payload]
     \<and> handle_gossip sample_codecs 95
          \<lparr>propagation_source = PeerId ''q'', gossip_id = ''g1'', gossip_source = Some (PeerId ''o''),
           gossip_payload = payload, gossip_topic = REPL_NETWORK_ID\<rparr> (loop_start sample_replica)
         = Some (update_node (spawn t) (loop_start sample_replica))
     \<and> run_task sample_codecs silent_env t (node (update_node (spawn t) (loop_start sample_replica))) = Some c
     \<and> repl_menu silent_env ''read'' \<lparr>rp_node = c, rp_screen = []\<rparr> = Some (b', True)
     \<and> rp_screen b' = [''Reading contents from buffer...'', ''Buffer Data: hi'']"
proof -
  let ?a = "\<lparr>rp_node = sample_replica, rp_screen = []\<rparr>" and ?ls = "loop_start sample_replica"
  have hi: "join_with '' '' [''hi''] = ''hi''" by simp
  have "\<exists>a' sid m payload. repl_menu silent_env ''repl hi'' ?a = Some (a', True)
     \<and> app_channel (rp_node a') = app_channel (rp_node ?a)
         @ [FromApplication sid (GossipsubBroadcastMessage REPL_NETWORK_ID m)]
     \<and> calls (handle_broadcast sample_swarm sid REPL_NETWORK_ID m ?ls)
         = calls ?ls @ [GossipPublish REPL_NETWORK_ID payload]
     \<and> (\<forall>msg. gossip_topic msg = REPL_NETWORK_ID \<and> gossip_payload msg = payload
          \<and> gossip_id msg \<notin> message_id ` set ([] :: repl_buffer_data list) \<longrightarrow>
          (\<exists>t c b' xs ys. handle_gossip sample_codecs 95 msg ?ls = Some (update_node (spawn t) ?ls)
             \<and> run_task sample_codecs silent_env t (node (update_node (spawn t) ?ls)) = Some c
             \<and> repl_menu silent_env ''read'' \<lparr>rp_node = c, rp_screen = []\<rparr> = Some (b', True)
             \<and> ([] :: repl_buffer_data list) = xs @ ys
             \<and> rp_screen b' = ''Reading contents from buffer...''
                  # map (\<lambda>d. ''Buffer Data: '' @ hd (rdata d)) xs
                  @ (''Buffer Data: '' @ join_with '' '' [''hi''])
                  # map (\<lambda>d. ''Buffer Data: '' @ hd (rdata d)) ys))"
    by (rule typed_data_is_read_elsewhere [where n = 1])
      (simp_all add: repl_words read_word sample_replica_room loop_start_def)
  then obtain a' sid m payload where r: "repl_menu silent_env ''repl hi'' ?a = Some (a', True)"
    "app_channel (rp_node a') = [FromApplication sid (GossipsubBroadcastMessage REPL_NETWORK_ID m)]"
    "calls (handle_broadcast sample_swarm sid REPL_NETWORK_ID m ?ls) = [GossipPublish REPL_NETWORK_ID payload]"
    and read: "\<And>msg. gossip_topic msg = REPL_NETWORK_ID \<and> gossip_payload msg = payload \<Longrightarrow>
          \<exists>t c b'. handle_gossip sample_codecs 95 msg ?ls = Some (update_node (spawn t) ?ls)
             \<and> run_task sample_codecs silent_env t (node (update_node (spawn t) ?ls)) = Some c
             \<and> repl_menu silent_env ''read'' \<lparr>rp_node = c, rp_screen = []\<rparr> = Some (b', True)
             \<and> rp_screen b' = [''Reading contents from buffer...'', ''Buffer Data: hi'']"
    by (auto simp: loop_start_def)
  obtain t c b' where t: "handle_gossip sample_codecs 95
          \<lparr>propagation_source = PeerId ''q'', gossip_id = ''g1'', gossip_source = Some (PeerId ''o''),
           gossip_payload = payload, gossip_topic = REPL_NETWORK_ID\<rparr> ?ls = Some (update_node (spawn t) ?ls)"
    "run_task sample_codecs silent_env t (node (update_node (spawn t) ?ls)) = Some c"
    "repl_menu silent_env ''read'' \<lparr>rp_node = c, rp_screen = []\<rparr> = Some (b', True)"
    "rp_screen b' = [''Reading contents from buffer...'', ''Buffer Data: hi'']"
    using read [of "\<lparr>propagation_source = PeerId ''q'', gossip_id = ''g1'', gossip_source = Some (PeerId ''o''),
           gossip_payload = payload, gossip_topic = REPL_NETWORK_ID\<rparr>"] by auto
  show ?thesis using r t by blast
qed

end
