(* ===== verification/Repl_Group.thy ===== *)
theory Repl_Group
  imports Repl_Journey
begin

text \<open>
  A group of nodes that replicate under eventual consistency, as a step relation over all of
  them: an application replicates or consumes data, a network task serves the request and
  publishes it, a message reaches another node's network task, a spawned task stores its data, in
  any order. The gossip network delivers every published message to every other node, once, under
  a fresh id. Once nothing is on its way any more, every node's buffer holds, in order, exactly
  what the others have published and its own application has not consumed. Left out are the
  periodic synchronisation and clones, which only repair what such a network does not lose, and
  data that the gossip fields cannot carry: invalid UTF-8 and text with their separator.
\<close>

section \<open>The group\<close>

record 'n repl_group =
  grp_nodes :: "'n \<Rightarrow> loop_state"
  in_flight :: "'n \<Rightarrow> gossip_message multiset"
  grp_log :: "('n \<times> nonce \<times> string \<times> string_vector) list"
  taken :: "'n \<Rightarrow> (nonce \<times> string \<times> string_vector) multiset"

definition set_node ::
    "'n \<Rightarrow> loop_state \<Rightarrow> ('n, 'z) repl_group_scheme \<Rightarrow> ('n, 'z) repl_group_scheme" where
  "set_node i ls g = g\<lparr>grp_nodes := (grp_nodes g)(i := ls)\<rparr>"

definition logged_id :: "'n \<times> nonce \<times> string \<times> string_vector \<Rightarrow> string" where
  "logged_id x = fst (snd (snd x))"

definition publish_from ::
    "'n \<Rightarrow> gossip_message \<Rightarrow> ('n, 'z) repl_group_scheme \<Rightarrow> ('n, 'z) repl_group_scheme" where
  "publish_from i msg g =
     g\<lparr>in_flight := (\<lambda>j. if j = i then in_flight g j else add_mset msg (in_flight g j))\<rparr>"

inductive group_step :: "codecs \<Rightarrow> string \<Rightarrow> 'n repl_group \<Rightarrow> 'n repl_group \<Rightarrow> bool" for cd rn where
  g_replicate: "list_all gossip_text data \<Longrightarrow>
     group_step cd rn g (set_node i ((grp_nodes g i)\<lparr>node :=
       fst (replicate_data env data rn (node (grp_nodes g i)))\<rparr>) g)"
| g_consume: "consume_repl_data rn (node (grp_nodes g i)) = (c, r) \<Longrightarrow>
     group_step cd rn g ((set_node i ((grp_nodes g i)\<lparr>node := c\<rparr>) g)\<lparr>taken := (taken g)(i :=
       case r of None \<Rightarrow> taken g i | Some d \<Rightarrow> add_mset (entry_content d) (taken g i))\<rparr>)"
| g_publish: "app_channel (node (grp_nodes g i))
       = FromApplication sid (GossipsubBroadcastMessage rn (repl_message sent clk rn data)) # rest \<Longrightarrow>
     receive_request cd sw (grp_nodes g i) = ls \<Longrightarrow>
     calls ls = calls (grp_nodes g i) @ [GossipPublish topic payload] \<Longrightarrow>
     call_ok sw (GossipPublish topic payload) \<Longrightarrow>
     mid \<notin> logged_id ` set (grp_log g) \<Longrightarrow>
     group_step cd rn g ((set_node i ls (publish_from i
       \<lparr>propagation_source = from, gossip_id = mid, gossip_source = source,
        gossip_payload = payload, gossip_topic = topic\<rparr> g))\<lparr>grp_log := grp_log g @ [(i, clk, mid, data)]\<rparr>)"
| g_refused: "app_channel (node (grp_nodes g i))
       = FromApplication sid (GossipsubBroadcastMessage rn (repl_message sent clk rn data)) # rest \<Longrightarrow>
     receive_request cd sw (grp_nodes g i) = ls \<Longrightarrow>
     calls ls = calls (grp_nodes g i) @ [GossipPublish topic payload] \<Longrightarrow>
     \<not> call_ok sw (GossipPublish topic payload) \<Longrightarrow>
     group_step cd rn g (set_node i ls g)"
| g_receive: "msg \<in># in_flight g j \<Longrightarrow>
     handle_gossip cd now msg (grp_nodes g j) = Some ls \<Longrightarrow>
     group_step cd rn g ((set_node j ls g)\<lparr>in_flight := (in_flight g)(j := in_flight g j - {#msg#})\<rparr>)"
| g_store: "IncomingReplData rn d \<in> set (tasks (node (grp_nodes g j))) \<Longrightarrow>
     run_task cd env (IncomingReplData rn d) (node (grp_nodes g j)) = Some c \<Longrightarrow>
     group_step cd rn g (set_node j
       ((grp_nodes g j)\<lparr>node := finish_task (IncomingReplData rn d) c\<rparr>) g)"

section \<open>The invariant\<close>

fun is_broadcast :: "string \<Rightarrow> stream_data \<Rightarrow> bool" where
  "is_broadcast rn (FromApplication sid (GossipsubBroadcastMessage topic m)) =
     (topic = rn \<and> (\<exists>sent clk data. m = repl_message sent clk rn data \<and> list_all gossip_text data))"
| "is_broadcast rn _ = False"

definition carries_repl :: "string \<Rightarrow> gossip_message \<Rightarrow> bool" where
  "carries_repl rn msg \<longleftrightarrow>
     (\<exists>sent clk data. published rn (repl_message sent clk rn data) msg \<and> list_all gossip_text data)"

text \<open>What a message brings.\<close>

definition msg_content :: "gossip_message \<Rightarrow> nonce \<times> string \<times> string_vector" where
  "msg_content msg =
     (let fields = gossip_fields (gossip_payload msg) in
      (parse_or_0 (fields ! 2), gossip_id msg, drop 4 fields))"

fun task_content :: "string \<Rightarrow> task \<Rightarrow> (nonce \<times> string \<times> string_vector) list" where
  "task_content rn (IncomingReplData rn' d) = (if rn' = rn then [entry_content d] else [])"
| "task_content rn _ = []"

definition pending :: "string \<Rightarrow> core \<Rightarrow> (nonce \<times> string \<times> string_vector) multiset" where
  "pending rn c = mset (concat (map (task_content rn) (tasks c)))"

definition stored :: "string \<Rightarrow> core \<Rightarrow> (nonce \<times> string \<times> string_vector) multiset" where
  "stored rn c = mset (map entry_content (public_queue c rn))"

text \<open>What the others have published.\<close>

definition from_others :: "'n \<Rightarrow> 'n repl_group \<Rightarrow> (nonce \<times> string \<times> string_vector) list" where
  "from_others j g = map snd (filter (\<lambda>x. fst x \<noteq> j) (grp_log g))"

definition member_ok :: "nat \<Rightarrow> string \<Rightarrow> 'n repl_group \<Rightarrow> 'n \<Rightarrow> bool" where
  "member_ok N rn g j \<longleftrightarrow>
     replica_with_room rn N (node (grp_nodes g j))
     \<and> list_all (is_broadcast rn) (app_channel (node (grp_nodes g j)))
     \<and> (\<forall>msg \<in># in_flight g j. carries_repl rn msg)
     \<and> stored rn (node (grp_nodes g j)) + pending rn (node (grp_nodes g j))
         + image_mset msg_content (in_flight g j) + taken g j = mset (from_others j g)"

definition group_ok :: "nat \<Rightarrow> string \<Rightarrow> 'n repl_group \<Rightarrow> bool" where
  "group_ok N rn g \<longleftrightarrow> gossip_text rn \<and> distinct (map logged_id (grp_log g))
     \<and> (length (grp_log g) \<le> N \<longrightarrow> (\<forall>j. member_ok N rn g j))"

section \<open>What the steps do to a member\<close>

lemma query_channel:
  "app_channel (fst (query_network env req c)) = app_channel c
   \<or> (\<exists>sid. app_channel (fst (query_network env req c)) = app_channel c @ [FromApplication sid req])"
proof -
  obtain c1 r where s: "send_to_network env req c = (c1, r)" by fastforce
  then have "app_channel c1 = app_channel c \<or> (\<exists>sid. app_channel c1 = app_channel c @ [FromApplication sid req])"
    by (auto simp: send_to_network_def send_with_id_def channel_send_def Let_def split: if_splits prod.splits)
  moreover have "app_channel (fst (query_network env req c)) = app_channel c1"
    by (cases r) (simp_all add: query_network_def s recv_from_network_def case_prod_beta channel_recv_loop)
  ultimately show ?thesis by simp
qed

lemma replicate_member:
  fixes env data rn c
  defines "c' \<equiv> fst (replicate_data env data rn c)"
  shows "replica_buffer c' = replica_buffer c" "tasks c' = tasks c"
    and "repl_cfg c' rn = None \<longleftrightarrow> repl_cfg c rn = None"
    and "list_all gossip_text data \<Longrightarrow> list_all (is_broadcast rn) (app_channel c) \<Longrightarrow>
           list_all (is_broadcast rn) (app_channel c')"
proof -
  show "replica_buffer c' = replica_buffer c" "tasks c' = tasks c"
    by (auto simp: c'_def replicate_data_def Let_def case_prod_beta set_replication_def
        split: option.split sum.split)
  show "repl_cfg c' rn = None \<longleftrightarrow> repl_cfg c rn = None"
    by (auto simp: c'_def replicate_data_def Let_def case_prod_beta set_replication_def repl_cfg_def
        split: option.split sum.split)
  assume data: "list_all gossip_text data" and old: "list_all (is_broadcast rn) (app_channel c)"
  show "list_all (is_broadcast rn) (app_channel c')"
  proof (cases "repl_cfg c rn")
    case None
    then show ?thesis using old by (simp add: c'_def replicate_data_def)
  next
    case (Some d)
    let ?clk = "saturating_add (cfg_clock d) 1"
    let ?c1 = "set_replication ((replication (network_info c))(rn \<mapsto> d\<lparr>cfg_clock := ?clk\<rparr>)) c"
    let ?req = "GossipsubBroadcastMessage rn (repl_message (clock env 0) ?clk rn data)"
    have "c' = fst (query_network env ?req ?c1)"
      using Some by (simp add: c'_def replicate_data_def Let_def case_prod_beta split: sum.split)
    moreover have "is_broadcast rn (FromApplication sid ?req)" for sid using data by auto
    moreover have "app_channel ?c1 = app_channel c" by (simp add: set_replication_def)
    ultimately show ?thesis
      using query_channel [of env ?req ?c1] old by (auto simp del: is_broadcast.simps)
  qed
qed

lemma broadcast_served:
  assumes "app_channel (node ls) = FromApplication sid (GossipsubBroadcastMessage topic m) # rest"
  shows "node (receive_request cd sw ls) = (node ls)\<lparr>app_channel := rest\<rparr>"
    and "calls (receive_request cd sw ls)
           = calls ls @ [GossipPublish topic (join_with GOSSIP_MESSAGE_SEPARATOR m)]"
  by (simp_all add: receive_request_def assms update_node_def handle_broadcast_def Let_def
      make_call_def respond_def)

lemma message_content:
  assumes "published rn (repl_message sent clk rn data) msg" "list_all gossip_text data" "gossip_text rn"
  shows "msg_content msg = (clk, gossip_id msg, data)"
proof -
  have "gossip_fields (gossip_payload msg) = repl_message sent clk rn data"
    by (rule published_fields [OF assms(1)]) (use assms in \<open>simp_all add: repl_message_def\<close>)
  then show ?thesis by (simp add: msg_content_def repl_message_def parse_or_0_def)
qed

lemma message_received:
  assumes "carries_repl rn msg" "gossip_text rn" "handle_gossip cd now msg ls = Some ls'"
  obtains d where "ls' = update_node (spawn (IncomingReplData rn d)) ls" "entry_content d = msg_content msg"
proof -
  obtain sent clk data where m: "published rn (repl_message sent clk rn data) msg" "list_all gossip_text data"
    using assms(1) by (auto simp: carries_repl_def)
  from repl_gossip_spawns [OF m assms(2)] obtain d where
    "handle_gossip cd now msg ls = Some (update_node (spawn (IncomingReplData rn d)) ls)"
    "rdata d = data" "lamport_clock d = clk" "message_id d = gossip_id msg" by blast
  with that show thesis using assms(3) message_content [OF m assms(2)] by (simp add: entry_content_def)
qed

lemma incoming_frame:
  assumes "handle_incoming_repl_data env rn d c = Some c'"
    and "consistency_model (replica_buffer c) = Eventual"
  shows "tasks c' = tasks c" "app_channel c' = app_channel c"
  using assms
  by (auto simp: handle_incoming_repl_data_def Let_def repl_push_def push_event_def set_replication_def
      set_buffer_def split: option.splits)

lemma pending_simps:
  "pending rn (spawn (IncomingReplData rn d) c) = add_mset (entry_content d) (pending rn c)"
  "pending rn (c\<lparr>app_channel := ch\<rparr>) = pending rn c"
  by (simp_all add: pending_def spawn_def)

lemma pending_remove:
  assumes "IncomingReplData rn d \<in> set ts"
  shows "mset (concat (map (task_content rn) ts))
     = add_mset (entry_content d) (mset (concat (map (task_content rn) (remove1 (IncomingReplData rn d) ts))))"
  using assms by (induction ts) auto

lemma room_frame:
  assumes "replica_buffer c' = replica_buffer c" "repl_cfg c' rn = None \<longleftrightarrow> repl_cfg c rn = None"
  shows "replica_with_room rn N c' = replica_with_room rn N c" "stored rn c' = stored rn c"
  using assms by (simp_all add: replica_with_room_def public_queue_def stored_def)

lemma insert_contents:
  assumes "rset_wf q" "repl_key d \<notin> rset_keys q"
  shows "mset (map entry_content (rset_insert d q)) = add_mset (entry_content d) (mset (map entry_content q))"
proof -
  have "repl_key d \<notin> repl_key ` set xs \<Longrightarrow> mset (bset_insert repl_key d xs) = add_mset d (mset xs)" for xs
    by (induction xs) auto
  then have "mset (rset_insert d q) = add_mset d (mset q)"
    using assms(2) by (simp add: rset_insert_def rset_keys_def bset_keys_def)
  then have "image_mset entry_content (mset (rset_insert d q)) = image_mset entry_content (add_mset d (mset q))"
    by (rule arg_cong)
  then show ?thesis by simp
qed

section \<open>The invariant holds\<close>

lemma set_node_simps [simp]:
  "grp_nodes (set_node i ls g) = (grp_nodes g)(i := ls)"
  "in_flight (set_node i ls g) = in_flight g" "grp_log (set_node i ls g) = grp_log g"
  "taken (set_node i ls g) = taken g"
  by (simp_all add: set_node_def)

lemma publish_from_simps [simp]:
  "grp_nodes (publish_from i msg g) = grp_nodes g" "grp_log (publish_from i msg g) = grp_log g"
  "taken (publish_from i msg g) = taken g"
  "in_flight (publish_from i msg g) j = (if j = i then in_flight g j else add_mset msg (in_flight g j))"
  by (simp_all add: publish_from_def)

text \<open>A member whose node, messages and others' log are the same is as good as before.\<close>

lemma member_ok_same:
  assumes "member_ok N rn g j" "in_flight g' j = in_flight g j" "grp_log g' = grp_log g" "taken g' j = taken g j"
    and "replica_buffer (node (grp_nodes g' j)) = replica_buffer (node (grp_nodes g j))"
    and "tasks (node (grp_nodes g' j)) = tasks (node (grp_nodes g j))"
    and "repl_cfg (node (grp_nodes g' j)) rn = None \<longleftrightarrow> repl_cfg (node (grp_nodes g j)) rn = None"
    and "list_all (is_broadcast rn) (app_channel (node (grp_nodes g' j)))"
  shows "member_ok N rn g' j"
  using assms room_frame [OF assms(5,7)]
  by (simp add: member_ok_def pending_def from_others_def)

lemma content_id: "fst (snd (entry_content d)) = message_id d"
  by (simp add: entry_content_def)

text \<open>The ids in the log are distinct, so what is still to be stored is new to the buffer.\<close>

lemma pending_is_new:
  assumes "mset (map entry_content q) + add_mset (entry_content d) M = mset (from_others j g)"
    and "distinct (map logged_id (grp_log g))"
  shows "repl_key d \<notin> rset_keys q"
proof
  assume "repl_key d \<in> rset_keys q"
  then obtain e where e: "e \<in> set q" "message_id e = message_id d"
    by (auto simp: rset_keys_def bset_keys_def repl_key_def)
  let ?id = "\<lambda>x :: nonce \<times> string \<times> string_vector. fst (snd x)"
  have ids: "map ?id (from_others j g) = map logged_id (filter (\<lambda>x. fst x \<noteq> j) (grp_log g))"
    by (simp add: from_others_def logged_id_def)
  have "distinct (map ?id (from_others j g))" unfolding ids by (rule distinct_map_filter [OF assms(2)])
  moreover obtain xs where xs: "mset xs = M" using ex_mset by blast
  have "mset (map ?id (from_others j g)) = mset (map ?id (map entry_content q @ entry_content d # xs))"
    using arg_cong [OF assms(1), of "image_mset ?id"] by (simp add: xs [symmetric] ac_simps multiset.map_comp)
  ultimately have "distinct (map ?id (map entry_content q @ entry_content d # xs))"
    using mset_eq_imp_distinct_iff by blast
  then have "message_id d \<notin> message_id ` set q" by (auto simp: content_id)
  with e show False by (metis imageI)
qed

lemma length_from_others: "length (from_others j g) \<le> length (grp_log g)"
  by (simp add: from_others_def)

text \<open>Storing what a task carries.\<close>

lemma stored_member:
  assumes "member_ok N rn g j" "length (grp_log g) \<le> N" "distinct (map logged_id (grp_log g))"
    and "IncomingReplData rn d \<in> set (tasks (node (grp_nodes g j)))"
    and "run_task cd env (IncomingReplData rn d) (node (grp_nodes g j)) = Some c"
  shows "member_ok N rn (set_node j
       ((grp_nodes g j)\<lparr>node := finish_task (IncomingReplData rn d) c\<rparr>) g) j"
proof -
  let ?c = "node (grp_nodes g j)" and ?t = "IncomingReplData rn d"
  let ?rest = "mset (concat (map (task_content rn) (remove1 ?t (tasks ?c))))"
  have room: "replica_with_room rn N ?c" using assms(1) by (simp add: member_ok_def)
  have eq: "stored rn ?c + add_mset (entry_content d) (?rest + image_mset msg_content (in_flight g j) + taken g j)
      = mset (from_others j g)"
    using assms(1) pending_remove [OF assms(4)] by (simp add: member_ok_def pending_def add.assoc)
  have "size (stored rn ?c) < length (from_others j g)"
    using arg_cong [OF eq, of size] by simp
  then have "length (public_queue ?c rn) < N"
    using length_from_others [of j g] assms(2) by (simp add: stored_def)
  from receive_one [OF room this, of cd env d] assms(5)
  have c: "replica_with_room rn N c" "queue (replica_buffer c) rn = Some (rset_insert d (public_queue ?c rn))"
    by auto
  have frame: "tasks c = tasks ?c" "app_channel c = app_channel ?c"
    using incoming_frame [of env rn d ?c c] assms(5) room by (simp_all add: replica_with_room_def)
  have wf: "rset_wf (public_queue ?c rn)" using room by (simp add: replica_with_room_def)
  have "stored rn c = add_mset (entry_content d) (stored rn ?c)"
    using insert_contents [OF wf pending_is_new [OF eq [unfolded stored_def] assms(3)]] c(2)
    by (simp add: stored_def public_queue_def or_default_def)
  then have "stored rn c + ?rest + image_mset msg_content (in_flight g j) + taken g j = mset (from_others j g)"
    using eq by (simp add: add.assoc)
  then show ?thesis
    using assms(1) c(1) frame room_frame(1) [of "finish_task ?t c" c rn N]
      room_frame(2) [of "finish_task ?t c" c rn]
    by (simp add: member_ok_def finish_task_def pending_def from_others_def repl_cfg_def)
qed

lemma group_ok_node:
  assumes "group_ok N rn g" "grp_log g' = grp_log g"
    and "\<And>j. length (grp_log g) \<le> N \<Longrightarrow> member_ok N rn g j \<Longrightarrow> member_ok N rn g' j"
  shows "group_ok N rn g'"
  using assms by (simp add: group_ok_def)

lemma group_ok_replicate:
  assumes "group_ok N rn g" "list_all gossip_text data"
  shows "group_ok N rn (set_node i ((grp_nodes g i)\<lparr>node :=
           fst (replicate_data env data rn (node (grp_nodes g i)))\<rparr>) g)"
proof (rule group_ok_node [OF assms(1)])
  fix j assume ok: "member_ok N rn g j"
  then show "member_ok N rn (set_node i ((grp_nodes g i)\<lparr>node :=
           fst (replicate_data env data rn (node (grp_nodes g i)))\<rparr>) g) j"
    using replicate_member [where env = env and data = data and rn = rn and c = "node (grp_nodes g i)"] assms(2)
    by (intro member_ok_same [OF ok]) (auto simp: member_ok_def)
qed simp

text \<open>Consuming moves the first entry from the buffer to what is taken.\<close>

lemma consumed_member:
  assumes "consume_repl_data rn c = (c', r)" "replica_with_room rn N c"
  shows "replica_with_room rn N c'" "tasks c' = tasks c" "app_channel c' = app_channel c"
    and "stored rn c = (case r of None \<Rightarrow> stored rn c' | Some d \<Rightarrow> add_mset (entry_content d) (stored rn c'))"
proof -
  have "replica_with_room rn N c' \<and> tasks c' = tasks c \<and> app_channel c' = app_channel c
     \<and> stored rn c = (case r of None \<Rightarrow> stored rn c' | Some d \<Rightarrow> add_mset (entry_content d) (stored rn c'))"
  proof (cases "public_queue c rn")
    case Nil
    then have "c' = c \<and> r = None"
      using assms(1) by (auto simp: consume_repl_data_def pop_front_queue_def public_queue_def or_default_def
          split: option.splits)
    then show ?thesis using assms(2) by simp
  next
    case (Cons d q)
    then have q: "queue (replica_buffer c) rn = Some (d # q)"
      by (auto simp: public_queue_def or_default_def split: option.splits)
    have first: "rset_remove d (d # q) = q" by (simp add: rset_remove_def)
    have "rset_wf (d # q)" using assms(2) Cons by (simp add: replica_with_room_def)
    then have "rset_wf q" using rset_wf_tl by fastforce
    moreover have c': "r = Some d" "queue (replica_buffer c') rn = Some q" "repl_cfg c' rn \<noteq> None"
      "config (replica_buffer c') = config (replica_buffer c)" "tasks c' = tasks c" "app_channel c' = app_channel c"
      using assms(1) q first
      by (auto simp: consume_repl_data_def pop_front_queue_def Let_def repl_cfg_def set_replication_def set_buffer_def)
    ultimately show ?thesis
      using assms(2) Cons by (simp add: replica_with_room_def stored_def public_queue_def or_default_def
          consistency_model_def)
  qed
  then show "replica_with_room rn N c'" "tasks c' = tasks c" "app_channel c' = app_channel c"
    "stored rn c = (case r of None \<Rightarrow> stored rn c' | Some d \<Rightarrow> add_mset (entry_content d) (stored rn c'))"
    by blast+
qed

lemma group_ok_consume:
  assumes "group_ok N rn g" "consume_repl_data rn (node (grp_nodes g i)) = (c, r)"
  shows "group_ok N rn ((set_node i ((grp_nodes g i)\<lparr>node := c\<rparr>) g)\<lparr>taken := (taken g)(i :=
       case r of None \<Rightarrow> taken g i | Some d \<Rightarrow> add_mset (entry_content d) (taken g i))\<rparr>)"
proof (rule group_ok_node [OF assms(1)])
  let ?g' = "(set_node i ((grp_nodes g i)\<lparr>node := c\<rparr>) g)\<lparr>taken := (taken g)(i :=
       case r of None \<Rightarrow> taken g i | Some d \<Rightarrow> add_mset (entry_content d) (taken g i))\<rparr>"
  fix k assume ok: "member_ok N rn g k"
  show "member_ok N rn ?g' k"
  proof (cases "k = i")
    case True
    then have "replica_with_room rn N (node (grp_nodes g i))" using ok by (simp add: member_ok_def)
    note c = consumed_member [OF assms(2) this]
    show ?thesis
      using ok True c by (cases r) (simp_all add: member_ok_def from_others_def pending_def)
  next
    case False
    with ok show ?thesis by (simp add: member_ok_def from_others_def)
  qed
qed simp

lemma group_ok_served:
  assumes "group_ok N rn g"
    and "app_channel (node (grp_nodes g i)) = FromApplication sid (GossipsubBroadcastMessage rn m) # rest"
  shows "group_ok N rn (set_node i (receive_request cd sw (grp_nodes g i)) g)"
proof (rule group_ok_node [OF assms(1)])
  fix j assume ok: "member_ok N rn g j"
  then have "list_all (is_broadcast rn) (app_channel (node (grp_nodes g j)))" by (simp add: member_ok_def)
  then show "member_ok N rn (set_node i (receive_request cd sw (grp_nodes g i)) g) j"
    using broadcast_served(1) [OF assms(2), of cd sw] assms(2)
    by (intro member_ok_same [OF ok]) (auto simp: repl_cfg_def)
qed simp

lemma published_carries:
  assumes "is_broadcast rn (FromApplication sid (GossipsubBroadcastMessage rn (repl_message sent clk rn data)))"
    and "gossip_text rn" "gossip_topic msg = rn"
    and "gossip_payload msg = join_with GOSSIP_MESSAGE_SEPARATOR (repl_message sent clk rn data)"
  shows "carries_repl rn msg \<and> msg_content msg = (clk, gossip_id msg, data)"
proof -
  obtain sent' clk' data' where same: "repl_message sent clk rn data = repl_message sent' clk' rn data'"
    "list_all gossip_text data'" using assms(1) by auto
  then have "list_all gossip_text data" by (simp add: repl_message_def)
  moreover have "published rn (repl_message sent clk rn data) msg"
    using assms(3,4) by (simp add: published_def)
  ultimately show ?thesis using message_content assms(2) unfolding carries_repl_def by blast
qed

lemma group_ok_publish:
  assumes "group_ok N rn g"
    and ch: "app_channel (node (grp_nodes g i))
           = FromApplication sid (GossipsubBroadcastMessage rn (repl_message sent clk rn data)) # rest"
    and "gossip_topic msg = rn" "gossip_id msg = mid"
    and "gossip_payload msg = join_with GOSSIP_MESSAGE_SEPARATOR (repl_message sent clk rn data)"
    and "mid \<notin> logged_id ` set (grp_log g)"
  shows "group_ok N rn ((set_node i (receive_request cd sw (grp_nodes g i)) (publish_from i msg g))
           \<lparr>grp_log := grp_log g @ [(i, clk, mid, data)]\<rparr>)"
proof -
  let ?g1 = "set_node i (receive_request cd sw (grp_nodes g i)) g"
  let ?g' = "(set_node i (receive_request cd sw (grp_nodes g i)) (publish_from i msg g))
           \<lparr>grp_log := grp_log g @ [(i, clk, mid, data)]\<rparr>"
  have ok1: "group_ok N rn ?g1" by (rule group_ok_served [OF assms(1) ch])
  have rn: "gossip_text rn" using assms(1) by (simp add: group_ok_def)
  have "member_ok N rn ?g' j" if len: "length (grp_log g) < N" for j
  proof -
    have m: "member_ok N rn ?g1 j" "member_ok N rn g i"
      using ok1 assms(1) len by (simp_all add: group_ok_def)
    then have "is_broadcast rn (FromApplication sid (GossipsubBroadcastMessage rn (repl_message sent clk rn data)))"
      using ch by (simp add: member_ok_def)
    from published_carries [OF this rn assms(3,5)] assms(4)
    have msg: "carries_repl rn msg" "msg_content msg = (clk, mid, data)" by simp_all
    show ?thesis
      using m(1) msg by (auto simp: member_ok_def from_others_def)
  qed
  moreover have "distinct (map logged_id (grp_log ?g'))"
    using assms(1,6) by (simp add: group_ok_def logged_id_def)
  ultimately show ?thesis using rn by (simp add: group_ok_def)
qed

lemma group_ok_receive:
  assumes "group_ok N rn g" "msg \<in># in_flight g j" "handle_gossip cd now msg (grp_nodes g j) = Some ls"
  shows "group_ok N rn ((set_node j ls g)\<lparr>in_flight := (in_flight g)(j := in_flight g j - {#msg#})\<rparr>)"
proof (rule group_ok_node [OF assms(1)])
  let ?g' = "(set_node j ls g)\<lparr>in_flight := (in_flight g)(j := in_flight g j - {#msg#})\<rparr>"
  fix k assume len: "length (grp_log g) \<le> N" and ok: "member_ok N rn g k"
  show "member_ok N rn ?g' k"
  proof (cases "k = j")
    case False
    with ok show ?thesis by (simp add: member_ok_def from_others_def)
  next
    case True
    have "carries_repl rn msg" "gossip_text rn"
      using ok assms(1,2) True by (auto simp: member_ok_def group_ok_def)
    then obtain d where d: "ls = update_node (spawn (IncomingReplData rn d)) (grp_nodes g j)"
      "entry_content d = msg_content msg" using message_received assms(3) by blast
    have flight: "image_mset msg_content (in_flight g j)
        = add_mset (msg_content msg) (image_mset msg_content (in_flight g j - {#msg#}))"
      using assms(2) by (metis image_mset_add_mset insert_DiffM)
    have node: "replica_buffer (node ls) = replica_buffer (node (grp_nodes g j))"
      "repl_cfg (node ls) rn = repl_cfg (node (grp_nodes g j)) rn"
      "app_channel (node ls) = app_channel (node (grp_nodes g j))"
      by (simp_all add: d(1) update_node_def spawn_def repl_cfg_def)
    have pend: "pending rn (node ls) = add_mset (msg_content msg) (pending rn (node (grp_nodes g j)))"
      by (simp add: d update_node_def pending_simps)
    have "\<forall>m \<in># in_flight g j - {#msg#}. carries_repl rn m"
      using ok True by (auto simp: member_ok_def dest: in_diffD)
    then show ?thesis
      using ok True room_frame(1) [of "node ls" "node (grp_nodes g j)" rn N]
        room_frame(2) [of "node ls" "node (grp_nodes g j)" rn] node pend flight
      by (simp add: member_ok_def from_others_def)
  qed
qed simp

lemma group_ok_store:
  assumes "group_ok N rn g" "IncomingReplData rn d \<in> set (tasks (node (grp_nodes g j)))"
    and "run_task cd env (IncomingReplData rn d) (node (grp_nodes g j)) = Some c"
  shows "group_ok N rn (set_node j
       ((grp_nodes g j)\<lparr>node := finish_task (IncomingReplData rn d) c\<rparr>) g)"
proof (rule group_ok_node [OF assms(1)])
  fix k assume len: "length (grp_log g) \<le> N" and ok: "member_ok N rn g k"
  show "member_ok N rn (set_node j
       ((grp_nodes g j)\<lparr>node := finish_task (IncomingReplData rn d) c\<rparr>) g) k"
  proof (cases "k = j")
    case True
    have "member_ok N rn g j" "distinct (map logged_id (grp_log g))"
      using ok True assms(1) by (simp_all add: group_ok_def)
    then show ?thesis unfolding True by (rule stored_member [OF _ len _ assms(2,3)])
  next
    case False
    with ok show ?thesis by (simp add: member_ok_def from_others_def)
  qed
qed simp

lemma group_ok_step: "group_step cd rn g g' \<Longrightarrow> group_ok N rn g \<Longrightarrow> group_ok N rn g'"
proof (induction rule: group_step.induct)
  case (g_replicate data g i env)
  then show ?case by (simp add: group_ok_replicate)
next
  case (g_consume g i c r)
  then show ?case by (simp add: group_ok_consume)
next
  case (g_publish g i sid sent clk data rest sw ls topic payload mid sender source)
  then have "topic = rn" "payload = join_with GOSSIP_MESSAGE_SEPARATOR (repl_message sent clk rn data)"
    using broadcast_served(2) [OF g_publish(1), of cd sw] by auto
  with g_publish show ?case by (auto intro!: group_ok_publish)
next
  case (g_refused g i sid sent clk data rest sw ls topic payload)
  then show ?case using group_ok_served [OF g_refused(5,1), of cd sw] by simp
next
  case (g_receive msg g j now ls)
  then show ?case by (simp add: group_ok_receive)
next
  case (g_store d g j env c)
  then show ?case by (simp add: group_ok_store)
qed

interpretation replica_group: step_invariant "group_step cd rn" "group_ok N rn" for cd rn N
  by unfold_locales (rule group_ok_step)

section \<open>Convergence\<close>

definition group_start :: "nat \<Rightarrow> string \<Rightarrow> 'n repl_group \<Rightarrow> bool" where
  "group_start N rn g \<longleftrightarrow> grp_log g = [] \<and> (\<forall>j. in_flight g j = {#} \<and> taken g j = {#}
     \<and> replica_with_room rn N (node (grp_nodes g j)) \<and> public_queue (node (grp_nodes g j)) rn = []
     \<and> app_channel (node (grp_nodes g j)) = [] \<and> pending rn (node (grp_nodes g j)) = {#})"

lemma group_start_ok: "gossip_text rn \<Longrightarrow> group_start N rn g \<Longrightarrow> group_ok N rn g"
  by (auto simp: group_start_def group_ok_def member_ok_def stored_def from_others_def)

lemma distinct_others:
  assumes "distinct (map logged_id (grp_log g))" shows "distinct (from_others j g)"
proof -
  have "map (\<lambda>x. fst (snd x)) (from_others j g) = map logged_id (filter (\<lambda>x. fst x \<noteq> j) (grp_log g))"
    by (simp add: from_others_def logged_id_def)
  then have "distinct (map (\<lambda>x. fst (snd x)) (from_others j g))" using assms by (simp add: distinct_map_filter)
  then show ?thesis by (simp add: distinct_map)
qed

text \<open>Of a list without repetitions, what is not in one part is the other.\<close>

lemma mset_split_distinct:
  assumes "distinct xs" "mset ys + M = mset xs"
  shows "mset ys = mset (filter (\<lambda>x. x \<notin># M) xs)"
proof (rule multiset_eqI)
  fix x
  have "count (mset ys) x + count M x = count (mset xs) x" using assms(2) by (metis count_union)
  moreover have "count (mset xs) x \<le> 1" using assms(1) by (simp add: distinct_count_atmost_1)
  moreover have "0 < count M x \<longleftrightarrow> x \<in># M" by (rule count_greater_zero_iff)
  ultimately have "x \<in># M \<longrightarrow> count (mset ys) x = 0" "x \<notin># M \<longrightarrow> count (mset ys) x = count (mset xs) x"
    by linarith+
  then have "count (mset ys) x = (if x \<in># M then 0 else count (mset xs) x)" by presburger
  then show "count (mset ys) x = count (mset (filter (\<lambda>x. x \<notin># M) xs)) x"
    unfolding mset_filter count_filter_mset by simp
qed

lemma no_pending:
  "pending rn c = {#} \<longleftrightarrow> (\<forall>d. IncomingReplData rn d \<notin> set (tasks c))"
proof
  assume "\<forall>d. IncomingReplData rn d \<notin> set (tasks c)"
  then have "task_content rn t = []" if "t \<in> set (tasks c)" for t
    using that by (cases "(rn, t)" rule: task_content.cases) auto
  then show "pending rn c = {#}" by (simp add: pending_def)
qed (auto simp: pending_def dest: bspec)

text \<open>C3: In a group of nodes under eventual consistency whose applications replicate and consume data,
  in any interleaving of the applications, network tasks, spawned tasks and messages: what a node
  stores or its application has consumed was published by another one, and once its messages have
  arrived and its tasks have run, its buffer holds exactly what the others have published and
  its application has not consumed, ordered by clock and message id. This takes room for all that
  is published, items that are valid UTF-8 without the separator of the gossip fields, and a
  gossip network that brings a message to each other node once, under an id of its own; clones,
  the periodic synchronisation and the traffic of other networks are not among the steps.\<close>

theorem replica_group_converges:
  assumes "gossip_text rn" "group_start N rn g0" "(group_step cd rn)\<^sup>*\<^sup>* g0 g"
    and "length (grp_log g) \<le> N"
    and "others = map snd (filter (\<lambda>x. fst x \<noteq> j) (grp_log g))"
    and "queue_of_j = map entry_content (public_queue (node (grp_nodes g j)) rn)"
  shows "set queue_of_j \<subseteq> set others \<and> taken g j \<subseteq># mset others
     \<and> (in_flight g j = {#} \<and> (\<forall>d. IncomingReplData rn d \<notin> set (tasks (node (grp_nodes g j)))) \<longrightarrow>
          queue_of_j = sort_key content_key (filter (\<lambda>x. x \<notin># taken g j) others))"
proof -
  let ?c = "node (grp_nodes g j)"
  have ok: "group_ok N rn g"
    using replica_group.inv_steps [OF assms(3)] group_start_ok [OF assms(1,2)] by blast
  then have m: "member_ok N rn g j" "distinct (map logged_id (grp_log g))"
    using assms(4) by (simp_all add: group_ok_def)
  have others: "others = from_others j g" using assms(5) by (simp add: from_others_def)
  have eq: "mset queue_of_j + pending rn ?c + image_mset msg_content (in_flight g j) + taken g j = mset others"
    using m(1) by (simp add: member_ok_def stored_def others assms(6))
  have "set queue_of_j \<subseteq> set others"
    using arg_cong [OF eq, of set_mset] by auto
  moreover have "taken g j \<subseteq># mset others"
    unfolding eq [symmetric] by (rule mset_subset_eq_add_right)
  moreover have "queue_of_j = sort_key content_key (filter (\<lambda>x. x \<notin># taken g j) others)"
    if quiet: "in_flight g j = {#} \<and> (\<forall>d. IncomingReplData rn d \<notin> set (tasks ?c))"
  proof -
    have all: "mset queue_of_j + taken g j = mset others" using eq quiet no_pending [of rn ?c] by simp
    have "distinct others" using distinct_others [OF m(2)] by (simp add: others)
    note left = mset_split_distinct [OF this all]
    have "rset_wf (public_queue ?c rn)"
      using m(1) by (simp add: member_ok_def replica_with_room_def)
    then have sorted: "sorted (map content_key queue_of_j)" "distinct (map content_key queue_of_j)"
      using strict_sorted_iff [of "map repl_key (public_queue ?c rn)"]
      by (simp_all add: assms(6) rset_wf_def bset_wf_def comp_def)
    let ?rest = "filter (\<lambda>x. x \<notin># taken g j) others"
    have "distinct (map content_key ?rest)"
      using sorted(2) mset_eq_imp_distinct_iff [of "map content_key queue_of_j" "map content_key ?rest"] left
      by simp
    then have sorted': "sorted (map content_key (sort_key content_key ?rest))"
      "distinct (map content_key (sort_key content_key ?rest))"
      by (simp_all add: distinct_map)
    have "inj_on content_key (set queue_of_j \<union> set (sort_key content_key ?rest))"
      using sorted(2) mset_eq_setD [OF left] by (simp add: distinct_map)
    then show ?thesis
      using map_sorted_distinct_set_unique [OF _ sorted sorted'] mset_eq_setD [OF left] by simp
  qed
  ultimately show ?thesis by blast
qed

text \<open>Two nodes; one replicates a text, the other stores it.\<close>

definition sample_group :: "bool repl_group" where
  "sample_group = \<lparr>grp_nodes = (\<lambda>_. loop_start sample_replica), in_flight = (\<lambda>_. {#}), grp_log = [],
     taken = (\<lambda>_. {#})\<rparr>"

lemma sample_group_start: "group_start 150 REPL_NETWORK_ID sample_group"
proof -
  have "tasks sample_replica = []" by (simp add: sample_replica_def set_replication_def)
  then show ?thesis
    by (simp add: group_start_def sample_group_def loop_start_def sample_replica_room pending_def)
qed

lemma repl_network_text: "gossip_text REPL_NETWORK_ID"
  by (rule gossip_text_small)
    (simp_all add: REPL_NETWORK_ID_def GOSSIP_MESSAGE_SEPARATOR_def ascii_def code_of_def)

theorem replica_group_converges_witness:
  "\<exists>g. (group_step sample_codecs REPL_NETWORK_ID)\<^sup>*\<^sup>* sample_group g
     \<and> grp_log g = [(True, 4, ''m'', [''hi''])]
     \<and> map entry_content (public_queue (node (grp_nodes g False)) REPL_NETWORK_ID) = [(4, ''m'', [''hi''])]"
proof -
  let ?rn = REPL_NETWORK_ID and ?step = "group_step sample_codecs REPL_NETWORK_ID"
  let ?m = "repl_message 100 4 ?rn [''hi'']"
  let ?ls = "loop_start sample_replica"
  let ?ls1 = "?ls\<lparr>node := fst (replicate_data silent_env [''hi''] ?rn (node ?ls))\<rparr>"
  let ?g1 = "set_node True ?ls1 sample_group"
  have nodes: "grp_nodes sample_group i = ?ls" for i by (simp add: sample_group_def)
  have s1: "?step sample_group ?g1"
    using g_replicate [of "[''hi'']" sample_codecs ?rn sample_group True silent_env] by (simp add: nodes)
  have ch: "app_channel (node ?ls1) = FromApplication (take_id sample_replica) (GossipsubBroadcastMessage ?rn ?m) # []"
    using replicate_sends(2) [of sample_replica ?rn "\<lparr>cfg_clock = 3, last_clock = 0, cfg_nodes = Map.empty\<rparr>"
        silent_env "[''hi'']"] by (simp add: loop_start_def saturating_add_def)
  let ?msg = "\<lparr>propagation_source = PeerId ''q'', gossip_id = ''m'', gossip_source = None,
      gossip_payload = join_with GOSSIP_MESSAGE_SEPARATOR ?m, gossip_topic = ?rn\<rparr>"
  let ?ls2 = "receive_request sample_codecs sample_swarm ?ls1"
  let ?g2 = "(set_node True ?ls2 (publish_from True ?msg ?g1))\<lparr>grp_log := [(True, 4, ''m'', [''hi''])]\<rparr>"
  have s2: "?step ?g1 ?g2"
    using g_publish [of ?g1 True "take_id sample_replica" ?rn 100 4 "[''hi'']" "[]" sample_codecs sample_swarm
        ?ls2 ?rn "join_with GOSSIP_MESSAGE_SEPARATOR ?m" "''m''" "PeerId ''q''" None]
      ch broadcast_served(2) [OF ch, of sample_codecs sample_swarm]
    by (simp add: sample_group_def sample_swarm_def)
  have n2: "grp_nodes ?g2 False = ?ls" by (simp add: nodes)
  have "published ?rn ?m ?msg" by (simp add: published_def)
  from repl_gossip_spawns [OF this _ repl_network_text, of sample_codecs 100 ?ls]
  obtain d where d: "handle_gossip sample_codecs 100 ?msg ?ls
      = Some (update_node (spawn (IncomingReplData ?rn d)) ?ls)"
    "rdata d = [''hi'']" "lamport_clock d = 4" "message_id d = ''m''" by auto
  let ?ls3 = "update_node (spawn (IncomingReplData ?rn d)) ?ls"
  let ?g3 = "(set_node False ?ls3 ?g2)\<lparr>in_flight := (in_flight ?g2)(False := in_flight ?g2 False - {#?msg#})\<rparr>"
  have s3: "?step ?g2 ?g3"
    by (rule g_receive [where now = 100]) (simp_all add: nodes d(1))
  have room: "replica_with_room ?rn 150 (node ?ls3)" "public_queue (node ?ls3) ?rn = []"
    using sample_replica_room(1) [of 150] sample_replica_room(2) room_frame(1) [of "node ?ls3" sample_replica ?rn 150]
    by (simp_all add: update_node_def spawn_def loop_start_def repl_cfg_def public_queue_def)
  then obtain c where c: "run_task sample_codecs silent_env (IncomingReplData ?rn d) (node ?ls3) = Some c"
    using receive_one [of ?rn 150 "node ?ls3" sample_codecs silent_env d] by auto
  let ?ls4 = "?ls3\<lparr>node := finish_task (IncomingReplData ?rn d) c\<rparr>"
  let ?g4 = "set_node False ?ls4 ?g3"
  have n3: "grp_nodes ?g3 False = ?ls3" by simp
  have task: "IncomingReplData ?rn d \<in> set (tasks (node ?ls3))" by (simp add: update_node_def spawn_def)
  have s4: "?step ?g3 ?g4"
    using g_store [of ?rn d ?g3 False sample_codecs silent_env c] task c unfolding n3 by simp
  note r1 = r_into_rtranclp [of ?step, OF s1]
  note r2 = rtranclp.rtrancl_into_rtrancl [of ?step, OF r1 s2]
  note r3 = rtranclp.rtrancl_into_rtrancl [of ?step, OF r2 s3]
  note run = rtranclp.rtrancl_into_rtrancl [of ?step, OF r3 s4]
  have log: "grp_log ?g4 = [(True, 4, ''m'', [''hi''])]" by simp
  have flight: "in_flight ?g4 False = {#}" by (simp add: sample_group_def)
  have "tasks c = tasks (node ?ls3)"
    using incoming_frame [of silent_env ?rn d "node ?ls3" c] c room(1) by (simp add: replica_with_room_def)
  then have quiet: "\<forall>d'. IncomingReplData ?rn d' \<notin> set (tasks (node (grp_nodes ?g4 False)))"
    by (simp add: finish_task_def update_node_def spawn_def loop_start_def sample_replica_def set_replication_def)
  have taken: "taken ?g4 False = {#}" by (simp add: sample_group_def)
  obtain g where g: "?step\<^sup>*\<^sup>* sample_group g" "grp_log g = [(True, 4, ''m'', [''hi''])]"
    "in_flight g False = {#}" "\<forall>d'. IncomingReplData ?rn d' \<notin> set (tasks (node (grp_nodes g False)))"
    and took: "taken g False = {#}"
    using run log flight quiet taken by blast
  have small: "length (grp_log g) \<le> 150" by (simp add: g(2))
  from replica_group_converges [OF repl_network_text sample_group_start g(1) small refl refl, of False]
  have "map entry_content (public_queue (node (grp_nodes g False)) ?rn)
      = sort_key content_key (map snd (filter (\<lambda>x. fst x \<noteq> False) (grp_log g)))"
    using g(3,4) took by simp
  also have "\<dots> = [(4, ''m'', [''hi''])]" by (simp add: g(2))
  finally have "map entry_content (public_queue (node (grp_nodes g False)) ?rn) = [(4, ''m'', [''hi''])]" .
  then show ?thesis using g(1,2) by (intro exI [of _ g] conjI)
qed

end
