(* ===== verification/Shard_Group.thy ===== *)
theory Shard_Group
  imports Repl_Group
begin

text \<open>
  A group of nodes that join and leave the shards of one sharded network, as a step relation
  over all of them: a node subscribes to the network, an application joins or leaves a shard, a
  network task serves the request and publishes the announcement, the announcement reaches a node
  that listens, whose network task changes its view and, for a newcomer, spawns the task that
  sends the newcomer this view, the task runs, its request is served, and the view arrives. All
  this happens in any order. Announcements are on their way to every node that listens when they
  are published, and to no other; a node that comes later learns of them only by the views it is
  sent. Things get lost as the code lets them: an announcement or a view on its way may never
  arrive, and the request of \<open>publish_shard_state\<close> may be refused by a full request buffer or a
  closed channel, which the code ignores. The field \<open>untold\<close> records who is not told of whom by
  this; no operation of the code reads it. A view that is sent is one whose JSON reads back.

  Once nothing is on its way any more, the view of every node that has announced itself holds
  every announced membership that was not given up and not kept from it, and nothing but memberships
  asked for.
\<close>

section \<open>The group\<close>

type_synonym memberships = "(peer_id \<times> shard_id) set"

record 'n shard_group =
  sg_nodes :: "'n \<Rightarrow> loop_state"
  gossip_to :: "'n \<Rightarrow> gossip_message multiset"
  rpc_to :: "'n \<Rightarrow> byte_vector multiset"
  listening :: "'n set"
  announced :: memberships
  tried :: memberships
  given_up :: memberships
  untold :: "(peer_id \<times> peer_id) set"

definition sg_core :: "'n shard_group \<Rightarrow> 'n \<Rightarrow> core" where
  "sg_core g i = node (sg_nodes g i)"

definition me :: "'n shard_group \<Rightarrow> 'n \<Rightarrow> peer_id" where
  "me g i = core_peer (sg_core g i)"

definition put_node :: "'n \<Rightarrow> loop_state \<Rightarrow> 'n shard_group \<Rightarrow> 'n shard_group" where
  "put_node i ls g = g\<lparr>sg_nodes := (sg_nodes g)(i := ls)\<rparr>"

definition put_core :: "'n \<Rightarrow> core \<Rightarrow> 'n shard_group \<Rightarrow> 'n shard_group" where
  "put_core i c g = put_node i ((sg_nodes g i)\<lparr>node := c\<rparr>) g"

text \<open>An accepted publication reaches whoever listens at that moment; a membership counts as
  announced if the publisher listens itself.\<close>

definition announce ::
    "codecs \<Rightarrow> 'n \<Rightarrow> byte_vector \<Rightarrow> gossip_message \<Rightarrow> 'n shard_group \<Rightarrow> 'n shard_group" where
  "announce cd i m msg g =
     g\<lparr>gossip_to := (\<lambda>j. if j \<in> listening g \<and> j \<noteq> i then add_mset msg (gossip_to g j) else gossip_to g j),
       announced := announced g \<union>
         {(me g i, s) | s. i \<in> listening g \<and> gossip_text s \<and> m = join_message cd (me g i) s}\<rparr>"

text \<open>The pairs \<open>(q, p)\<close> such that \<open>p\<close> would have learnt of \<open>q\<close> by a message that \<open>r\<close> does not get:
  by a join announcement, \<open>r\<close> of the one who joins, and this one of \<open>r\<close>, which would have sent its
  view; by a view, \<open>r\<close> of every member in it.\<close>

definition unheard :: "codecs \<Rightarrow> string \<Rightarrow> peer_id \<Rightarrow> gossip_message \<Rightarrow> (peer_id \<times> peer_id) set" where
  "unheard cd net r msg =
     (\<Union>p \<in> {p. \<exists>s. published net (join_message cd p s) msg}. {(p, r), (r, p)})"

definition unseen :: "codecs \<Rightarrow> peer_id \<Rightarrow> byte_vector \<Rightarrow> (peer_id \<times> peer_id) set" where
  "unseen cd r keys = {(q, r) | q. \<exists>v s. keys = publish_message cd v \<and> q \<in> members v s}"

definition send_rpc_to :: "peer_id \<Rightarrow> byte_vector \<Rightarrow> 'n shard_group \<Rightarrow> 'n shard_group" where
  "send_rpc_to peer keys g =
     g\<lparr>rpc_to := (\<lambda>k. if me g k = peer then add_mset keys (rpc_to g k) else rpc_to g k)\<rparr>"

inductive shard_step :: "codecs \<Rightarrow> string \<Rightarrow> 'n shard_group \<Rightarrow> 'n shard_group \<Rightarrow> bool" for cd net where
  sh_init: "InitSharding n \<in> set (tasks (sg_core g i)) \<Longrightarrow>
     run_task cd env (InitSharding n) (sg_core g i) = Some c \<Longrightarrow>
     shard_step cd net g (put_core i (finish_task (InitSharding n) c) g)"
| sh_join: "gossip_text sid \<Longrightarrow>
     shard_step cd net g ((put_core i (fst (join_network cd env sid (sg_core g i))) g)
       \<lparr>tried := insert (me g i, sid) (tried g)\<rparr>)"
| sh_exit: "gossip_text sid \<Longrightarrow>
     shard_step cd net g ((put_core i (fst (exit_network cd env shards sid (sg_core g i))) g)
       \<lparr>given_up := insert (me g i, sid) (given_up g)\<rparr>)"
| sh_subscribe: "app_channel (sg_core g i) = FromApplication rid (GossipsubJoinNetwork topic) # rest \<Longrightarrow>
     shard_step cd net g ((put_node i (receive_request cd sw (sg_nodes g i)) g)
       \<lparr>listening := (if topic = net \<and> call_ok sw (GossipSubscribe topic) then insert i (listening g)
                      else listening g)\<rparr>)"
| sh_publish: "app_channel (sg_core g i) = FromApplication rid (GossipsubBroadcastMessage net m) # rest \<Longrightarrow>
     receive_request cd sw (sg_nodes g i) = ls \<Longrightarrow>
     calls ls = calls (sg_nodes g i) @ [GossipPublish topic payload] \<Longrightarrow>
     call_ok sw (GossipPublish topic payload) \<Longrightarrow>
     shard_step cd net g (put_node i ls (announce cd i m
       \<lparr>propagation_source = origin, gossip_id = mid, gossip_source = source,
        gossip_payload = payload, gossip_topic = topic\<rparr> g))"
| sh_refused: "app_channel (sg_core g i) = FromApplication rid (GossipsubBroadcastMessage net m) # rest \<Longrightarrow>
     receive_request cd sw (sg_nodes g i) = ls \<Longrightarrow>
     calls ls = calls (sg_nodes g i) @ [GossipPublish topic payload] \<Longrightarrow>
     \<not> call_ok sw (GossipPublish topic payload) \<Longrightarrow>
     shard_step cd net g (put_node i ls g)"
| sh_receive: "msg \<in># gossip_to g j \<Longrightarrow> handle_gossip cd now msg (sg_nodes g j) = Some ls \<Longrightarrow>
     shard_step cd net g ((put_node j ls g)
       \<lparr>gossip_to := (gossip_to g)(j := gossip_to g j - {#msg#})\<rparr>)"
| sh_send_view: "PublishShardState peer \<in> set (tasks (sg_core g i)) \<Longrightarrow>
     run_task cd env (PublishShardState peer) (sg_core g i) = Some c \<Longrightarrow>
     app_channel c = app_channel (sg_core g i)
       @ [FromApplication rid (SendRpc (publish_message cd (shard_view (sg_core g i))) peer)] \<Longrightarrow>
     json_ok cd (text_image cd (shard_view (sg_core g i))) \<Longrightarrow>
     shard_step cd net g (put_core i (finish_task (PublishShardState peer) c) g)"
| sh_send_refused: "PublishShardState peer \<in> set (tasks (sg_core g i)) \<Longrightarrow>
     run_task cd env (PublishShardState peer) (sg_core g i) = Some c \<Longrightarrow>
     app_channel c = app_channel (sg_core g i) \<Longrightarrow>
     shard_step cd net g ((put_core i (finish_task (PublishShardState peer) c) g)
       \<lparr>untold := insert (me g i, peer) (untold g)\<rparr>)"
| sh_request: "app_channel (sg_core g i) = FromApplication rid (SendRpc keys peer) # rest \<Longrightarrow>
     shard_step cd net g (put_node i (receive_request cd sw (sg_nodes g i)) (send_rpc_to peer keys g))"
| sh_view: "keys \<in># rpc_to g j \<Longrightarrow> handle_rpc_request cd asker channel keys (sg_nodes g j) = Some ls \<Longrightarrow>
     shard_step cd net g ((put_node j ls g)
       \<lparr>rpc_to := (rpc_to g)(j := rpc_to g j - {#keys#})\<rparr>)"
| sh_lose_gossip: "msg \<in># gossip_to g j \<Longrightarrow>
     shard_step cd net g (g\<lparr>untold := untold g \<union> unheard cd net (me g j) msg,
       gossip_to := (gossip_to g)(j := gossip_to g j - {#msg#})\<rparr>)"
| sh_lose_view: "keys \<in># rpc_to g j \<Longrightarrow>
     shard_step cd net g (g\<lparr>untold := untold g \<union> unseen cd (me g j) keys,
       rpc_to := (rpc_to g)(j := rpc_to g j - {#keys#})\<rparr>)"

section \<open>What is on its way\<close>

definition view_in :: "shard_image \<Rightarrow> memberships \<Rightarrow> bool" where
  "view_in v A \<longleftrightarrow> (\<forall>s. \<forall>p \<in> members v s. (p, s) \<in> A)"

definition image_msg :: "codecs \<Rightarrow> memberships \<Rightarrow> byte_vector \<Rightarrow> bool" where
  "image_msg cd A keys \<longleftrightarrow>
     (\<exists>v. keys = publish_message cd v \<and> json_ok cd (text_image cd v) \<and> view_in v A)"

definition gossip_msg ::
    "codecs \<Rightarrow> string \<Rightarrow> memberships \<Rightarrow> memberships \<Rightarrow> gossip_message \<Rightarrow> bool" where
  "gossip_msg cd net A G msg \<longleftrightarrow>
     (\<exists>p s. gossip_text (peer_str cd p) \<and> gossip_text s
        \<and> (published net (join_message cd p s) msg \<and> (p, s) \<in> A
           \<or> published net (exit_message cd p s) msg \<and> (p, s) \<in> G))"

fun request_ok ::
    "codecs \<Rightarrow> string \<Rightarrow> peer_id \<Rightarrow> shard_image \<Rightarrow> memberships \<Rightarrow> memberships \<Rightarrow> app_data \<Rightarrow> bool" where
  "request_ok cd net p v A G (GossipsubJoinNetwork topic) = True"
| "request_ok cd net p v A G (GossipsubBroadcastMessage topic m) =
     (topic = net \<and> (\<exists>s. gossip_text s
        \<and> (m = join_message cd p s \<and> (p, s) \<in> A \<and> (p \<in> members v s \<or> (p, s) \<in> G)
           \<or> m = exit_message cd p s \<and> (p, s) \<in> G)))"
| "request_ok cd net p v A G (SendRpc keys peer) = image_msg cd A keys"
| "request_ok cd net p v A G _ = False"

fun item_ok ::
    "codecs \<Rightarrow> string \<Rightarrow> peer_id \<Rightarrow> shard_image \<Rightarrow> memberships \<Rightarrow> memberships \<Rightarrow> stream_data \<Rightarrow> bool" where
  "item_ok cd net p v A G (FromApplication sid req) = request_ok cd net p v A G req"
| "item_ok cd net p v A G (ToApplication sid r) = False"

section \<open>What the operations do\<close>

definition same_publishers :: "core \<Rightarrow> core \<Rightarrow> bool" where
  "same_publishers c c' \<longleftrightarrow>
     (\<forall>p. PublishShardState p \<in> set (tasks c') \<longleftrightarrow> PublishShardState p \<in> set (tasks c))"

lemma query_items:
  assumes "list_all P (app_channel c)" "\<And>sid. P (FromApplication sid req)"
  shows "list_all P (app_channel (fst (query_network env req c)))"
  using query_channel [of env req c] assms by auto

lemma query_keeps: "set (app_channel c) \<subseteq> set (app_channel (fst (query_network env req c)))"
  using query_channel [of env req c] by auto

lemma query_view [simp]:
  "shard_view (fst (query_network env req c)) = shard_view c"
  "shard_net (fst (query_network env req c)) = shard_net c"
  by (simp_all add: shard_view_def shard_net_def)

lemma update_view_frame [simp]:
  "core_peer (update_shard_view p s j c) = core_peer c" "shard_net (update_shard_view p s j c) = shard_net c"
  "tasks (update_shard_view p s j c) = tasks c" "app_channel (update_shard_view p s j c) = app_channel c"
  "shard_view (update_shard_view p s j c) = update_shard_state p s j (shard_view c)"
  by (simp_all add: update_shard_view_def set_shard_view_def shard_net_def shard_view_def)

lemma join_repl_frame:
  fixes env rn c
  defines "c' \<equiv> fst (join_repl_network env rn c)"
  shows "core_peer c' = core_peer c" "shard_view c' = shard_view c" "shard_net c' = shard_net c"
    and "same_publishers c c'" "set (app_channel c) \<subseteq> set (app_channel c')"
    and "list_all P (app_channel c) \<Longrightarrow> (\<And>sid. P (FromApplication sid (GossipsubJoinNetwork rn))) \<Longrightarrow>
           list_all P (app_channel c')"
proof -
  define c2 where "c2 = set_buffer (buffer_init rn (replica_buffer c)) (set_replication
      ((replication (network_info c))(rn \<mapsto> (case repl_cfg c rn of
           None \<Rightarrow> \<lparr>cfg_clock = 0, last_clock = 0, cfg_nodes = Map.empty\<rparr> | Some d \<Rightarrow> d))) c)"
  let ?c3 = "fst (query_network env (GossipsubJoinNetwork rn) c2)"
  have c2: "core_peer c2 = core_peer c" "shard_view c2 = shard_view c" "shard_net c2 = shard_net c"
    "tasks c2 = tasks c" "app_channel c2 = app_channel c"
    by (simp_all add: c2_def set_buffer_def set_replication_def shard_view_def shard_net_def)
  have "c' = ?c3 \<or> c' = spawn (SyncEventual rn) ?c3"
    by (auto simp: c'_def c2_def join_repl_network_def set_replication_def Let_def split: prod.split sum.split)
  then show "core_peer c' = core_peer c" "shard_view c' = shard_view c" "shard_net c' = shard_net c"
    "same_publishers c c'" "set (app_channel c) \<subseteq> set (app_channel c')"
    "list_all P (app_channel c) \<Longrightarrow> (\<And>sid. P (FromApplication sid (GossipsubJoinNetwork rn))) \<Longrightarrow>
       list_all P (app_channel c')"
    using c2 query_keeps [of c2 env "GossipsubJoinNetwork rn"] query_items [of P c2 "GossipsubJoinNetwork rn" env]
    by (auto simp: spawn_def shard_view_def shard_net_def same_publishers_def)
qed

lemma request_ok_mono:
  assumes "request_ok cd net p v A G req" "A \<subseteq> A'" "G \<subseteq> G'"
    and "\<And>s. p \<in> members v s \<Longrightarrow> p \<in> members v' s \<or> (p, s) \<in> G'"
  shows "request_ok cd net p v' A' G' req"
proof (cases req)
  case (SendRpc keys peer)
  then show ?thesis using assms(1,2) by (fastforce simp: image_msg_def view_in_def)
next
  case (GossipsubBroadcastMessage topic m)
  then show ?thesis using assms by (auto simp: subset_iff) metis+
qed (use assms(1) in simp_all)

lemma items_mono:
  assumes "list_all (item_ok cd net p v A G) xs" "A \<subseteq> A'" "G \<subseteq> G'"
    and "\<And>s. p \<in> members v s \<Longrightarrow> p \<in> members v' s \<or> (p, s) \<in> G'"
  shows "list_all (item_ok cd net p v' A' G') xs"
proof -
  have "item_ok cd net p v A G x \<Longrightarrow> item_ok cd net p v' A' G' x" for x
    using request_ok_mono [OF _ assms(2,3), of cd net p v _ v'] assms(4) by (cases x) auto
  then show ?thesis using assms(1) by (auto simp: list_all_iff)
qed

lemma join_network_effect:
  fixes cd env sid c
  defines "c' \<equiv> fst (join_network cd env sid c)"
  assumes "utf8_valid (shard_net c)" "gossip_text sid" "(core_peer c, sid) \<in> A"
    and "list_all (item_ok cd (shard_net c) (core_peer c) (shard_view c) A G) (app_channel c)"
  shows "core_peer c' = core_peer c" "shard_net c' = shard_net c" "same_publishers c c'"
    and "shard_view c' = shard_view c \<or> shard_view c' = update_shard_state (core_peer c) sid True (shard_view c)"
    and "set (app_channel c) \<subseteq> set (app_channel c')"
    and "list_all (item_ok cd (shard_net c) (core_peer c) (shard_view c') A G) (app_channel c')"
proof -
  let ?net = "shard_net c" and ?p = "core_peer c"
  let ?ok = "\<lambda>v. item_ok cd ?net ?p v A G"
  define c1 where "c1 = fst (query_network env (GossipsubJoinNetwork ?net) c)"
  define c2 where "c2 = update_shard_view ?p sid True c1"
  define c3 where "c3 = fst (join_repl_network env sid c2)"
  define c4 where "c4 = fst (query_network env (GossipsubBroadcastMessage ?net (join_message cd ?p sid)) c3)"
  have net: "from_utf8_lossy ?net = ?net" using assms(2) by (simp add: from_utf8_lossy_valid)
  have c1: "core_peer c1 = ?p" "shard_net c1 = ?net" "same_publishers c c1" "shard_view c1 = shard_view c"
    "set (app_channel c) \<subseteq> set (app_channel c1)" "list_all (?ok (shard_view c)) (app_channel c1)"
    using query_keeps [of c env "GossipsubJoinNetwork ?net"]
      query_items [OF assms(5), of "GossipsubJoinNetwork ?net" env]
    by (simp_all add: c1_def same_publishers_def)
  let ?v = "update_shard_state ?p sid True (shard_view c)"
  have grow: "q \<in> members (shard_view c) s \<Longrightarrow> q \<in> members ?v s" "?p \<in> members ?v sid" for q s
    by (auto simp: update_members)
  have c2: "core_peer c2 = ?p" "shard_net c2 = ?net" "same_publishers c c2" "shard_view c2 = ?v"
    "set (app_channel c) \<subseteq> set (app_channel c2)" "list_all (?ok ?v) (app_channel c2)"
    using c1 items_mono [OF c1(6), of A G ?v] grow by (simp_all add: c2_def same_publishers_def)
  have c3: "core_peer c3 = ?p" "shard_net c3 = ?net" "same_publishers c c3" "shard_view c3 = ?v"
    "set (app_channel c) \<subseteq> set (app_channel c3)" "list_all (?ok ?v) (app_channel c3)"
    using join_repl_frame [where env = env and rn = sid and c = c2] c2 by (auto simp: c3_def same_publishers_def)
  have c4: "core_peer c4 = ?p" "shard_net c4 = ?net" "same_publishers c c4" "shard_view c4 = ?v"
    "set (app_channel c) \<subseteq> set (app_channel c4)" "list_all (?ok ?v) (app_channel c4)"
    using query_keeps [of c3 env "GossipsubBroadcastMessage ?net (join_message cd ?p sid)"] c3 grow(2)
      query_items [of "?ok ?v" c3 "GossipsubBroadcastMessage ?net (join_message cd ?p sid)" env] assms(3,4)
    by (auto simp: c4_def same_publishers_def)
  have "c' = c \<or> c' = c1 \<or> c' = c4"
    by (simp add: c'_def join_network_def net c1_def c2_def c3_def c4_def Let_def case_prod_beta
        join_repl_frame(1) split: sum.split)
  then show "core_peer c' = core_peer c" "shard_net c' = shard_net c" "same_publishers c c'"
    "shard_view c' = shard_view c \<or> shard_view c' = update_shard_state (core_peer c) sid True (shard_view c)"
    "set (app_channel c) \<subseteq> set (app_channel c')"
    "list_all (item_ok cd (shard_net c) (core_peer c) (shard_view c') A G) (app_channel c')"
    using c1 c4 assms(5) by (auto simp: same_publishers_def)
qed

lemma exit_network_effect:
  fixes cd env shards sid c
  defines "c' \<equiv> fst (exit_network cd env shards sid c)"
  assumes "gossip_text sid" "(core_peer c, sid) \<in> G"
    and "list_all (item_ok cd (shard_net c) (core_peer c) (shard_view c) A G) (app_channel c)"
  shows "core_peer c' = core_peer c" "shard_net c' = shard_net c" "same_publishers c c'"
    and "shard_view c' = update_shard_state (core_peer c) sid False (shard_view c)"
    and "set (app_channel c) \<subseteq> set (app_channel c')"
    and "list_all (item_ok cd (shard_net c) (core_peer c) (shard_view c') A G) (app_channel c')"
proof -
  let ?net = "shard_net c" and ?p = "core_peer c" and ?v = "update_shard_state (core_peer c) sid False (shard_view c)"
  let ?ok = "item_ok cd ?net ?p ?v A G"
  define c1 where "c1 = update_shard_view ?p sid False c"
  define c2 where "c2 = fst (query_network env (GossipsubBroadcastMessage ?net (exit_message cd ?p sid)) c1)"
  define c3 where "c3 = fst (query_network env (GossipsubJoinNetwork ?net) c2)"
  have "?p \<in> members (shard_view c) s \<Longrightarrow> ?p \<in> members ?v s \<or> (?p, s) \<in> G" for s
    using assms(3) by (auto simp: update_members)
  from items_mono [OF assms(4), of A G ?v, OF _ _ this]
  have c1: "core_peer c1 = ?p" "shard_net c1 = ?net" "same_publishers c c1" "shard_view c1 = ?v"
    "set (app_channel c) \<subseteq> set (app_channel c1)" "list_all ?ok (app_channel c1)"
    by (simp_all add: c1_def same_publishers_def)
  have c2: "core_peer c2 = ?p" "shard_net c2 = ?net" "same_publishers c c2" "shard_view c2 = ?v"
    "set (app_channel c) \<subseteq> set (app_channel c2)" "list_all ?ok (app_channel c2)"
    using query_keeps [of c1 env "GossipsubBroadcastMessage ?net (exit_message cd ?p sid)"] c1
      query_items [of ?ok c1 "GossipsubBroadcastMessage ?net (exit_message cd ?p sid)" env] assms(2,3)
    by (auto simp: c2_def same_publishers_def)
  have c3: "core_peer c3 = ?p" "shard_net c3 = ?net" "same_publishers c c3" "shard_view c3 = ?v"
    "set (app_channel c) \<subseteq> set (app_channel c3)" "list_all ?ok (app_channel c3)"
    using query_keeps [of c2 env "GossipsubJoinNetwork ?net"] c2
      query_items [of ?ok c2 "GossipsubJoinNetwork ?net" env]
    by (auto simp: c3_def same_publishers_def)
  have "c' = c2 \<or> c' = c3"
    by (simp add: c'_def exit_network_def c1_def c2_def c3_def Let_def case_prod_beta split: sum.split)
  then show "core_peer c' = core_peer c" "shard_net c' = shard_net c" "same_publishers c c'" "shard_view c' = ?v"
    "set (app_channel c) \<subseteq> set (app_channel c')"
    "list_all (item_ok cd (shard_net c) (core_peer c) (shard_view c') A G) (app_channel c')"
    using c2 c3 by auto
qed

lemma publish_state_effect:
  assumes "run_task cd env (PublishShardState peer) c = Some c'"
  shows "core_peer c' = core_peer c" "shard_net c' = shard_net c" "shard_view c' = shard_view c" "tasks c' = tasks c"
  using assms by (auto simp: publish_shard_state_def)

lemma init_effect:
  assumes "run_task cd env (InitSharding n) c = Some c'"
  shows "core_peer c' = core_peer c" "shard_net c' = shard_net c" "shard_view c' = shard_view c"
    and "tasks c' = tasks c" "set (app_channel c) \<subseteq> set (app_channel c')"
    and "list_all (item_ok cd net p v A G) (app_channel c) \<Longrightarrow> list_all (item_ok cd net p v A G) (app_channel c')"
  using assms query_keeps [of c env "GossipsubJoinNetwork n"]
    query_items [of "item_ok cd net p v A G" c "GossipsubJoinNetwork n" env]
  by (auto simp: init_sharding_def)

lemma finish_frame [simp]:
  "core_peer (finish_task t c) = core_peer c" "shard_net (finish_task t c) = shard_net c"
  "shard_view (finish_task t c) = shard_view c" "app_channel (finish_task t c) = app_channel c"
  by (simp_all add: finish_task_def shard_net_def shard_view_def)

lemma finish_publisher:
  "PublishShardState p \<in> set (tasks c) \<Longrightarrow> t \<noteq> PublishShardState p \<Longrightarrow>
     PublishShardState p \<in> set (tasks (finish_task t c))"
  by (simp add: finish_task_def)

section \<open>What is served\<close>

lemma join_served:
  assumes "app_channel (node ls) = FromApplication rid (GossipsubJoinNetwork topic) # rest"
  shows "node (receive_request cd sw ls) = (node ls)\<lparr>app_channel := rest\<rparr>"
  by (simp add: receive_request_def assms update_node_def handle_join_def Let_def make_call_def respond_def)

lemma rpc_served:
  assumes "app_channel (node ls) = FromApplication rid (SendRpc keys peer) # rest"
  shows "node (receive_request cd sw ls) = (node ls)\<lparr>app_channel := rest\<rparr>"
  by (simp add: receive_request_def assms update_node_def handle_send_rpc_def Let_def make_call_def)

lemma shard_texts [simp]: "gossip_text SHARD_GOSSIP_EXIT_FLAG"
  by (rule gossip_text_small)
    (simp_all add: flag_defs GOSSIP_MESSAGE_SEPARATOR_def ascii_def code_of_def)

lemma announcement_fields:
  assumes "gossip_text (peer_str cd p)" "gossip_text s"
  shows "published t (join_message cd p s) msg \<Longrightarrow> gossip_fields (gossip_payload msg) = join_message cd p s"
    and "published t (exit_message cd p s) msg \<Longrightarrow> gossip_fields (gossip_payload msg) = exit_message cd p s"
  using assms by (auto simp: join_message_def exit_message_def intro!: published_fields)

lemma join_received:
  assumes "peer_text_ok cd" "published t (join_message cd p s) msg"
    and "gossip_text (peer_str cd p)" "gossip_text s"
  shows "handle_gossip cd now msg ls = Some (update_node (update_shard_view p s True)
     (update_node (spawn (PublishShardState p)) ls))"
proof -
  have "SHARD_GOSSIP_JOIN_FLAG \<noteq> REPL_GOSSIP_FLAG" "SHARD_GOSSIP_JOIN_FLAG \<noteq> STRONG_CONSISTENCY_FLAG"
    "SHARD_GOSSIP_JOIN_FLAG \<noteq> EVENTUAL_CONSISTENCY_FLAG" using flags_distinct(1) by auto
  then show ?thesis
    using assms(1) announcement_fields(1) [OF assms(3,4,2)]
    by (simp add: handle_gossip_def Let_def index_def join_message_def handle_shard_join_def peer_text_ok_def)
qed

lemma exit_received:
  assumes "peer_text_ok cd" "published t (exit_message cd p s) msg"
    and "gossip_text (peer_str cd p)" "gossip_text s"
  shows "handle_gossip cd now msg ls = Some (update_node (update_shard_view p s False) ls)"
proof -
  have "SHARD_GOSSIP_EXIT_FLAG \<noteq> REPL_GOSSIP_FLAG" "SHARD_GOSSIP_EXIT_FLAG \<noteq> STRONG_CONSISTENCY_FLAG"
    "SHARD_GOSSIP_EXIT_FLAG \<noteq> EVENTUAL_CONSISTENCY_FLAG" "SHARD_GOSSIP_EXIT_FLAG \<noteq> SHARD_GOSSIP_JOIN_FLAG"
    using flags_distinct(1) by auto
  then show ?thesis
    using assms(1) announcement_fields(2) [OF assms(3,4,2)]
    by (simp add: handle_gossip_def Let_def index_def exit_message_def handle_shard_exit_def peer_text_ok_def)
qed

lemma view_received:
  assumes "peer_text_ok cd" "json_ok cd (text_image cd v)"
    and "handle_rpc_request cd asker channel (publish_message cd v) ls = Some ls'"
  shows "node ls' = set_shard_view (merged (shard_view (node ls)) v) (node ls)"
proof -
  obtain b where b: "shard_image_to_bytes cd v = Some b" "bytes_to_shard_image cd b = v"
    using bytes_image_roundtrip [OF assms(1,2)] by blast
  then show ?thesis
    using assms(3) by (auto simp: handle_rpc_request_def publish_message_def index_def rpc_flags_ascii
        rpc_flags_differ serve_shard_sync_def send_response_def make_call_def update_node_def)
qed

lemma set_view_frame [simp]:
  "core_peer (set_shard_view v c) = core_peer c" "shard_net (set_shard_view v c) = shard_net c"
  "tasks (set_shard_view v c) = tasks c" "app_channel (set_shard_view v c) = app_channel c"
  "shard_view (set_shard_view v c) = v"
  by (simp_all add: set_shard_view_def shard_net_def shard_view_def)

section \<open>The invariant\<close>

definition shard_member :: "codecs \<Rightarrow> string \<Rightarrow> 'n shard_group \<Rightarrow> 'n \<Rightarrow> bool" where
  "shard_member cd net g i \<longleftrightarrow> shard_net (sg_core g i) = net \<and> gossip_text (peer_str cd (me g i))
     \<and> list_all (item_ok cd net (me g i) (shard_view (sg_core g i)) (tried g) (given_up g)) (app_channel (sg_core g i))
     \<and> view_in (shard_view (sg_core g i)) (tried g)
     \<and> (\<forall>s. (me g i, s) \<in> announced g \<longrightarrow> i \<in> listening g
          \<and> (me g i \<in> members (shard_view (sg_core g i)) s \<or> (me g i, s) \<in> given_up g))
     \<and> (\<forall>msg \<in># gossip_to g i. gossip_msg cd net (tried g) (given_up g) msg)
     \<and> (\<forall>keys \<in># rpc_to g i. image_msg cd (tried g) keys)"

text \<open>How node \<open>j\<close> comes to know that \<open>i\<close> is in shard \<open>s\<close>: its view has it, or it will hear it
  from \<open>i\<close>, or \<open>i\<close> will hear of \<open>j\<close>, or is about to send it its view, or this is under way; or the message that would have told it
  was lost.\<close>

definition queued_view :: "codecs \<Rightarrow> core \<Rightarrow> peer_id \<Rightarrow> peer_id \<Rightarrow> shard_id \<Rightarrow> bool" where
  "queued_view cd c to q s \<longleftrightarrow>
     (\<exists>rid v. FromApplication rid (SendRpc (publish_message cd v) to) \<in> set (app_channel c)
        \<and> json_ok cd (text_image cd v) \<and> q \<in> members v s)"

definition sent_view :: "codecs \<Rightarrow> 'n shard_group \<Rightarrow> 'n \<Rightarrow> peer_id \<Rightarrow> shard_id \<Rightarrow> bool" where
  "sent_view cd g j q s \<longleftrightarrow>
     (\<exists>v. publish_message cd v \<in># rpc_to g j \<and> json_ok cd (text_image cd v) \<and> q \<in> members v s)"

definition hears :: "codecs \<Rightarrow> string \<Rightarrow> 'n shard_group \<Rightarrow> 'n \<Rightarrow> peer_id \<Rightarrow> shard_id \<Rightarrow> bool" where
  "hears cd net g j q s \<longleftrightarrow>
     gossip_text s \<and> (\<exists>msg \<in># gossip_to g j. published net (join_message cd q s) msg)"

definition knows :: "codecs \<Rightarrow> string \<Rightarrow> 'n shard_group \<Rightarrow> 'n \<Rightarrow> shard_id \<Rightarrow> 'n \<Rightarrow> bool" where
  "knows cd net g i s j \<longleftrightarrow> me g i \<in> members (shard_view (sg_core g j)) s
     \<or> hears cd net g j (me g i) s \<or> (\<exists>s'. hears cd net g i (me g j) s')
     \<or> PublishShardState (me g j) \<in> set (tasks (sg_core g i))
     \<or> queued_view cd (sg_core g i) (me g j) (me g i) s \<or> sent_view cd g j (me g i) s
     \<or> (me g i, me g j) \<in> untold g"

definition shard_group_ok :: "codecs \<Rightarrow> string \<Rightarrow> 'n shard_group \<Rightarrow> bool" where
  "shard_group_ok cd net g \<longleftrightarrow> peer_text_ok cd \<and> utf8_valid net \<and> inj (me g)
     \<and> (\<forall>i. shard_member cd net g i)
     \<and> (\<forall>i j s s'. (me g i, s) \<in> announced g - given_up g \<longrightarrow> (me g j, s') \<in> announced g \<longrightarrow>
          knows cd net g i s j)"

lemma view_in_mono: "view_in v A \<Longrightarrow> A \<subseteq> A' \<Longrightarrow> view_in v A'"
  by (auto simp: view_in_def)

lemma msg_mono:
  "image_msg cd A keys \<Longrightarrow> A \<subseteq> A' \<Longrightarrow> image_msg cd A' keys"
  "gossip_msg cd net A G msg \<Longrightarrow> A \<subseteq> A' \<Longrightarrow> G \<subseteq> G' \<Longrightarrow> gossip_msg cd net A' G' msg"
  unfolding image_msg_def gossip_msg_def using view_in_mono by blast+

text \<open>What is enough when one node changes.\<close>

definition still_sends :: "codecs \<Rightarrow> 'n shard_group \<Rightarrow> core \<Rightarrow> core \<Rightarrow> bool" where
  "still_sends cd g c c' \<longleftrightarrow>
     (\<forall>p. PublishShardState p \<in> set (tasks c) \<longrightarrow> PublishShardState p \<in> set (tasks c')
        \<or> (\<forall>s q. q \<in> members (shard_view c) s \<longrightarrow> queued_view cd c' p q s)
        \<or> (core_peer c, p) \<in> untold g)
     \<and> (\<forall>rid keys p. FromApplication rid (SendRpc keys p) \<in> set (app_channel c) \<longrightarrow>
          FromApplication rid (SendRpc keys p) \<in> set (app_channel c') \<or> (\<forall>k. me g k = p \<longrightarrow> keys \<in># rpc_to g k))"

definition changes_to :: "codecs \<Rightarrow> string \<Rightarrow> 'n shard_group \<Rightarrow> 'n \<Rightarrow> 'n shard_group \<Rightarrow> bool" where
  "changes_to cd net g i g' \<longleftrightarrow> (\<forall>k. k \<noteq> i \<longrightarrow> sg_core g' k = sg_core g k)
     \<and> gossip_to g' = gossip_to g \<and> rpc_to g' = rpc_to g \<and> announced g' = announced g
     \<and> listening g \<subseteq> listening g' \<and> tried g \<subseteq> tried g' \<and> given_up g \<subseteq> given_up g' \<and> untold g \<subseteq> untold g'
     \<and> me g' i = me g i \<and> shard_net (sg_core g' i) = shard_net (sg_core g i)
     \<and> list_all (item_ok cd net (me g i) (shard_view (sg_core g' i)) (tried g') (given_up g')) (app_channel (sg_core g' i))
     \<and> view_in (shard_view (sg_core g' i)) (tried g')
     \<and> (\<forall>p s. p \<in> members (shard_view (sg_core g i)) s \<longrightarrow>
          p \<in> members (shard_view (sg_core g' i)) s \<or> (p, s) \<in> given_up g')
     \<and> still_sends cd g (sg_core g i) (sg_core g' i)"

lemma changes_me: "changes_to cd net g i g' \<Longrightarrow> me g' = me g"
  by (rule ext) (metis (no_types) changes_to_def me_def)

lemma changes_member:
  assumes "changes_to cd net g i g'" "shard_member cd net g k"
  shows "shard_member cd net g' k"
proof -
  have inc: "tried g \<subseteq> tried g'" "given_up g \<subseteq> given_up g'" "listening g \<subseteq> listening g'"
    "announced g' = announced g" "gossip_to g' = gossip_to g" "rpc_to g' = rpc_to g"
    using assms(1) by (simp_all add: changes_to_def)
  have mem: "me g' = me g" by (rule changes_me [OF assms(1)])
  show ?thesis
  proof (cases "k = i")
    case True
    then show ?thesis
      using assms inc mem msg_mono
      unfolding shard_member_def changes_to_def by (auto; blast)
  next
    case False
    then have same: "sg_core g' k = sg_core g k" using assms(1) by (simp add: changes_to_def)
    have "list_all (item_ok cd net (me g k) (shard_view (sg_core g k)) (tried g') (given_up g')) (app_channel (sg_core g k))"
      using assms(2) items_mono [OF _ inc(1,2)] unfolding shard_member_def by blast
    then show ?thesis
      using assms(2) inc same mem msg_mono view_in_mono
      unfolding shard_member_def by (auto; blast)
  qed
qed

lemma changes_knows:
  assumes "changes_to cd net g i g'" "shard_group_ok cd net g"
    and "(me g a, s) \<in> announced g - given_up g'" "(me g b, s') \<in> announced g"
  shows "knows cd net g' a s b"
proof -
  have ch: "\<And>k. k \<noteq> i \<Longrightarrow> sg_core g' k = sg_core g k" "gossip_to g' = gossip_to g" "rpc_to g' = rpc_to g"
    "given_up g \<subseteq> given_up g'" "untold g \<subseteq> untold g'" "still_sends cd g (sg_core g i) (sg_core g' i)"
    and view: "\<And>p s. p \<in> members (shard_view (sg_core g i)) s \<Longrightarrow>
          p \<in> members (shard_view (sg_core g' i)) s \<or> (p, s) \<in> given_up g'"
    using assms(1) by (auto simp: changes_to_def)
  have mem: "me g' = me g" by (rule changes_me [OF assms(1)])
  have hears: "hears cd net g' k q t = hears cd net g k q t" for k q t using ch(2) by (simp add: hears_def)
  have sent: "sent_view cd g' k q t = sent_view cd g k q t" for k q t using ch(3) by (simp add: sent_view_def)
  have "knows cd net g a s b" using assms(2-4) ch(4) unfolding shard_group_ok_def by blast
  then consider "me g a \<in> members (shard_view (sg_core g b)) s" | "hears cd net g b (me g a) s"
    | s'' where "hears cd net g a (me g b) s''" | "PublishShardState (me g b) \<in> set (tasks (sg_core g a))"
    | "queued_view cd (sg_core g a) (me g b) (me g a) s" | "sent_view cd g b (me g a) s"
    | "(me g a, me g b) \<in> untold g"
    unfolding knows_def by blast
  then show ?thesis
  proof cases
    case 1
    then have "me g a \<in> members (shard_view (sg_core g' b)) s" using ch(1) view assms(3) by (cases "b = i") auto
    then show ?thesis by (simp add: knows_def mem)
  next
    case 4
    have "shard_member cd net g a" using assms(2) by (simp add: shard_group_ok_def)
    then have own: "me g a \<in> members (shard_view (sg_core g a)) s"
      using assms(3) ch(4) unfolding shard_member_def by blast
    then have "PublishShardState (me g b) \<in> set (tasks (sg_core g' a)) \<or> queued_view cd (sg_core g' a) (me g b) (me g a) s
        \<or> (me g a, me g b) \<in> untold g'"
      using 4 ch(1,5,6) by (cases "a = i") (auto simp: still_sends_def me_def)
    then show ?thesis by (auto simp: knows_def mem)
  next
    case 5
    then obtain rid v where v: "FromApplication rid (SendRpc (publish_message cd v) (me g b)) \<in> set (app_channel (sg_core g a))"
      "json_ok cd (text_image cd v)" "me g a \<in> members v s" by (auto simp: queued_view_def)
    then have "FromApplication rid (SendRpc (publish_message cd v) (me g b)) \<in> set (app_channel (sg_core g' a))
        \<or> publish_message cd v \<in># rpc_to g b"
    proof (cases "a = i")
      case True
      with v(1) ch(6) show ?thesis unfolding still_sends_def by blast
    next
      case False
      with v(1) ch(1) show ?thesis by simp
    qed
    then have "queued_view cd (sg_core g' a) (me g b) (me g a) s \<or> sent_view cd g b (me g a) s"
      using v(2,3) by (auto simp: queued_view_def sent_view_def)
    then show ?thesis using sent by (auto simp: knows_def mem)
  next
    case 2
    then show ?thesis by (simp add: knows_def mem hears)
  next
    case 3
    then have "\<exists>t. hears cd net g a (me g b) t" by blast
    then show ?thesis by (simp add: knows_def mem hears)
  next
    case 6
    then show ?thesis by (simp add: knows_def mem sent)
  next
    case 7
    then show ?thesis using ch(5) by (auto simp: knows_def mem)
  qed
qed

lemma changes_ok:
  assumes "changes_to cd net g i g'" "shard_group_ok cd net g"
  shows "shard_group_ok cd net g'"
  unfolding shard_group_ok_def
proof (intro conjI allI impI)
  have ann: "announced g' = announced g" and le: "given_up g \<subseteq> given_up g'"
    using assms(1) by (simp_all add: changes_to_def)
  have mem: "me g' = me g" by (rule changes_me [OF assms(1)])
  show "peer_text_ok cd" "utf8_valid net" "inj (me g')"
    using assms(2) by (simp_all add: shard_group_ok_def mem)
  show "shard_member cd net g' k" for k
    using assms(2) changes_member [OF assms(1)] by (simp add: shard_group_ok_def)
  show "knows cd net g' a s b" if "(me g' a, s) \<in> announced g' - given_up g'" "(me g' b, s') \<in> announced g'" for a b s s'
    using changes_knows [OF assms] that unfolding mem ann by blast
qed

text \<open>Published: the message goes to the listeners.\<close>

lemma announcements_differ [simp]:
  "exit_message cd p s \<noteq> join_message cd q t" "join_message cd q t \<noteq> exit_message cd p s"
  "join_message cd p s = join_message cd p t \<longleftrightarrow> s = t"
  using flags_distinct(1) by (auto simp: exit_message_def join_message_def)

lemma announce_simps [simp]:
  "sg_nodes (announce cd i m msg g) = sg_nodes g" "rpc_to (announce cd i m msg g) = rpc_to g"
  "listening (announce cd i m msg g) = listening g" "tried (announce cd i m msg g) = tried g"
  "given_up (announce cd i m msg g) = given_up g" "untold (announce cd i m msg g) = untold g"
  "sg_core (announce cd i m msg g) k = sg_core g k" "me (announce cd i m msg g) k = me g k"
  by (simp_all add: announce_def sg_core_def me_def)

lemma announced_listens:
  assumes "shard_group_ok cd net g" "(me g k, t) \<in> announced g"
  shows "k \<in> listening g" "me g k \<in> members (shard_view (sg_core g k)) t \<or> (me g k, t) \<in> given_up g"
  using assms by (simp_all add: shard_group_ok_def shard_member_def)

lemma announce_ok:
  assumes ok: "shard_group_ok cd net g"
    and req: "request_ok cd net (me g i) (shard_view (sg_core g i)) (tried g) (given_up g) (GossipsubBroadcastMessage net m)"
    and msg: "published net m msg"
  shows "shard_group_ok cd net (announce cd i m msg g)"
proof -
  let ?g = "announce cd i m msg g"
  have i: "shard_member cd net g i" using ok by (simp add: shard_group_ok_def)
  then have "gossip_text (peer_str cd (me g i))" by (simp add: shard_member_def)
  then have carried: "gossip_msg cd net (tried g) (given_up g) msg"
    using req msg unfolding gossip_msg_def by auto
  have to: "set_mset (gossip_to g k) \<subseteq> set_mset (gossip_to ?g k)"
    "msg' \<in># gossip_to ?g k \<Longrightarrow> msg' = msg \<or> msg' \<in># gossip_to g k" for k msg'
    by (auto simp: announce_def split: if_splits)
  have "hears cd net g k q t \<Longrightarrow> hears cd net ?g k q t" for k q t
    using to(1) by (auto simp: hears_def)
  then have old: "knows cd net g a s b \<Longrightarrow> knows cd net ?g a s b" for a s b
    unfolding knows_def sent_view_def announce_simps by blast
  have ann: "(p, s) \<in> announced ?g \<longleftrightarrow> (p, s) \<in> announced g
      \<or> p = me g i \<and> i \<in> listening g \<and> gossip_text s \<and> m = join_message cd (me g i) s" for p s
    by (auto simp: announce_def)
  have inj: "me g a = me g b \<longleftrightarrow> a = b" for a b using ok by (simp add: shard_group_ok_def inj_eq)
  have new: "me g i \<in> members (shard_view (sg_core g i)) s \<or> (me g i, s) \<in> given_up g"
    if "gossip_text s" "m = join_message cd (me g i) s" for s
    using that req by auto
  have "shard_member cd net ?g k" for k
  proof -
    have k: "shard_member cd net g k" using ok by (simp add: shard_group_ok_def)
    have "\<forall>x \<in># gossip_to ?g k. gossip_msg cd net (tried g) (given_up g) x"
      using k carried to(2) unfolding shard_member_def by blast
    moreover have "k \<in> listening g \<and> (me g k \<in> members (shard_view (sg_core g k)) s \<or> (me g k, s) \<in> given_up g)"
      if "(me g k, s) \<in> announced ?g" for s
    proof (cases "(me g k, s) \<in> announced g")
      case True
      then show ?thesis using k by (simp add: shard_member_def)
    next
      case False
      with that have "k = i \<and> i \<in> listening g \<and> gossip_text s \<and> m = join_message cd (me g i) s"
        unfolding ann inj by blast
      then show ?thesis using new by blast
    qed
    ultimately show ?thesis using k by (simp add: shard_member_def)
  qed
  moreover have "knows cd net ?g a s b"
    if th: "(me g a, s) \<in> announced ?g" "(me g a, s) \<notin> given_up g" "(me g b, s') \<in> announced ?g" for a s b s'
  proof (cases "(me g a, s) \<in> announced g \<and> (\<exists>t. (me g b, t) \<in> announced g)")
    case True
    then have "knows cd net g a s b" using ok th(2) unfolding shard_group_ok_def by blast
    then show ?thesis by (rule old)
  next
    case False
    then consider "a = i" "i \<in> listening g" "gossip_text s" "m = join_message cd (me g i) s"
      | "b = i" "i \<in> listening g" "gossip_text s'" "m = join_message cd (me g i) s'" "(me g a, s) \<in> announced g"
      using th(1,3) False unfolding ann inj by metis
    then show ?thesis
    proof cases
      case 1
      have "b \<in> listening g"
        using th(3) announced_listens(1) [OF ok, of b s'] 1(2) unfolding ann inj by blast
      then show ?thesis
      proof (cases "b = i")
        case True
        then show ?thesis using new [OF 1(3,4)] th(2) 1(1) by (simp add: knows_def)
      next
        case False
        with \<open>b \<in> listening g\<close> have "msg \<in># gossip_to ?g b" by (simp add: announce_def)
        then have "hears cd net ?g b (me g a) s" using msg 1 unfolding hears_def by auto
        then show ?thesis by (simp add: knows_def)
      qed
    next
      case 2
      have a: "a \<in> listening g" "me g a \<in> members (shard_view (sg_core g a)) s"
        using announced_listens [OF ok 2(5)] th(2) by simp_all
      show ?thesis
      proof (cases "a = i")
        case True
        then show ?thesis using a 2(1) by (simp add: knows_def)
      next
        case False
        with a(1) have "msg \<in># gossip_to ?g a" by (simp add: announce_def)
        then have "hears cd net ?g a (me g b) s'" using msg 2 unfolding hears_def by auto
        then have "\<exists>t. hears cd net ?g a (me g b) t" by blast
        then show ?thesis by (simp add: knows_def)
      qed
    qed
  qed
  ultimately show ?thesis
    using ok unfolding shard_group_ok_def announce_simps
    by (auto simp: inj_def)
qed

text \<open>Sent: the message goes to the peer it is for.\<close>

lemma send_simps [simp]:
  "sg_nodes (send_rpc_to peer keys g) = sg_nodes g" "gossip_to (send_rpc_to peer keys g) = gossip_to g"
  "listening (send_rpc_to peer keys g) = listening g" "announced (send_rpc_to peer keys g) = announced g"
  "tried (send_rpc_to peer keys g) = tried g" "given_up (send_rpc_to peer keys g) = given_up g"
  "untold (send_rpc_to peer keys g) = untold g"
  "sg_core (send_rpc_to peer keys g) k = sg_core g k" "me (send_rpc_to peer keys g) k = me g k"
  by (simp_all add: send_rpc_to_def sg_core_def me_def)

lemma sent_arrives: "me g k = peer \<Longrightarrow> keys \<in># rpc_to (send_rpc_to peer keys g) k"
  by (simp add: send_rpc_to_def)

lemma send_ok:
  assumes ok: "shard_group_ok cd net g" and msg: "image_msg cd (tried g) keys"
  shows "shard_group_ok cd net (send_rpc_to peer keys g)"
proof -
  let ?g = "send_rpc_to peer keys g"
  have to: "set_mset (rpc_to g k) \<subseteq> set_mset (rpc_to ?g k)"
    "x \<in># rpc_to ?g k \<Longrightarrow> x = keys \<or> x \<in># rpc_to g k" for k x
    by (auto simp: send_rpc_to_def split: if_splits)
  have "sent_view cd g k q t \<Longrightarrow> sent_view cd ?g k q t" for k q t
    using to(1) by (auto simp: sent_view_def)
  then have "knows cd net g a s b \<Longrightarrow> knows cd net ?g a s b" for a s b
    unfolding knows_def hears_def send_simps by blast
  moreover have "shard_member cd net g k \<Longrightarrow> shard_member cd net ?g k" for k
    using msg to(2) [of _ k] unfolding shard_member_def send_simps by blast
  ultimately show ?thesis
    using ok unfolding shard_group_ok_def send_simps by (auto simp: inj_def)
qed

text \<open>Received or lost: a message may go once its effect is there, or is among what is untold.\<close>

lemma missed_ok:
  assumes "shard_group_ok cd net g" "untold g \<subseteq> M"
  shows "shard_group_ok cd net (g\<lparr>untold := M\<rparr>)" (is "shard_group_ok cd net ?g")
proof -
  have core: "sg_core ?g k = sg_core g k" "me ?g k = me g k" for k by (simp_all add: sg_core_def me_def)
  have "knows cd net g a s b \<Longrightarrow> knows cd net ?g a s b" for a s b
    using assms(2) by (auto simp: knows_def core hears_def sent_view_def)
  moreover have "shard_member cd net g k \<Longrightarrow> shard_member cd net ?g k" for k
    by (simp add: shard_member_def core)
  ultimately show ?thesis using assms(1) by (auto simp: shard_group_ok_def inj_def core)
qed

lemma drop_gossip_ok:
  assumes ok: "shard_group_ok cd net g"
    and effect: "\<And>p s. published net (join_message cd p s) msg \<Longrightarrow> gossip_text (peer_str cd p) \<Longrightarrow> gossip_text s \<Longrightarrow>
       (p \<in> members (shard_view (sg_core g j)) s \<or> (p, me g j) \<in> untold g)
       \<and> (PublishShardState p \<in> set (tasks (sg_core g j)) \<or> (me g j, p) \<in> untold g)"
  shows "shard_group_ok cd net (g\<lparr>gossip_to := (gossip_to g)(j := gossip_to g j - {#msg#})\<rparr>)"
    (is "shard_group_ok cd net ?g")
proof -
  have core: "sg_core ?g k = sg_core g k" "me ?g k = me g k" for k by (simp_all add: sg_core_def me_def)
  have texts: "gossip_text (peer_str cd (me g k))" for k using ok by (simp add: shard_group_ok_def shard_member_def)
  have hears: "hears cd net ?g k q t \<or> k = j \<and> gossip_text t \<and> published net (join_message cd q t) msg"
    if h: "hears cd net g k q t" for k q t
  proof -
    obtain x where x: "gossip_text t" "x \<in># gossip_to g k" "published net (join_message cd q t) x"
      using h by (auto simp: hears_def)
    show ?thesis
    proof (cases "k = j \<and> x = msg")
      case False
      then have "x \<in># gossip_to ?g k" using x(2) by (auto simp: in_diff_count)
      with x show ?thesis by (auto simp: hears_def)
    qed (use x in auto)
  qed
  have "knows cd net ?g a s b" if k: "knows cd net g a s b" for a s b
  proof -
    consider "hears cd net g b (me g a) s" | t where "hears cd net g a (me g b) t"
      | "knows cd net ?g a s b"
      using k by (auto simp: knows_def core sent_view_def)
    then show ?thesis
    proof cases
      case 1
      from hears [OF this] effect texts show ?thesis by (auto simp: knows_def core)
    next
      case 2
      from hears [OF this] effect texts show ?thesis by (auto simp: knows_def core)
    qed
  qed
  moreover have "shard_member cd net ?g k" if "shard_member cd net g k" for k
    using that by (auto simp: shard_member_def core dest: in_diffD)
  ultimately show ?thesis using ok by (auto simp: shard_group_ok_def inj_def core)
qed

lemma drop_rpc_ok:
  assumes ok: "shard_group_ok cd net g"
    and effect: "\<And>v s p. keys = publish_message cd v \<Longrightarrow> json_ok cd (text_image cd v) \<Longrightarrow> p \<in> members v s \<Longrightarrow>
       p \<in> members (shard_view (sg_core g j)) s \<or> (p, me g j) \<in> untold g"
  shows "shard_group_ok cd net (g\<lparr>rpc_to := (rpc_to g)(j := rpc_to g j - {#keys#})\<rparr>)"
    (is "shard_group_ok cd net ?g")
proof -
  have core: "sg_core ?g k = sg_core g k" "me ?g k = me g k" for k by (simp_all add: sg_core_def me_def)
  have sent: "sent_view cd ?g k q t \<or> k = j \<and> (q \<in> members (shard_view (sg_core g j)) t \<or> (q, me g j) \<in> untold g)"
    if h: "sent_view cd g k q t" for k q t
  proof -
    obtain v where v: "publish_message cd v \<in># rpc_to g k" "json_ok cd (text_image cd v)" "q \<in> members v t"
      using h by (auto simp: sent_view_def)
    show ?thesis
    proof (cases "k = j \<and> publish_message cd v = keys")
      case False
      then have "publish_message cd v \<in># rpc_to ?g k" using v(1) by (auto simp: in_diff_count)
      with v show ?thesis by (auto simp: sent_view_def)
    qed (use v effect in auto)
  qed
  have "knows cd net ?g a s b" if k: "knows cd net g a s b" for a s b
  proof -
    consider "sent_view cd g b (me g a) s" | "knows cd net ?g a s b"
      using k by (auto simp: knows_def core hears_def)
    then show ?thesis using sent by cases (auto simp: knows_def core)
  qed
  moreover have "shard_member cd net ?g k" if "shard_member cd net g k" for k
    using that by (auto simp: shard_member_def core dest: in_diffD)
  ultimately show ?thesis using ok by (auto simp: shard_group_ok_def inj_def core)
qed

section \<open>Every step keeps it\<close>

lemma node_changes:
  assumes ok: "shard_group_ok cd net g" and nodes: "sg_nodes g' = (sg_nodes g)(i := ls)"
    and frame: "gossip_to g' = gossip_to g" "rpc_to g' = rpc_to g" "announced g' = announced g"
      "listening g \<subseteq> listening g'" "tried g \<subseteq> tried g'" "given_up g \<subseteq> given_up g'" "untold g \<subseteq> untold g'"
    and core: "core_peer (node ls) = me g i" "shard_net (node ls) = net"
      "list_all (item_ok cd net (me g i) (shard_view (node ls)) (tried g') (given_up g')) (app_channel (node ls))"
      "view_in (shard_view (node ls)) (tried g')"
      "\<And>p s. p \<in> members (shard_view (sg_core g i)) s \<Longrightarrow> p \<in> members (shard_view (node ls)) s \<or> (p, s) \<in> given_up g'"
      "still_sends cd g (sg_core g i) (node ls)"
  shows "shard_group_ok cd net g'"
proof (rule changes_ok [OF _ ok])
  have "shard_net (sg_core g i) = net" using ok by (simp add: shard_group_ok_def shard_member_def)
  moreover have "sg_core g' k = (if k = i then node ls else sg_core g k)" for k
    by (simp add: sg_core_def nodes)
  ultimately show "changes_to cd net g i g'"
    using frame core by (simp add: changes_to_def me_def)
qed

lemma member_facts:
  assumes "shard_group_ok cd net g"
  shows "shard_net (sg_core g i) = net" "gossip_text (peer_str cd (me g i))"
    "list_all (item_ok cd net (me g i) (shard_view (sg_core g i)) (tried g) (given_up g)) (app_channel (sg_core g i))"
    "view_in (shard_view (sg_core g i)) (tried g)"
    "msg \<in># gossip_to g i \<Longrightarrow> gossip_msg cd net (tried g) (given_up g) msg"
    "keys \<in># rpc_to g i \<Longrightarrow> image_msg cd (tried g) keys"
  using assms by (simp_all add: shard_group_ok_def shard_member_def)

lemma group_texts:
  assumes "shard_group_ok cd net g" shows "utf8_valid net" "peer_text_ok cd"
  using assms by (simp_all add: shard_group_ok_def)

lemma put_simps [simp]:
  "sg_nodes (put_node i ls g) = (sg_nodes g)(i := ls)" "gossip_to (put_node i ls g) = gossip_to g"
  "rpc_to (put_node i ls g) = rpc_to g" "announced (put_node i ls g) = announced g"
  "listening (put_node i ls g) = listening g" "tried (put_node i ls g) = tried g"
  "given_up (put_node i ls g) = given_up g" "untold (put_node i ls g) = untold g"
  by (simp_all add: put_node_def)

lemma still_sends_grow:
  assumes "\<And>p. PublishShardState p \<in> set (tasks c) \<Longrightarrow> PublishShardState p \<in> set (tasks c')"
    and "set (app_channel c) \<subseteq> set (app_channel c')"
  shows "still_sends cd g c c'"
  using assms unfolding still_sends_def by blast

lemma init_ok:
  assumes "shard_group_ok cd net g" "run_task cd env (InitSharding n) (sg_core g i) = Some c"
  shows "shard_group_ok cd net (put_core i (finish_task (InitSharding n) c) g)"
proof (rule node_changes [OF assms(1), where ls = "(sg_nodes g i)\<lparr>node := finish_task (InitSharding n) c\<rparr>" and i = i])
  note e = init_effect [OF assms(2)] and m = member_facts [OF assms(1), where i = i]
  show "still_sends cd g (sg_core g i) (node ((sg_nodes g i)\<lparr>node := finish_task (InitSharding n) c\<rparr>))"
    by (rule still_sends_grow) (use e(4,5) finish_publisher in auto)
qed (use init_effect [OF assms(2)] member_facts [OF assms(1), where i = i] in \<open>simp_all add: put_core_def me_def\<close>)

lemma join_ok:
  assumes "shard_group_ok cd net g" "gossip_text sid"
  shows "shard_group_ok cd net ((put_core i (fst (join_network cd env sid (sg_core g i))) g)
       \<lparr>tried := insert (me g i, sid) (tried g)\<rparr>)" (is "shard_group_ok cd net ?g")
proof -
  let ?c = "sg_core g i" and ?c' = "fst (join_network cd env sid (sg_core g i))"
  let ?A = "insert (me g i, sid) (tried g)"
  note m = member_facts [OF assms(1), where i = i]
  have items: "list_all (item_ok cd (shard_net ?c) (core_peer ?c) (shard_view ?c) ?A (given_up g)) (app_channel ?c)"
    using items_mono [OF m(3) subset_insertI order_refl] m(1) by (simp add: me_def)
  have e: "core_peer ?c' = core_peer ?c" "shard_net ?c' = shard_net ?c" "same_publishers ?c ?c'"
    "shard_view ?c' = shard_view ?c \<or> shard_view ?c' = update_shard_state (core_peer ?c) sid True (shard_view ?c)"
    "set (app_channel ?c) \<subseteq> set (app_channel ?c')"
    "list_all (item_ok cd (shard_net ?c) (core_peer ?c) (shard_view ?c') ?A (given_up g)) (app_channel ?c')"
    using join_network_effect [OF _ assms(2) _ items, of env] m(1) group_texts(1) [OF assms(1)]
    by (simp_all add: me_def)
  have grow: "p \<in> members (shard_view ?c') s" if "p \<in> members (shard_view ?c) s" for p s
    using e(4) that by (auto simp: update_members)
  have "view_in (shard_view ?c') ?A"
    using e(4) m(4) by (auto simp: view_in_def update_members me_def split: if_splits)
  moreover have "still_sends cd g ?c ?c'"
    by (rule still_sends_grow) (use e(3,5) in \<open>auto simp: same_publishers_def\<close>)
  ultimately show ?thesis
    using e(1,2,6) m(1) grow
    by (intro node_changes [OF assms(1), where ls = "(sg_nodes g i)\<lparr>node := ?c'\<rparr>" and i = i])
      (auto simp: put_core_def me_def)
qed

lemma exit_ok:
  assumes "shard_group_ok cd net g" "gossip_text sid"
  shows "shard_group_ok cd net ((put_core i (fst (exit_network cd env shards sid (sg_core g i))) g)
       \<lparr>given_up := insert (me g i, sid) (given_up g)\<rparr>)" (is "shard_group_ok cd net ?g")
proof -
  let ?c = "sg_core g i" and ?c' = "fst (exit_network cd env shards sid (sg_core g i))"
  let ?G = "insert (me g i, sid) (given_up g)"
  note m = member_facts [OF assms(1), where i = i]
  have items: "list_all (item_ok cd (shard_net ?c) (core_peer ?c) (shard_view ?c) (tried g) ?G) (app_channel ?c)"
    using items_mono [OF m(3) order_refl subset_insertI] m(1) by (simp add: me_def)
  have e: "core_peer ?c' = core_peer ?c" "shard_net ?c' = shard_net ?c" "same_publishers ?c ?c'"
    "shard_view ?c' = update_shard_state (core_peer ?c) sid False (shard_view ?c)"
    "set (app_channel ?c) \<subseteq> set (app_channel ?c')"
    "list_all (item_ok cd (shard_net ?c) (core_peer ?c) (shard_view ?c') (tried g) ?G) (app_channel ?c')"
    using exit_network_effect [OF assms(2) _ items, of env shards] by (simp_all add: me_def)
  have keep: "p \<in> members (shard_view ?c') s \<or> (p, s) \<in> ?G" if "p \<in> members (shard_view ?c) s" for p s
    using that by (auto simp: e(4) update_members me_def)
  have "view_in (shard_view ?c') (tried g)"
    using m(4) by (auto simp: e(4) view_in_def update_members split: if_splits)
  moreover have "still_sends cd g ?c ?c'"
    by (rule still_sends_grow) (use e(3,5) in \<open>auto simp: same_publishers_def\<close>)
  ultimately show ?thesis
    using e(1,2,6) m(1) keep
    by (intro node_changes [OF assms(1), where ls = "(sg_nodes g i)\<lparr>node := ?c'\<rparr>" and i = i])
      (auto simp: put_core_def me_def)
qed

text \<open>A request taken from the channel.\<close>

lemma pop_ok:
  assumes "shard_group_ok cd net g" "app_channel (sg_core g i) = FromApplication rid req # rest"
    and "node ls = (sg_core g i)\<lparr>app_channel := rest\<rparr>" "listening g \<subseteq> L"
    and "\<And>keys peer k. req = SendRpc keys peer \<Longrightarrow> me g k = peer \<Longrightarrow> keys \<in># rpc_to g k"
  shows "shard_group_ok cd net ((put_node i ls g)\<lparr>listening := L\<rparr>)"
proof -
  note m = member_facts [OF assms(1), where i = i]
  have view: "shard_view (node ls) = shard_view (sg_core g i)" "shard_net (node ls) = shard_net (sg_core g i)"
    by (simp_all add: assms(3) shard_view_def shard_net_def)
  have "still_sends cd g (sg_core g i) (node ls)"
    unfolding still_sends_def using assms(2,5) by (auto simp: assms(3))
  then show ?thesis
    using m assms(2,4) view
    by (intro node_changes [OF assms(1), where ls = ls and i = i]) (auto simp: assms(3) me_def)
qed

lemma pop_same_ok:
  assumes "shard_group_ok cd net g" "app_channel (sg_core g i) = FromApplication rid req # rest"
    and "node ls = (sg_core g i)\<lparr>app_channel := rest\<rparr>"
    and "\<And>keys peer k. req = SendRpc keys peer \<Longrightarrow> me g k = peer \<Longrightarrow> keys \<in># rpc_to g k"
  shows "shard_group_ok cd net (put_node i ls g)"
  using pop_ok [OF assms(1-3) order_refl assms(4)] by (simp add: put_node_def)

lemma update_view_node [simp]:
  "node (update_node f ls) = f (node ls)" by (simp add: update_node_def)

lemma spawn_frame [simp]:
  "core_peer (spawn t c) = core_peer c" "shard_net (spawn t c) = shard_net c"
  "shard_view (spawn t c) = shard_view c" "app_channel (spawn t c) = app_channel c"
  "tasks (spawn t c) = tasks c @ [t]"
  by (simp_all add: spawn_def shard_net_def shard_view_def)

text \<open>A view that grows by what was tried, or loses what was given up.\<close>

lemma view_change_ok:
  assumes "shard_group_ok cd net g" "node ls = set_shard_view v c"
    and "core_peer c = me g i" "shard_net c = net" "app_channel c = app_channel (sg_core g i)"
    and "set (tasks (sg_core g i)) \<subseteq> set (tasks c)" "view_in v (tried g)"
    and "\<And>p s. p \<in> members (shard_view (sg_core g i)) s \<Longrightarrow> p \<in> members v s \<or> (p, s) \<in> given_up g"
  shows "shard_group_ok cd net (put_node i ls g)"
proof -
  note m = member_facts [OF assms(1), where i = i]
  have "list_all (item_ok cd net (me g i) v (tried g) (given_up g)) (app_channel (sg_core g i))"
    by (rule items_mono [OF m(3)]) (use assms(8) in auto)
  moreover have "still_sends cd g (sg_core g i) (node ls)"
    by (rule still_sends_grow) (use assms(2,5,6) in auto)
  ultimately show ?thesis
    using assms(2-8) by (intro node_changes [OF assms(1), where ls = ls and i = i]) simp_all
qed

lemma update_view_set: "update_shard_view p s j c = set_shard_view (update_shard_state p s j (shard_view c)) c"
  by (simp add: update_shard_view_def)

lemma announcements_same:
  assumes "peer_text_ok cd" "published t (join_message cd p s) msg"
    and "gossip_text (peer_str cd p)" "gossip_text s" "gossip_text (peer_str cd q)" "gossip_text r"
  shows "published t (join_message cd q r) msg \<Longrightarrow> q = p \<and> r = s" "\<not> published t (exit_message cd q r) msg"
proof -
  have f: "gossip_fields (gossip_payload msg) = join_message cd p s"
    by (rule announcement_fields(1) [OF assms(3,4,2)])
  have "peer_str cd q = peer_str cd p \<Longrightarrow> q = p"
    using assms(1) unfolding peer_text_ok_def by (metis option.inject)
  then show "published t (join_message cd q r) msg \<Longrightarrow> q = p \<and> r = s"
    using announcement_fields(1) [OF assms(5,6), of t msg] f by (simp add: join_message_def)
  show "\<not> published t (exit_message cd q r) msg"
    using announcement_fields(2) [OF assms(5,6), of t msg] f by auto
qed

lemma receive_ok:
  assumes ok: "shard_group_ok cd net g" and msg: "msg \<in># gossip_to g j"
    and h: "handle_gossip cd now msg (sg_nodes g j) = Some ls"
  shows "shard_group_ok cd net ((put_node j ls g)\<lparr>gossip_to := (gossip_to g)(j := gossip_to g j - {#msg#})\<rparr>)"
proof -
  let ?g1 = "put_node j ls g"
  note m = member_facts [OF ok, where i = j]
  have node: "node (sg_nodes g j) = sg_core g j" by (simp add: sg_core_def)
  obtain p s where ps: "gossip_text (peer_str cd p)" "gossip_text s"
    "published net (join_message cd p s) msg \<and> (p, s) \<in> tried g
       \<or> published net (exit_message cd p s) msg \<and> (p, s) \<in> given_up g"
    using m(5) [OF msg] by (auto simp: gossip_msg_def)
  have core: "sg_core ?g1 j = node ls" by (simp add: sg_core_def)
  have "shard_group_ok cd net ?g1 \<and> (\<forall>q r. published net (join_message cd q r) msg \<longrightarrow> gossip_text (peer_str cd q)
      \<longrightarrow> gossip_text r \<longrightarrow> q \<in> members (shard_view (sg_core ?g1 j)) r \<and> PublishShardState q \<in> set (tasks (sg_core ?g1 j)))"
  proof (cases "published net (join_message cd p s) msg \<and> (p, s) \<in> tried g")
    case True
    let ?c = "spawn (PublishShardState p) (sg_core g j)"
    have ls: "node ls = set_shard_view (update_shard_state p s True (shard_view ?c)) ?c"
      using h join_received [OF group_texts(2) [OF ok] _ ps(1,2), of net msg now] True
      by (auto simp: node update_view_set)
    have "shard_group_ok cd net ?g1"
      by (rule view_change_ok [OF ok ls])
        (use m(1,4) True in \<open>auto simp: me_def view_in_def update_members split: if_splits\<close>)
    moreover have "q = p \<and> r = s" if "published net (join_message cd q r) msg" "gossip_text (peer_str cd q)" "gossip_text r"
      for q r using announcements_same(1) [OF group_texts(2) [OF ok] _ ps(1,2) that(2,3) that(1)] True by simp
    ultimately show ?thesis unfolding core ls by (auto simp: update_members)
  next
    case False
    then have e: "published net (exit_message cd p s) msg" "(p, s) \<in> given_up g" using ps(3) by auto
    have ls: "node ls = set_shard_view (update_shard_state p s False (shard_view (sg_core g j))) (sg_core g j)"
      using h exit_received [OF group_texts(2) [OF ok] e(1) ps(1,2), of now]
      by (auto simp: node update_view_set)
    have "shard_group_ok cd net ?g1"
      by (rule view_change_ok [OF ok ls])
        (use m(1,4) e in \<open>auto simp: me_def view_in_def update_members split: if_splits\<close>)
    moreover have "\<not> (published net (join_message cd q r) msg \<and> gossip_text (peer_str cd q) \<and> gossip_text r)" for q r
      using announcements_same(2) [OF group_texts(2) [OF ok] _ _ _ ps(1,2), of net q r msg] e(1) by blast
    ultimately show ?thesis by blast
  qed
  then have "shard_group_ok cd net (?g1\<lparr>gossip_to := (gossip_to ?g1)(j := gossip_to ?g1 j - {#msg#})\<rparr>)"
    by (intro drop_gossip_ok) blast+
  then show ?thesis by simp
qed

lemma view_ok:
  assumes ok: "shard_group_ok cd net g" and keys: "keys \<in># rpc_to g j"
    and h: "handle_rpc_request cd asker channel keys (sg_nodes g j) = Some ls"
  shows "shard_group_ok cd net ((put_node j ls g)\<lparr>rpc_to := (rpc_to g)(j := rpc_to g j - {#keys#})\<rparr>)"
proof -
  let ?g1 = "put_node j ls g"
  note m = member_facts [OF ok, where i = j]
  have node: "node (sg_nodes g j) = sg_core g j" by (simp add: sg_core_def)
  obtain v where v: "keys = publish_message cd v" "json_ok cd (text_image cd v)" "view_in v (tried g)"
    using m(6) [OF keys] by (auto simp: image_msg_def)
  have ls: "node ls = set_shard_view (merged (shard_view (sg_core g j)) v) (sg_core g j)"
    using view_received [OF group_texts(2) [OF ok] v(2)] h unfolding v(1) by (simp add: node)
  have "shard_group_ok cd net ?g1"
    by (rule view_change_ok [OF ok ls])
      (use m(1,4) v(3) in \<open>auto simp: me_def view_in_def merged_members\<close>)
  moreover have "p \<in> members (shard_view (sg_core ?g1 j)) s"
    if "keys = publish_message cd w" "json_ok cd (text_image cd w)" "p \<in> members w s" for w s p
  proof -
    have "node ls = set_shard_view (merged (shard_view (sg_core g j)) w) (sg_core g j)"
      using view_received [OF group_texts(2) [OF ok] that(2)] h unfolding that(1) by (simp add: node)
    then show ?thesis using that(3) by (simp add: sg_core_def merged_members)
  qed
  ultimately have "shard_group_ok cd net (?g1\<lparr>rpc_to := (rpc_to ?g1)(j := rpc_to ?g1 j - {#keys#})\<rparr>)"
    by (intro drop_rpc_ok) blast+
  then show ?thesis by simp
qed

lemma send_view_ok:
  assumes ok: "shard_group_ok cd net g"
    and run: "run_task cd env (PublishShardState peer) (sg_core g i) = Some c"
    and ch: "app_channel c = app_channel (sg_core g i)
       @ [FromApplication rid (SendRpc (publish_message cd (shard_view (sg_core g i))) peer)]"
    and json: "json_ok cd (text_image cd (shard_view (sg_core g i)))"
  shows "shard_group_ok cd net (put_core i (finish_task (PublishShardState peer) c) g)"
proof -
  let ?c = "finish_task (PublishShardState peer) c"
  note m = member_facts [OF ok, where i = i] and e = publish_state_effect [OF run]
  have image: "image_msg cd (tried g) (publish_message cd (shard_view (sg_core g i)))"
    using m(4) json unfolding image_msg_def by blast
  have "PublishShardState p \<in> set (tasks ?c) \<or> (\<forall>s q. q \<in> members (shard_view (sg_core g i)) s \<longrightarrow> queued_view cd ?c p q s)"
    if "PublishShardState p \<in> set (tasks (sg_core g i))" for p
  proof (cases "p = peer")
    case True
    then show ?thesis using json ch by (auto simp: queued_view_def)
  next
    case False
    then show ?thesis using that e(4) finish_publisher by simp
  qed
  then have "still_sends cd g (sg_core g i) ?c" using ch unfolding still_sends_def by auto
  then show ?thesis
    using m e ch image
    by (intro node_changes [OF ok, where ls = "(sg_nodes g i)\<lparr>node := ?c\<rparr>" and i = i])
      (simp_all add: put_core_def me_def)
qed

lemma send_refused_ok:
  assumes ok: "shard_group_ok cd net g"
    and run: "run_task cd env (PublishShardState peer) (sg_core g i) = Some c"
    and ch: "app_channel c = app_channel (sg_core g i)"
  shows "shard_group_ok cd net ((put_core i (finish_task (PublishShardState peer) c) g)
       \<lparr>untold := insert (me g i, peer) (untold g)\<rparr>)"
proof -
  let ?c = "finish_task (PublishShardState peer) c" and ?g1 = "g\<lparr>untold := insert (me g i, peer) (untold g)\<rparr>"
  have ok1: "shard_group_ok cd net ?g1" by (rule missed_ok [OF ok]) blast
  have core: "sg_core ?g1 i = sg_core g i" "me ?g1 i = me g i" by (simp_all add: sg_core_def me_def)
  note m = member_facts [OF ok1, where i = i, unfolded core] and e = publish_state_effect [OF run]
  have "PublishShardState p \<in> set (tasks ?c) \<or> (core_peer (sg_core g i), p) \<in> untold ?g1"
    if "PublishShardState p \<in> set (tasks (sg_core g i))" for p
    using that e(4) finish_publisher [of p c "PublishShardState peer"] by (cases "p = peer") (auto simp: me_def)
  then have "still_sends cd ?g1 (sg_core g i) ?c" using ch unfolding still_sends_def by auto
  then show ?thesis
    using m e ch
    by (intro node_changes [OF ok1, where ls = "(sg_nodes g i)\<lparr>node := ?c\<rparr>" and i = i, unfolded core])
      (simp_all add: put_core_def me_def)
qed

lemma lose_gossip_ok:
  assumes "shard_group_ok cd net g"
  shows "shard_group_ok cd net (g\<lparr>untold := untold g \<union> unheard cd net (me g j) msg,
       gossip_to := (gossip_to g)(j := gossip_to g j - {#msg#})\<rparr>)"
proof -
  let ?g1 = "g\<lparr>untold := untold g \<union> unheard cd net (me g j) msg\<rparr>"
  have "shard_group_ok cd net ?g1" by (rule missed_ok [OF assms]) blast
  moreover have "me ?g1 j = me g j" by (simp add: me_def sg_core_def)
  ultimately have "shard_group_ok cd net (?g1\<lparr>gossip_to := (gossip_to ?g1)(j := gossip_to ?g1 j - {#msg#})\<rparr>)"
    by (intro drop_gossip_ok) (auto simp: unheard_def)
  then show ?thesis by simp
qed

lemma lose_view_ok:
  assumes "shard_group_ok cd net g"
  shows "shard_group_ok cd net (g\<lparr>untold := untold g \<union> unseen cd (me g j) keys,
       rpc_to := (rpc_to g)(j := rpc_to g j - {#keys#})\<rparr>)"
proof -
  let ?g1 = "g\<lparr>untold := untold g \<union> unseen cd (me g j) keys\<rparr>"
  have "shard_group_ok cd net ?g1" by (rule missed_ok [OF assms]) blast
  moreover have "me ?g1 j = me g j" by (simp add: me_def sg_core_def)
  ultimately have "shard_group_ok cd net (?g1\<lparr>rpc_to := (rpc_to ?g1)(j := rpc_to ?g1 j - {#keys#})\<rparr>)"
    by (intro drop_rpc_ok) (auto simp: unseen_def)
  then show ?thesis by simp
qed

lemma shard_group_ok_step:
  assumes "shard_step cd net g g'" "shard_group_ok cd net g"
  shows "shard_group_ok cd net g'"
  using assms
proof (induction rule: shard_step.induct)
  case (sh_init n g i env c)
  then show ?case by (intro init_ok)
next
  case (sh_join sid g i env)
  then show ?case by (intro join_ok)
next
  case (sh_exit sid g i env shards)
  then show ?case by (intro exit_ok)
next
  case (sh_subscribe g i rid topic rest sw)
  then show ?case
    by (intro pop_ok [OF _ sh_subscribe(1)]) (auto simp: join_served sg_core_def)
next
  case (sh_publish g i rid m rest sw ls topic payload origin mid source)
  have ch: "app_channel (node (sg_nodes g i)) = FromApplication rid (GossipsubBroadcastMessage net m) # rest"
    using sh_publish(1) by (simp add: sg_core_def)
  let ?msg = "\<lparr>propagation_source = origin, gossip_id = mid, gossip_source = source,
        gossip_payload = payload, gossip_topic = topic\<rparr>"
  have msg: "published net m ?msg"
    using broadcast_served(2) [OF ch, of cd sw] sh_publish(2,3) by (simp add: published_def)
  have "request_ok cd net (me g i) (shard_view (sg_core g i)) (tried g) (given_up g) (GossipsubBroadcastMessage net m)"
    using member_facts(3) [OF sh_publish(5), where i = i] sh_publish(1) by simp
  from announce_ok [OF sh_publish(5) this msg] show ?case
    by (rule pop_same_ok) (use sh_publish(1,2) broadcast_served(1) [OF ch, of cd sw] in \<open>auto simp: sg_core_def\<close>)
next
  case (sh_refused g i rid m rest sw ls topic payload)
  have ch: "app_channel (node (sg_nodes g i)) = FromApplication rid (GossipsubBroadcastMessage net m) # rest"
    using sh_refused(1) by (simp add: sg_core_def)
  from sh_refused(5) show ?case
    by (rule pop_same_ok) (use sh_refused(1,2) broadcast_served(1) [OF ch, of cd sw] in \<open>auto simp: sg_core_def\<close>)
next
  case (sh_receive msg g j now ls)
  then show ?case by (intro receive_ok)
next
  case (sh_send_view peer g i env c rid)
  then show ?case by (intro send_view_ok)
next
  case (sh_request g i rid keys peer rest sw)
  have ch: "app_channel (node (sg_nodes g i)) = FromApplication rid (SendRpc keys peer) # rest"
    using sh_request(1) by (simp add: sg_core_def)
  have "image_msg cd (tried g) keys"
    using member_facts(3) [OF sh_request(2), where i = i] sh_request(1) by simp
  from send_ok [OF sh_request(2) this] show ?case
    by (rule pop_same_ok) (use sh_request(1) rpc_served [OF ch, of cd sw] in \<open>auto simp: sg_core_def sent_arrives\<close>)
next
  case (sh_view keys g j asker channel ls)
  then show ?case by (intro view_ok)
next
  case (sh_send_refused peer g i env c)
  then show ?case by (intro send_refused_ok)
next
  case (sh_lose_gossip msg g j)
  then show ?case by (intro lose_gossip_ok)
next
  case (sh_lose_view keys g j)
  then show ?case by (intro lose_view_ok)
qed

interpretation shard_groups: step_invariant "shard_step cd net" "shard_group_ok cd net" for cd net
  by unfold_locales (rule shard_group_ok_step)

end
