(* ===== verification/Ballot.thy ===== *)
theory Ballot
  imports Node_Machine
begin

text \<open>
  The confirmations of one message under strong consistency, apart from the nodes and queues that
  carry them: who has the data, which confirmations are on their way, how many each entry has
  counted. \<open>Strong_Group\<close> shows that a group of nodes refines this for every message. The invariant
  bounds the votes of an entry by the nodes that have held the data.
\<close>

section \<open>The ballot of one message\<close>

record 'n ballot =
  origin :: "'n option"
  data_due :: "'n \<Rightarrow> nat"
  conf_sent :: "'n \<Rightarrow> nat"
  conf_due :: "'n \<Rightarrow> nat"
  missed :: "'n \<Rightarrow> nat"
  has_held :: "'n set"
  votes :: "'n \<Rightarrow> nat set"
  public_votes :: "'n \<Rightarrow> nat set"

text \<open>What a node can still lose: requests that are not served, entries that are dropped.\<close>

definition ballot_le :: "'n ballot \<Rightarrow> 'n ballot \<Rightarrow> bool" where
  "ballot_le b' b \<longleftrightarrow> origin b' = origin b \<and> data_due b' = data_due b \<and> conf_due b' = conf_due b
     \<and> missed b' = missed b \<and> has_held b' = has_held b \<and> (\<forall>j. conf_sent b' j \<le> conf_sent b j)
     \<and> (\<forall>j. votes b' j \<subseteq> votes b j) \<and> (\<forall>j. public_votes b' j \<subseteq> public_votes b j)"

text \<open>The steps of a ballot whose public entries have at least \<open>q\<close> votes.\<close>

inductive ballot_step :: "nat \<Rightarrow> 'n ballot \<Rightarrow> 'n ballot \<Rightarrow> bool" for q where
  b_lose: "ballot_le b' b \<Longrightarrow> ballot_step q b b'"
| b_publish: "origin b = None \<Longrightarrow>
     b1 = b\<lparr>origin := Some i, data_due := \<lambda>j. if j = i then data_due b j else Suc (data_due b j)\<rparr> \<Longrightarrow>
     ballot_le b' b1 \<Longrightarrow> ballot_step q b b'"
| b_store: "data_due b j = Suc n \<Longrightarrow> v = (if now_public then {1} else {}) \<Longrightarrow> (now_public \<Longrightarrow> q \<le> 1) \<Longrightarrow>
     b1 = b\<lparr>data_due := (data_due b)(j := n), has_held := insert j (has_held b),
            conf_sent := (conf_sent b)(j := Suc (conf_sent b j)),
            votes := (votes b)(j := insert 1 (votes b j)),
            public_votes := (public_votes b)(j := v \<union> public_votes b j)\<rparr> \<Longrightarrow>
     ballot_le b' b1 \<Longrightarrow> ballot_step q b b'"
| b_spread: "conf_sent b k = Suc n \<Longrightarrow>
     b1 = b\<lparr>conf_sent := (conf_sent b)(k := n),
            conf_due := \<lambda>j. if j = k then conf_due b j else Suc (conf_due b j)\<rparr> \<Longrightarrow>
     ballot_le b' b1 \<Longrightarrow> ballot_step q b b'"
| b_count: "conf_due b j = Suc n \<Longrightarrow> v \<in> votes b j \<Longrightarrow> ps \<subseteq> {v, Suc v} \<Longrightarrow> (\<forall>p \<in> ps. q \<le> p) \<Longrightarrow>
     b1 = b\<lparr>conf_due := (conf_due b)(j := n), votes := (votes b)(j := insert (Suc v) (votes b j)),
            public_votes := (public_votes b)(j := ps \<union> public_votes b j)\<rparr> \<Longrightarrow>
     ballot_le b' b1 \<Longrightarrow> ballot_step q b b'"
| b_miss: "conf_due b j = Suc n \<Longrightarrow>
     b1 = b\<lparr>conf_due := (conf_due b)(j := n), missed := (missed b)(j := Suc (missed b j))\<rparr> \<Longrightarrow>
     ballot_le b' b1 \<Longrightarrow> ballot_step q b b'"

definition sum_others :: "('n::finite \<Rightarrow> nat) \<Rightarrow> 'n \<Rightarrow> nat" where
  "sum_others f j = (\<Sum>k \<in> - {j}. f k)"

text \<open>The confirmations of a message that have reached or may still reach a node.\<close>

definition on_the_way :: "('n::finite) ballot \<Rightarrow> 'n \<Rightarrow> nat" where
  "on_the_way b j = conf_due b j + missed b j + sum_others (conf_sent b) j"

definition others_held :: "('n::finite) ballot \<Rightarrow> 'n \<Rightarrow> nat" where
  "others_held b j = card (has_held b - {j})"

definition ballot_ok :: "nat \<Rightarrow> ('n::finite) ballot \<Rightarrow> bool" where
  "ballot_ok q b \<longleftrightarrow>
     (\<forall>j. data_due b j + (if j \<in> has_held b then 1 else 0)
        \<le> (if origin b = None \<or> origin b = Some j then 0 else 1))
     \<and> (\<forall>j. on_the_way b j \<le> others_held b j)
     \<and> (\<forall>j. \<forall>v \<in> votes b j \<union> public_votes b j. j \<in> has_held b \<and> 1 \<le> v \<and> v + on_the_way b j \<le> Suc (others_held b j))
     \<and> (\<forall>j. \<forall>v \<in> public_votes b j. q \<le> v)"

lemma ballot_okD:
  assumes "ballot_ok q b"
  shows "data_due b j + (if j \<in> has_held b then 1 else 0)
           \<le> (if origin b = None \<or> origin b = Some j then 0 else 1)"
    and "on_the_way b j \<le> others_held b j"
    and "v \<in> votes b j \<or> v \<in> public_votes b j \<Longrightarrow>
           j \<in> has_held b \<and> 1 \<le> v \<and> v + on_the_way b j \<le> Suc (others_held b j)"
    and "v \<in> public_votes b j \<Longrightarrow> q \<le> v"
  using assms by (simp_all add: ballot_ok_def)

lemma ballot_okI:
  assumes "\<And>j. data_due b j + (if j \<in> has_held b then 1 else 0)
           \<le> (if origin b = None \<or> origin b = Some j then 0 else 1)"
    and "\<And>j. on_the_way b j \<le> others_held b j"
    and "\<And>v j. v \<in> votes b j \<or> v \<in> public_votes b j \<Longrightarrow>
           j \<in> has_held b \<and> 1 \<le> v \<and> v + on_the_way b j \<le> Suc (others_held b j)"
    and "\<And>v j. v \<in> public_votes b j \<Longrightarrow> q \<le> v"
  shows "ballot_ok q b"
  using assms by (simp add: ballot_ok_def)

lemma ballot_le_ok:
  fixes b :: "('n::finite) ballot"
  assumes "ballot_le b' b" "ballot_ok q b"
  shows "ballot_ok q b'"
proof -
  have less: "on_the_way b' j \<le> on_the_way b j" for j
  proof -
    have "sum_others (conf_sent b') j \<le> sum_others (conf_sent b) j"
      unfolding sum_others_def by (rule sum_mono) (use assms(1) in \<open>simp add: ballot_le_def\<close>)
    then show ?thesis using assms(1) by (simp add: on_the_way_def ballot_le_def)
  qed
  have eq: "others_held b' j = others_held b j" for j
    using assms(1) by (simp add: others_held_def ballot_le_def)
  show ?thesis
  proof (rule ballot_okI)
    fix j
    show "data_due b' j + (if j \<in> has_held b' then 1 else 0)
        \<le> (if origin b' = None \<or> origin b' = Some j then 0 else 1)"
      using ballot_okD(1) [OF assms(2), of j] assms(1) by (simp add: ballot_le_def)
    show "on_the_way b' j \<le> others_held b' j"
      using ballot_okD(2) [OF assms(2), of j] less [of j] eq [of j] by simp
  next
    fix v j assume v: "v \<in> votes b' j \<or> v \<in> public_votes b' j"
    then have "v \<in> votes b j \<or> v \<in> public_votes b j" using assms(1) by (auto simp: ballot_le_def)
    from ballot_okD(3) [OF assms(2) this]
    show "j \<in> has_held b' \<and> 1 \<le> v \<and> v + on_the_way b' j \<le> Suc (others_held b' j)"
      using assms(1) less [of j] eq [of j] by (simp add: ballot_le_def)
  next
    fix v j assume "v \<in> public_votes b' j"
    then have "v \<in> public_votes b j" using assms(1) by (auto simp: ballot_le_def)
    then show "q \<le> v" by (rule ballot_okD(4) [OF assms(2)])
  qed
qed

lemma sum_others_update:
  "sum_others (f(i := x)) j + (if i = j then 0 else f i) = sum_others f j + (if i = j then 0 else x)"
proof (cases "i = j")
  case True
  then show ?thesis by (auto simp: sum_others_def intro: sum.cong)
next
  case False
  then have "sum_others g j = g i + (\<Sum>k \<in> - {j} - {i}. g k)" for g :: "'a \<Rightarrow> nat"
    unfolding sum_others_def by (intro sum.remove) auto
  from this [of f] this [of "f(i := x)"] show ?thesis using False by simp
qed

text \<open>The steps one by one, before anything is lost.\<close>

lemma ballot_ok_publish:
  fixes b :: "('n::finite) ballot"
  assumes "ballot_ok q b" "origin b = None"
  shows "ballot_ok q (b\<lparr>origin := Some i,
     data_due := \<lambda>j. if j = i then data_due b j else Suc (data_due b j)\<rparr>)"
proof -
  have "data_due b j = 0 \<and> j \<notin> has_held b" for j
    using ballot_okD(1) [OF assms(1), of j] assms(2) by (auto split: if_splits)
  then show ?thesis using assms(1) by (auto simp: ballot_ok_def on_the_way_def others_held_def)
qed

lemma ballot_ok_store:
  fixes b :: "('n::finite) ballot"
  assumes "ballot_ok q b" "data_due b j = Suc n" "now_public \<Longrightarrow> q \<le> 1"
    and "v = (if now_public then {1} else {})"
    and "b1 = b\<lparr>data_due := (data_due b)(j := n), has_held := insert j (has_held b),
            conf_sent := (conf_sent b)(j := Suc (conf_sent b j)),
            votes := (votes b)(j := insert 1 (votes b j)),
            public_votes := (public_votes b)(j := v \<union> public_votes b j)\<rparr>"
  shows "ballot_ok q b1"
proof -
  note own = ballot_okD(1) [OF assms(1), of j]
  then have new: "j \<notin> has_held b" "n = 0" using assms(2) by (auto split: if_splits)
  have way: "on_the_way b1 i = (if i = j then on_the_way b i else Suc (on_the_way b i))" for i
    using assms(5) sum_others_update [of "conf_sent b" j "Suc (conf_sent b j)" i]
    by (auto simp: on_the_way_def simp del: fun_upd_apply split: if_splits)
  have "insert j (has_held b) - {i} = insert j (has_held b - {i})" if "i \<noteq> j" for i using that by blast
  then have held: "others_held b1 i = (if i = j then others_held b i else Suc (others_held b i))" for i
    using assms(5) new by (simp add: others_held_def)
  have none: "votes b j = {}" "public_votes b j = {}" using ballot_okD(3) [OF assms(1), of _ j] new by blast+
  show ?thesis
  proof (rule ballot_okI)
    fix i
    show "data_due b1 i + (if i \<in> has_held b1 then 1 else 0)
        \<le> (if origin b1 = None \<or> origin b1 = Some i then 0 else 1)"
      using ballot_okD(1) [OF assms(1), of i] own assms(2,5) new by (auto split: if_splits)
    show "on_the_way b1 i \<le> others_held b1 i"
      using ballot_okD(2) [OF assms(1), of i] by (auto simp: way held)
  next
    fix w i assume w: "w \<in> votes b1 i \<or> w \<in> public_votes b1 i"
    show "i \<in> has_held b1 \<and> 1 \<le> w \<and> w + on_the_way b1 i \<le> Suc (others_held b1 i)"
    proof (cases "i = j")
      case True
      then have "w = 1" using w assms(4,5) none by (auto split: if_splits)
      moreover have "j \<in> has_held b1" using assms(5) by simp
      ultimately show ?thesis using True ballot_okD(2) [OF assms(1), of j] by (simp add: way held)
    next
      case False
      then have "w \<in> votes b i \<or> w \<in> public_votes b i" using w assms(5) by simp
      moreover have "has_held b1 = insert j (has_held b)" using assms(5) by simp
      ultimately show ?thesis using ballot_okD(3) [OF assms(1), of w i] False by (simp add: way held)
    qed
  next
    fix w i assume "w \<in> public_votes b1 i"
    then show "q \<le> w"
      using ballot_okD(4) [OF assms(1)] assms(3-5) by (auto split: if_splits)
  qed
qed

lemma ballot_ok_spread:
  fixes b :: "('n::finite) ballot"
  assumes "ballot_ok q b" "conf_sent b k = Suc n"
    and "b1 = b\<lparr>conf_sent := (conf_sent b)(k := n),
            conf_due := \<lambda>j. if j = k then conf_due b j else Suc (conf_due b j)\<rparr>"
  shows "ballot_ok q b1"
proof -
  have way: "on_the_way b1 i = on_the_way b i" for i
    using assms(2,3) sum_others_update [of "conf_sent b" k n i]
    by (auto simp: on_the_way_def simp del: fun_upd_apply split: if_splits)
  have "origin b1 = origin b" "data_due b1 = data_due b" "has_held b1 = has_held b"
    "others_held b1 = others_held b" "votes b1 = votes b" "public_votes b1 = public_votes b"
    using assms(3) by (simp_all add: others_held_def fun_eq_iff)
  with assms(1) show ?thesis by (simp add: ballot_ok_def way)
qed

lemma ballot_ok_count:
  fixes b :: "('n::finite) ballot"
  assumes "ballot_ok q b" "conf_due b j = Suc n" "v \<in> votes b j" "ps \<subseteq> {v, Suc v}" "\<forall>p \<in> ps. q \<le> p"
    and "b1 = b\<lparr>conf_due := (conf_due b)(j := n), votes := (votes b)(j := insert (Suc v) (votes b j)),
            public_votes := (public_votes b)(j := ps \<union> public_votes b j)\<rparr>"
  shows "ballot_ok q b1"
proof -
  have way: "on_the_way b i = (if i = j then Suc (on_the_way b1 i) else on_the_way b1 i)" for i
    using assms(2,6) by (simp add: on_the_way_def)
  have same: "origin b1 = origin b" "data_due b1 = data_due b" "has_held b1 = has_held b"
    "others_held b1 = others_held b"
    using assms(6) by (simp_all add: others_held_def fun_eq_iff)
  note v = ballot_okD(3) [OF assms(1), of v j]
  show ?thesis
  proof (rule ballot_okI)
    fix i
    show "data_due b1 i + (if i \<in> has_held b1 then 1 else 0)
        \<le> (if origin b1 = None \<or> origin b1 = Some i then 0 else 1)"
      using ballot_okD(1) [OF assms(1), of i] by (simp add: same)
    show "on_the_way b1 i \<le> others_held b1 i"
      using ballot_okD(2) [OF assms(1), of i] way [of i] by (simp add: same split: if_splits)
  next
    fix w i assume w: "w \<in> votes b1 i \<or> w \<in> public_votes b1 i"
    then consider "w \<in> votes b i \<or> w \<in> public_votes b i" | "i = j" "w \<in> {v, Suc v}"
      using assms(4,6) by (auto split: if_splits)
    then show "i \<in> has_held b1 \<and> 1 \<le> w \<and> w + on_the_way b1 i \<le> Suc (others_held b1 i)"
    proof cases
      case 1
      from ballot_okD(3) [OF assms(1) this] show ?thesis using way [of i] by (simp add: same split: if_splits)
    next
      case 2
      then show ?thesis using v assms(3) way [of i] by (auto simp: same)
    qed
  next
    fix w i assume "w \<in> public_votes b1 i"
    then show "q \<le> w" using ballot_okD(4) [OF assms(1)] assms(5,6) by (auto split: if_splits)
  qed
qed

lemma ballot_ok_miss:
  fixes b :: "('n::finite) ballot"
  assumes "ballot_ok q b" "conf_due b j = Suc n"
    and "b1 = b\<lparr>conf_due := (conf_due b)(j := n), missed := (missed b)(j := Suc (missed b j))\<rparr>"
  shows "ballot_ok q b1"
proof -
  have way: "on_the_way b1 i = on_the_way b i" for i using assms(2,3) by (simp add: on_the_way_def)
  have "origin b1 = origin b" "data_due b1 = data_due b" "has_held b1 = has_held b"
    "others_held b1 = others_held b" "votes b1 = votes b" "public_votes b1 = public_votes b"
    using assms(3) by (simp_all add: others_held_def fun_eq_iff)
  with assms(1) show ?thesis by (simp add: ballot_ok_def way)
qed

lemma ballot_ok_step: "ballot_step q b b' \<Longrightarrow> ballot_ok q b \<Longrightarrow> ballot_ok q b'"
  for b :: "('n::finite) ballot"
proof (induction rule: ballot_step.induct)
  case (b_lose b' b)
  then show ?case by (rule ballot_le_ok)
next
  case (b_publish b b1 i b')
  then show ?case using ballot_ok_publish ballot_le_ok by blast
next
  case (b_store b j n v now_public b1 b')
  from ballot_ok_store [OF b_store(6,1,3,2,4)] b_store(5) show ?case using ballot_le_ok by blast
next
  case (b_spread b k n b1 b')
  then show ?case using ballot_ok_spread ballot_le_ok by blast
next
  case (b_count b j n v ps b1 b')
  from ballot_ok_count [OF b_count(7,1-5)] b_count(6) show ?case using ballot_le_ok by blast
next
  case (b_miss b j n b1 b')
  then show ?case using ballot_ok_miss ballot_le_ok by blast
qed

interpretation ballots: step_invariant "ballot_step q" "ballot_ok q" for q :: nat
  by unfold_locales (rule ballot_ok_step)

end
