(* ===== verification/Strong_Group.thy ===== *)
theory Strong_Group
  imports Repl_Group Ballot
begin

text \<open>
  A group of nodes that replicate under strong consistency, as a step relation over all of them:
  an application replicates or consumes data, a network task publishes it, a receiver stores it in
  its temporary queue and broadcasts a confirmation, the confirmations of the others are counted,
  an entry with enough of them moves to the public queue, and an application clones the buffer of
  some peer, in any order. Each spawned task runs as a whole. The members of the group are fixed, but
  what the network answers when a node asks for its peers is not: \<open>p\<close> is a lower bound of the number
  of peers in any answer that is not empty, so \<open>p = 1\<close> allows every answer. A clone may bring any
  data; its entries have no count. For every message the steps refine those of its ballot
  (\<open>Ballot\<close>), whose quorum is what the consensus model asks for of \<open>p\<close> peers.
\<close>

section \<open>The group\<close>

text \<open>
  Two records of what has happened are kept beside the group: which nodes have ever held the data
  of a message in one of their queues, and how often a confirmation reached a node whose temporary
  queue had no entry for it.
\<close>

record 'n strong_group = "'n repl_group" +
  held :: "('n \<times> string) set"
  unmatched :: "('n \<times> string) multiset"

definition holds :: "string \<Rightarrow> string \<Rightarrow> core \<Rightarrow> bool" where
  "holds rn mid c \<longleftrightarrow> map_of (temp_of c rn) mid \<noteq> None \<or> mid \<in> message_id ` set (public_queue c rn)"

definition note_held :: "'n \<Rightarrow> string \<Rightarrow> string \<Rightarrow> core \<Rightarrow> 'n strong_group \<Rightarrow> 'n strong_group" where
  "note_held j rn mid c g = (if holds rn mid c then g\<lparr>held := insert (j, mid) (held g)\<rparr> else g)"

definition note_unmatched :: "'n \<Rightarrow> string \<Rightarrow> string \<Rightarrow> core \<Rightarrow> 'n strong_group \<Rightarrow> 'n strong_group" where
  "note_unmatched j rn mid c g =
     (if map_of (temp_of c rn) mid = None then g\<lparr>unmatched := add_mset (j, mid) (unmatched g)\<rparr> else g)"

text \<open>The answer is empty (it may be late), or it names at least \<open>p\<close> peers; the length of a vector fits
  into a word.\<close>

definition sees_peers :: "nat \<Rightarrow> env \<Rightarrow> string \<Rightarrow> core \<Rightarrow> bool" where
  "sees_peers p env rn c \<longleftrightarrow> (let n = length (snd (replica_peers env rn c)) in n < 2 ^ 64 \<and> (n = 0 \<or> p \<le> n))"

inductive strong_step ::
    "nat \<Rightarrow> codecs \<Rightarrow> string \<Rightarrow> 'n strong_group \<Rightarrow> 'n strong_group \<Rightarrow> bool" for p cd rn where
  s_replicate: "list_all gossip_text data \<Longrightarrow>
     strong_step p cd rn g (set_node i ((grp_nodes g i)\<lparr>node :=
       fst (replicate_data env data rn (node (grp_nodes g i)))\<rparr>) g)"
| s_consume: "strong_step p cd rn g (set_node i ((grp_nodes g i)\<lparr>node :=
       fst (consume_repl_data rn (node (grp_nodes g i)))\<rparr>) g)"
| s_publish: "app_channel (node (grp_nodes g i))
       = FromApplication sid (GossipsubBroadcastMessage rn (repl_message sent clk rn data)) # rest \<Longrightarrow>
     receive_request cd sw (grp_nodes g i) = ls \<Longrightarrow>
     calls ls = calls (grp_nodes g i) @ [GossipPublish topic payload] \<Longrightarrow>
     call_ok sw (GossipPublish topic payload) \<Longrightarrow>
     mid \<notin> logged_id ` set (grp_log g) \<Longrightarrow> gossip_text mid \<Longrightarrow>
     strong_step p cd rn g ((set_node i ls (publish_from i
       \<lparr>propagation_source = from, gossip_id = mid, gossip_source = source,
        gossip_payload = payload, gossip_topic = topic\<rparr> g))\<lparr>grp_log := grp_log g @ [(i, clk, mid, data)]\<rparr>)"
| s_confirm: "app_channel (node (grp_nodes g i))
       = FromApplication sid (GossipsubBroadcastMessage rn (strong_message rn mid)) # rest \<Longrightarrow>
     receive_request cd sw (grp_nodes g i) = ls \<Longrightarrow>
     calls ls = calls (grp_nodes g i) @ [GossipPublish topic payload] \<Longrightarrow>
     call_ok sw (GossipPublish topic payload) \<Longrightarrow>
     strong_step p cd rn g (set_node i ls (publish_from i
       \<lparr>propagation_source = from, gossip_id = own_id, gossip_source = source,
        gossip_payload = payload, gossip_topic = topic\<rparr> g))"
| s_refused: "app_channel (node (grp_nodes g i))
       = FromApplication sid (GossipsubBroadcastMessage rn m) # rest \<Longrightarrow>
     receive_request cd sw (grp_nodes g i) = ls \<Longrightarrow>
     calls ls = calls (grp_nodes g i) @ [GossipPublish topic payload] \<Longrightarrow>
     \<not> call_ok sw (GossipPublish topic payload) \<Longrightarrow>
     strong_step p cd rn g (set_node i ls g)"
| s_answer: "app_channel (node (grp_nodes g i)) = FromApplication sid GossipsubGetInfo # rest \<Longrightarrow>
     strong_step p cd rn g (set_node i (receive_request cd sw (grp_nodes g i)) g)"
| s_clone: "strong_step p cd rn g (set_node i ((grp_nodes g i)\<lparr>node :=
       fst (replicate_buffer cd env rn peer (node (grp_nodes g i)))\<rparr>) g)"
| s_ask: "app_channel (node (grp_nodes g i)) = FromApplication sid (SendRpc keys peer) # rest \<Longrightarrow>
     strong_step p cd rn g (set_node i (receive_request cd sw (grp_nodes g i)) g)"
| s_receive: "msg \<in># in_flight g j \<Longrightarrow>
     handle_gossip cd now msg (grp_nodes g j) = Some ls \<Longrightarrow>
     strong_step p cd rn g ((set_node j ls g)\<lparr>in_flight := (in_flight g)(j := in_flight g j - {#msg#})\<rparr>)"
| s_store: "IncomingReplData rn d \<in> set (tasks (node (grp_nodes g j))) \<Longrightarrow>
     sees_peers p env rn (node (grp_nodes g j)) \<Longrightarrow>
     run_task cd env (IncomingReplData rn d) (node (grp_nodes g j)) = Some c \<Longrightarrow>
     strong_step p cd rn g (note_held j rn (message_id d) c (set_node j
       ((grp_nodes g j)\<lparr>node := finish_task (IncomingReplData rn d) c\<rparr>) g))"
| s_count: "DataConfirmation rn mid \<in> set (tasks (node (grp_nodes g j))) \<Longrightarrow>
     sees_peers p env rn (node (grp_nodes g j)) \<Longrightarrow>
     run_task cd env (DataConfirmation rn mid) (node (grp_nodes g j)) = Some c \<Longrightarrow>
     strong_step p cd rn g (note_unmatched j rn mid (node (grp_nodes g j)) (set_node j
       ((grp_nodes g j)\<lparr>node := finish_task (DataConfirmation rn mid) c\<rparr>) g))"

section \<open>What a message is about\<close>

definition data_of :: "gossip_message \<Rightarrow> string option" where
  "data_of msg = (if gossip_fields (gossip_payload msg) ! 0 = REPL_GOSSIP_FLAG then Some (gossip_id msg) else None)"

definition confirm_of :: "gossip_message \<Rightarrow> string option" where
  "confirm_of msg = (let fields = gossip_fields (gossip_payload msg) in
     if fields ! 0 = STRONG_CONSISTENCY_FLAG then Some (fields ! 2) else None)"

fun data_task :: "string \<Rightarrow> task \<Rightarrow> string option" where
  "data_task rn (IncomingReplData rn' d) = (if rn' = rn then Some (message_id d) else None)"
| "data_task rn _ = None"

fun vote_task :: "string \<Rightarrow> task \<Rightarrow> string option" where
  "vote_task rn (DataConfirmation rn' mid) = (if rn' = rn then Some mid else None)"
| "vote_task rn _ = None"

fun confirm_request :: "string \<Rightarrow> stream_data \<Rightarrow> string option" where
  "confirm_request rn (FromApplication sid (GossipsubBroadcastMessage topic m)) =
     (if topic = rn \<and> m ! 0 = STRONG_CONSISTENCY_FLAG then Some (m ! 2) else None)"
| "confirm_request rn _ = None"

definition carries_confirm :: "string \<Rightarrow> gossip_message \<Rightarrow> bool" where
  "carries_confirm rn msg \<longleftrightarrow> (\<exists>mid. published rn (strong_message rn mid) msg \<and> gossip_text mid)"

fun strong_request :: "string \<Rightarrow> stream_data \<Rightarrow> bool" where
  "strong_request rn (FromApplication sid GossipsubGetInfo) = True"
| "strong_request rn (FromApplication sid (SendRpc keys peer)) = True"
| "strong_request rn (FromApplication sid (GossipsubBroadcastMessage topic m)) =
     (topic = rn \<and> ((\<exists>sent clk data. m = repl_message sent clk rn data \<and> list_all gossip_text data)
        \<or> (\<exists>mid. m = strong_message rn mid \<and> gossip_text mid)))"
| "strong_request rn _ = False"

fun strong_task :: "string \<Rightarrow> task \<Rightarrow> bool" where
  "strong_task rn (IncomingReplData rn' d) = (rn' = rn \<longrightarrow> confirmations d = Some 1)"
| "strong_task rn _ = True"

text \<open>The votes of the entries of a message, in either queue and in the public one.\<close>

definition entries :: "string \<Rightarrow> core \<Rightarrow> repl_buffer_data set" where
  "entries rn c = snd ` set (temp_of c rn) \<union> set (public_queue c rn)"

definition votes_in :: "string \<Rightarrow> repl_buffer_data set \<Rightarrow> nat set" where
  "votes_in mid ds = {unat v | v d. d \<in> ds \<and> message_id d = mid \<and> confirmations d = Some v}"

definition ballot_of :: "string \<Rightarrow> string \<Rightarrow> 'n strong_group \<Rightarrow> 'n ballot" where
  "ballot_of rn mid g =
     \<lparr>origin = map_of (map (\<lambda>x. (logged_id x, fst x)) (grp_log g)) mid,
      data_due = (\<lambda>j. count (image_mset data_of (in_flight g j)) (Some mid)
         + count_list (map (data_task rn) (tasks (node (grp_nodes g j)))) (Some mid)),
      conf_sent = (\<lambda>j. count_list (map (confirm_request rn) (app_channel (node (grp_nodes g j)))) (Some mid)),
      conf_due = (\<lambda>j. count (image_mset confirm_of (in_flight g j)) (Some mid)
         + count_list (map (vote_task rn) (tasks (node (grp_nodes g j)))) (Some mid)),
      missed = (\<lambda>j. count (unmatched g) (j, mid)),
      has_held = {j. (j, mid) \<in> held g},
      votes = (\<lambda>j. votes_in mid (entries rn (node (grp_nodes g j)))),
      public_votes = (\<lambda>j. votes_in mid (set (public_queue (node (grp_nodes g j)) rn)))\<rparr>"

text \<open>The shape of the nodes and messages.\<close>

definition strong_member :: "consensus_model \<Rightarrow> string \<Rightarrow> core \<Rightarrow> bool" where
  "strong_member cm rn c \<longleftrightarrow> consistency_model (replica_buffer c) = Strong cm \<and> repl_cfg c rn \<noteq> None
     \<and> list_all (strong_request rn) (app_channel c) \<and> list_all (strong_task rn) (tasks c)
     \<and> (\<forall>kv \<in> set (temp_of c rn). message_id (snd kv) = fst kv \<and> confirmations (snd kv) \<noteq> None)"

definition strong_shape :: "consensus_model \<Rightarrow> string \<Rightarrow> 'n strong_group \<Rightarrow> bool" where
  "strong_shape cm rn g \<longleftrightarrow> gossip_text rn \<and> list_all gossip_text (map logged_id (grp_log g))
     \<and> (\<forall>j. strong_member cm rn (node (grp_nodes g j))
          \<and> (\<forall>msg \<in># in_flight g j. carries_repl rn msg \<or> carries_confirm rn msg))"

text \<open>What the consensus model asks for of \<open>p\<close> peers.\<close>

definition quorum :: "nat \<Rightarrow> consensus_model \<Rightarrow> nat" where
  "quorum p cm = (case cm of All_Peers \<Rightarrow> p | MinPeers k \<Rightarrow> min (unat k) p)"

section \<open>What the tasks do to a node\<close>

text \<open>The answer to a request depends on nothing but the traffic of the node.\<close>

definition same_traffic :: "core \<Rightarrow> core \<Rightarrow> bool" where
  "same_traffic c c' \<longleftrightarrow> request_buffer c' = request_buffer c \<and> response_buffer c' = response_buffer c
     \<and> current_stream_id c' = current_stream_id c"

lemma responses_traffic:
  "response_buffer c' = response_buffer c \<Longrightarrow>
     response_buffer (foldl (\<lambda>c m. handle_network_response m c) c' ms)
       = response_buffer (foldl (\<lambda>c m. handle_network_response m c) c ms)"
proof (induction ms arbitrary: c c')
  case (Cons m ms)
  have "response_buffer (handle_network_response m c') = response_buffer (handle_network_response m c)"
    using Cons.prems by (cases m) (simp_all add: handle_network_response_def)
  from Cons.IH [OF this] show ?case by simp
qed simp

lemma recv_traffic:
  "response_buffer c' = response_buffer c \<Longrightarrow> snd (recv_loop arr sid n c') = snd (recv_loop arr sid n c)"
proof (induction "10 - n" arbitrary: n c c')
  case 0
  note same = responses_traffic [OF 0(2), of "arr n"]
  have "\<not> n < 10" using 0(1) by simp
  then show ?case
    by (subst (1 2) recv_loop.simps) (simp add: Let_def case_prod_beta same split: option.split)
next
  case (Suc k)
  note same = responses_traffic [OF Suc(3), of "arr n"]
  have "snd (recv_loop arr sid (n + 1) (e\<lparr>response_buffer := b\<rparr>))
      = snd (recv_loop arr sid (n + 1) (e'\<lparr>response_buffer := b\<rparr>))" for e e' b
    by (rule Suc.hyps(1)) (use Suc.hyps(2) in auto)
  then have "fst (snd (recv_loop arr sid (Suc n) (e\<lparr>response_buffer := b\<rparr>)))
        = fst (snd (recv_loop arr sid (Suc n) (e'\<lparr>response_buffer := b\<rparr>)))"
    "snd (snd (recv_loop arr sid (Suc n) (e\<lparr>response_buffer := b\<rparr>)))
        = snd (snd (recv_loop arr sid (Suc n) (e'\<lparr>response_buffer := b\<rparr>)))" for e e' b
    by (metis Suc_eq_plus1)+
  note this [of "fst (response_remove sid (response_buffer (foldl (\<lambda>c m. handle_network_response m c) c (arr n))))"
      "foldl (\<lambda>c m. handle_network_response m c) c' (arr n)"
      "foldl (\<lambda>c m. handle_network_response m c) c (arr n)"]
  then show ?case
    by (subst (1 2) recv_loop.simps) (simp add: Let_def case_prod_beta same split: option.split)
qed

lemma query_traffic:
  assumes "same_traffic c c'" shows "snd (query_network env req c') = snd (query_network env req c)"
proof -
  obtain c1 s where c1: "send_to_network env req c = (c1, s)" by fastforce
  obtain c1' where c1': "send_to_network env req c' = (c1', s)" "response_buffer c1' = response_buffer c1"
    using assms c1
    by (auto simp: same_traffic_def send_to_network_def send_with_id_def channel_send_def Let_def case_prod_beta
        split: if_splits)
  show ?thesis
    using recv_traffic [OF c1'(2)]
    by (cases s) (simp_all add: query_network_def c1 c1'(1) recv_from_network_def case_prod_beta)
qed

lemma peers_traffic:
  "same_traffic c c' \<Longrightarrow> snd (replica_peers env rn c') = snd (replica_peers env rn c)"
  using query_traffic [of c c' env GossipsubGetInfo]
  by (auto simp: replica_peers_def case_prod_beta split: sum.split app_response.split)

lemma peers_channel:
  "app_channel (fst (replica_peers env rn c)) = app_channel c
   \<or> (\<exists>sid. app_channel (fst (replica_peers env rn c)) = app_channel c @ [FromApplication sid GossipsubGetInfo])"
proof -
  have "fst (replica_peers env rn c) = fst (query_network env GossipsubGetInfo c)"
    by (auto simp: replica_peers_def case_prod_beta split: sum.split app_response.split)
  then show ?thesis using query_channel [of env GossipsubGetInfo c] by simp
qed

definition sent_about :: "string \<Rightarrow> string \<Rightarrow> core \<Rightarrow> nat" where
  "sent_about rn mid c = count_list (map (confirm_request rn) (app_channel c)) (Some mid)"

lemma query_sends:
  "strong_request rn (FromApplication sid0 req) \<Longrightarrow> list_all (strong_request rn) (app_channel c) \<Longrightarrow>
     list_all (strong_request rn) (app_channel (fst (query_network env req c)))"
  "sent_about rn mid (fst (query_network env req c))
     \<le> sent_about rn mid c + (if confirm_request rn (FromApplication sid0 req) = Some mid then 1 else 0)"
proof -
  have same: "strong_request rn (FromApplication sid req) = strong_request rn (FromApplication sid0 req)"
    "confirm_request rn (FromApplication sid req) = confirm_request rn (FromApplication sid0 req)" for sid
    by (cases req; simp)+
  show "list_all (strong_request rn) (app_channel (fst (query_network env req c)))"
    if "strong_request rn (FromApplication sid0 req)" "list_all (strong_request rn) (app_channel c)"
    using query_channel [of env req c] that same(1) by auto
  show "sent_about rn mid (fst (query_network env req c))
     \<le> sent_about rn mid c + (if confirm_request rn (FromApplication sid0 req) = Some mid then 1 else 0)"
    using query_channel [of env req c]
  proof
    assume "\<exists>sid. app_channel (fst (query_network env req c)) = app_channel c @ [FromApplication sid req]"
    then obtain sid where "app_channel (fst (query_network env req c)) = app_channel c @ [FromApplication sid req]"
      by blast
    then show ?thesis using same(2) [of sid] by (simp add: sent_about_def)
  qed (simp add: sent_about_def)
qed

lemma peers_sends:
  "list_all (strong_request rn) (app_channel c) \<Longrightarrow>
     list_all (strong_request rn) (app_channel (fst (replica_peers env rn c)))"
  "sent_about rn mid (fst (replica_peers env rn c)) = sent_about rn mid c"
  using peers_channel [of env rn c] by (auto simp: sent_about_def)

lemma temp_room: "set (push_temporary_room tq) \<subseteq> set tq"
  by (auto simp: push_temporary_room_def bmap_remove_def split: option.split)

lemma set_rset_insert: "set (rset_insert d q) \<subseteq> insert d (set q)"
  by (simp add: rset_insert_def set_bset_insert)

lemma held_rset_insert: "message_id d \<in> message_id ` set (rset_insert d q)"
proof -
  have "repl_key d \<in> repl_key ` set (rset_insert d q)"
    using keys_bset_insert [of repl_key d q] by (simp add: rset_insert_def bset_keys_def)
  then obtain e where "e \<in> set (rset_insert d q)" "repl_key e = repl_key d" by auto
  then show ?thesis by (auto simp: repl_key_def intro: rev_image_eqI)
qed

lemma queues_simps:
  "public_queue (set_public rn q c) rn = q" "temp_of (set_public rn q c) rn = temp_of c rn"
  "public_queue (set_temp rn tq c) rn = public_queue c rn"
  by (simp_all add: public_queue_def temp_of_def or_default_def)

lemma fields_simps:
  "tasks (set_public rn q c) = tasks c" "tasks (set_temp rn tq c) = tasks c"
  "app_channel (set_public rn q c) = app_channel c" "app_channel (set_temp rn tq c) = app_channel c"
  "consistency_model (replica_buffer (set_public rn q c)) = consistency_model (replica_buffer c)"
  "consistency_model (replica_buffer (set_temp rn tq c)) = consistency_model (replica_buffer c)"
  by (simp_all add: set_public_def set_temp_def set_buffer_def consistency_model_def)

lemma queues_frame:
  "replica_buffer c' = replica_buffer c \<Longrightarrow> public_queue c' rn = public_queue c rn"
  "replica_buffer c' = replica_buffer c \<Longrightarrow> temp_of c' rn = temp_of c rn"
  by (simp_all add: public_queue_def temp_of_def)

text \<open>The data is stored, and the others are told unless it is public at once.\<close>

definition stores_data ::
    "nat \<Rightarrow> consensus_model \<Rightarrow> string \<Rightarrow> repl_buffer_data \<Rightarrow> core \<Rightarrow> core \<Rightarrow> bool" where
  "stores_data p cm rn d c c' \<longleftrightarrow> tasks c' = tasks c
     \<and> consistency_model (replica_buffer c') = consistency_model (replica_buffer c)
     \<and> list_all (strong_request rn) (app_channel c') \<and> holds rn (message_id d) c'
     \<and> (\<forall>mid. sent_about rn mid c' \<le> sent_about rn mid c + (if mid = message_id d then 1 else 0))
     \<and> set (temp_of c' rn) \<subseteq> insert (message_id d, d) (set (temp_of c rn))
     \<and> (set (public_queue c' rn) \<subseteq> set (public_queue c rn)
        \<or> quorum p cm \<le> 1 \<and> set (public_queue c' rn) \<subseteq> insert d (set (public_queue c rn)))"

lemma push_strong_stores:
  assumes "sees_peers p env rn c" "list_all (strong_request rn) (app_channel c)"
    and "gossip_text (message_id d)"
  shows "stores_data p cm rn d c (push_strong env cm rn d c)"
proof -
  let ?c1 = "set_temp rn (push_temporary_room (temp_of c rn)) c"
  obtain c2 peers where p: "replica_peers env rn ?c1 = (c2, peers)" by fastforce
  have "same_traffic c ?c1" by (simp add: same_traffic_def set_temp_def set_buffer_def)
  from peers_traffic [OF this, of env rn] have peers: "length peers = 0 \<or> p \<le> length peers"
    using assms(1) p by (auto simp: sees_peers_def Let_def)
  have c2: "replica_buffer c2 = replica_buffer ?c1" "tasks c2 = tasks c"
    "list_all (strong_request rn) (app_channel c2)" "sent_about rn mid c2 = sent_about rn mid c" for mid
    using peers_frame [of env rn ?c1] peers_sends(1) [of rn ?c1 env] peers_sends(2) [of rn mid env ?c1]
      assms(2) p
    by (simp_all add: fields_simps sent_about_def)
  have q2: "public_queue c2 rn = public_queue c rn" "set (temp_of c2 rn) \<subseteq> set (temp_of c rn)"
    using queues_frame [OF c2(1), of rn] temp_room by (simp_all add: queues_simps)
  show ?thesis
  proof (cases "length peers = 1 \<or> cm = MinPeers 1")
    case True
    have c': "push_strong env cm rn d c = set_public rn (rset_insert d (public_queue c2 rn)) c2"
      using True p by (simp add: push_strong_def Let_def)
    have "quorum p cm \<le> 1" using True peers by (auto simp: quorum_def split: consensus_model.split)
    then show ?thesis
      unfolding c' stores_data_def
      using c2 q2 set_rset_insert [of d "public_queue c rn"] held_rset_insert [of d "public_queue c rn"]
      by (auto simp: queues_simps fields_simps holds_def sent_about_def)
  next
    case False
    let ?c3 = "set_temp rn (push_temporary d (temp_of c2 rn)) c2"
    let ?req = "GossipsubBroadcastMessage rn (strong_message rn (message_id d))"
    define c' where "c' = push_strong env cm rn d c"
    have c': "c' = fst (query_network env ?req ?c3)"
      using False p by (simp add: c'_def push_strong_def Let_def)
    have buf: "replica_buffer c' = replica_buffer ?c3" "tasks c' = tasks c" by (simp_all add: c' fields_simps c2)
    have req: "confirm_request rn (FromApplication sid ?req) = Some (message_id d)"
      "strong_request rn (FromApplication sid ?req)" for sid
      using assms(3) by (auto simp: strong_message_def)
    have sent: "list_all (strong_request rn) (app_channel c')"
      "sent_about rn mid c' \<le> sent_about rn mid c + (if mid = message_id d then 1 else 0)" for mid
      using query_sends(1) [of rn _ ?req ?c3 env] query_sends(2) [of rn mid env ?req ?c3] req c2(3)
        c2(4) [of mid]
      by (auto simp: c' fields_simps sent_about_def)
    have temp: "temp_of c' rn = push_temporary d (temp_of c2 rn)"
      using queues_frame(2) [OF buf(1), of rn] by simp
    then have "set (temp_of c' rn) \<subseteq> insert (message_id d, d) (set (temp_of c rn))"
      using set_bmap_insert [of "message_id d" d "temp_of c2 rn"] q2(2) by (auto simp: push_temporary_def)
    moreover have "holds rn (message_id d) c'"
      by (simp add: holds_def temp push_temporary_def map_of_bmap_insert)
    moreover have "public_queue c' rn = public_queue c rn"
      using queues_frame(1) [OF buf(1), of rn] by (simp add: queues_simps q2)
    moreover have "consistency_model (replica_buffer c') = consistency_model (replica_buffer c)"
      by (simp add: buf c2 fields_simps)
    ultimately show ?thesis using buf(2) sent by (simp add: stores_data_def c'_def)
  qed
qed

lemma drop_loop_subset: "drop_loop cap q = Some r \<Longrightarrow> set r \<subseteq> set q"
  by (cases "cap = 0") (auto simp: drop_loop_zero drop_loop_total word_gt_0 dest: in_set_dropD)

lemma cleanup_subset: "confirm_cleanup cfg now q = Some r \<Longrightarrow> set r \<subseteq> set q"
  by (cases cfg) (auto simp: confirm_cleanup_def dest!: drop_loop_subset split: option.splits if_splits)

text \<open>One more vote for the entry, if there is one; with enough of them it becomes public.\<close>

lemma confirm_entry_votes:
  assumes "confirm_entry R d = Some (d', flag)"
  obtains v v' where "confirmations d = Some v" "confirmations d' = Some v'"
    "unat v' \<in> {unat v, Suc (unat v)}" "message_id d' = message_id d" "flag \<Longrightarrow> R \<noteq> 0 \<and> v' = R"
proof -
  obtain v where v: "confirmations d = Some v"
    using assms by (cases "confirmations d") (simp_all add: confirm_entry_def)
  define v' where "v' = (if v < R then v + 1 else v)"
  have "unat (v + 1) = Suc (unat v)" if "v < R"
    using that unat_u64_le [of R] by (simp add: unat_plus_if' word_less_nat_alt)
  then have "unat v' \<in> {unat v, Suc (unat v)}" by (simp add: v'_def)
  moreover have "confirmations d' = Some v'" "message_id d' = message_id d" "flag \<Longrightarrow> R \<noteq> 0 \<and> v' = R"
    using assms v by (auto simp: confirm_entry_def v'_def Let_def split: if_splits)
  ultimately show thesis by (intro that [of v v']) (use v in auto)
qed

definition counts_vote ::
    "nat \<Rightarrow> consensus_model \<Rightarrow> string \<Rightarrow> string \<Rightarrow> core \<Rightarrow> core \<Rightarrow> bool" where
  "counts_vote p cm rn mid c c' \<longleftrightarrow> tasks c' = tasks c \<and> network_info c' = network_info c
     \<and> consistency_model (replica_buffer c') = consistency_model (replica_buffer c)
     \<and> list_all (strong_request rn) (app_channel c') \<and> (\<forall>m. sent_about rn m c' = sent_about rn m c)
     \<and> (if map_of (temp_of c rn) mid = None then replica_buffer c' = replica_buffer c
        else \<exists>d d' v v'. (mid, d) \<in> set (temp_of c rn) \<and> confirmations d = Some v
           \<and> message_id d' = message_id d \<and> confirmations d' = Some v'
           \<and> unat v' \<in> {unat v, Suc (unat v)}
           \<and> set (temp_of c' rn) \<subseteq> insert (mid, d') (set (temp_of c rn))
           \<and> (set (public_queue c' rn) \<subseteq> set (public_queue c rn)
              \<or> quorum p cm \<le> unat v' \<and> set (public_queue c' rn) \<subseteq> insert d' (set (public_queue c rn))))"

lemma temp_lookup:
  "temp_of c rn = or_default (temporary_queue (replica_buffer c)) rn"
  "public_queue c rn = or_default (queue (replica_buffer c)) rn"
  by (simp_all add: temp_of_def public_queue_def)

lemma confirm_move_sets:
  assumes "confirm_move now rn mid rb = Some rb'"
  shows "set (or_default (temporary_queue rb') rn) \<subseteq> set (or_default (temporary_queue rb) rn)"
    and "set (or_default (queue rb') rn) \<subseteq> set (or_default (queue rb) rn)
       \<or> (\<exists>d. map_of (or_default (temporary_queue rb) rn) mid = Some d
          \<and> set (or_default (queue rb') rn) \<subseteq> insert d (set (or_default (queue rb) rn)))"
    and "config rb' = config rb"
proof -
  obtain q where q: "confirm_cleanup (config rb) now (or_default (queue rb) rn) = Some q"
    using assms by (auto simp: confirm_move_def)
  have sub: "set q \<subseteq> set (or_default (queue rb) rn)" by (rule cleanup_subset [OF q])
  show "set (or_default (temporary_queue rb') rn) \<subseteq> set (or_default (temporary_queue rb) rn)"
    "config rb' = config rb"
    using assms q by (auto simp: confirm_move_def Let_def or_default_def bmap_remove_def split: option.splits)
  show "set (or_default (queue rb') rn) \<subseteq> set (or_default (queue rb) rn)
       \<or> (\<exists>d. map_of (or_default (temporary_queue rb) rn) mid = Some d
          \<and> set (or_default (queue rb') rn) \<subseteq> insert d (set (or_default (queue rb) rn)))"
    using assms q sub set_rset_insert
    by (fastforce simp: confirm_move_def Let_def or_default_def split: option.splits)
qed

lemma handle_confirmation_counts:
  assumes "handle_data_confirmation env rn mid c = Some c'" "sees_peers p env rn c"
    and "consistency_model (replica_buffer c) = Strong cm" "list_all (strong_request rn) (app_channel c)"
  shows "counts_vote p cm rn mid c c'"
proof -
  obtain c1 R where R: "required_peers env rn c = (c1, R)" by fastforce
  have c1: "replica_buffer c1 = replica_buffer c" "tasks c1 = tasks c" "network_info c1 = network_info c"
    "list_all (strong_request rn) (app_channel c1)" "sent_about rn m c1 = sent_about rn m c" for m
    using R peers_frame [of env rn c] peers_sends(1) [of rn c env] peers_sends(2) [of rn m env c] assms(3,4)
    by (auto simp: required_peers_def case_prod_beta split: consensus_model.splits)
  have enough: "quorum p cm \<le> unat R" if "R \<noteq> 0"
  proof (cases cm)
    case All_Peers
    then have "R = of_nat (length (snd (replica_peers env rn c)))"
      using R assms(3) by (simp add: required_peers_def case_prod_beta)
    with assms(2) have "unat R = length (snd (replica_peers env rn c))"
      by (simp add: sees_peers_def Let_def unsigned_of_nat take_bit_nat_eq_self)
    moreover have "unat R \<noteq> 0" using that by (simp add: unat_eq_zero)
    ultimately show ?thesis using assms(2) All_Peers by (auto simp: sees_peers_def Let_def quorum_def)
  next
    case (MinPeers k)
    then show ?thesis using R assms(3) by (simp add: required_peers_def quorum_def)
  qed
  obtain rb where rb: "confirm_with R (clock env 0) rn mid (replica_buffer c) = Some rb" "c' = set_buffer rb c1"
    using assms(1) R c1(1) by (auto simp: handle_data_confirmation_def)
  obtain rb1 flag where t: "confirm_temp R rn mid (replica_buffer c) = Some (rb1, flag)"
    "(if flag then confirm_move (clock env 0) rn mid rb1 else Some rb1) = Some rb"
    using rb(1) by (auto simp: confirm_with_def bind_eq_Some_conv)
  have frame: "tasks c' = tasks c" "network_info c' = network_info c" "app_channel c' = app_channel c1"
    "replica_buffer c' = rb" using rb(2) c1 by (simp_all add: set_buffer_def)
  show ?thesis
  proof (cases "map_of (temp_of c rn) mid")
    case None
    then have "rb1 = replica_buffer c \<and> \<not> flag"
      using t(1) by (auto simp: confirm_temp_def temp_of_def or_default_def split: option.splits)
    then have "replica_buffer c' = replica_buffer c" using t(2) frame(4) by simp
    then show ?thesis using None frame c1 by (simp add: counts_vote_def sent_about_def)
  next
    case (Some d)
    then obtain tq where tq: "temporary_queue (replica_buffer c) rn = Some tq" "map_of tq mid = Some d"
      by (auto simp: temp_of_def or_default_def split: option.splits)
    then obtain d' where d': "confirm_entry R d = Some (d', flag)"
      "rb1 = (replica_buffer c)\<lparr>temporary_queue :=
         (temporary_queue (replica_buffer c))(rn \<mapsto> bmap_insert mid d' tq)\<rparr>"
      using t(1) by (auto simp: confirm_temp_def)
    obtain v v' where v: "confirmations d = Some v" "confirmations d' = Some v'"
      "unat v' \<in> {unat v, Suc (unat v)}" "message_id d' = message_id d" "flag \<Longrightarrow> R \<noteq> 0 \<and> v' = R"
      using confirm_entry_votes [OF d'(1)] by blast
    have look: "or_default (temporary_queue rb1) rn = bmap_insert mid d' tq"
      "or_default (queue rb1) rn = public_queue c rn" "config rb1 = config (replica_buffer c)"
      using d'(2) by (simp_all add: or_default_def public_queue_def)
    have rb_sets: "set (or_default (temporary_queue rb) rn) \<subseteq> set (bmap_insert mid d' tq)"
      "set (or_default (queue rb) rn) \<subseteq> set (public_queue c rn)
         \<or> flag \<and> set (or_default (queue rb) rn) \<subseteq> insert d' (set (public_queue c rn))"
      "config rb = config (replica_buffer c)"
    proof -
      have "flag \<Longrightarrow> confirm_move (clock env 0) rn mid rb1 = Some rb" "\<not> flag \<Longrightarrow> rb = rb1"
        using t(2) by simp_all
      then show "set (or_default (temporary_queue rb) rn) \<subseteq> set (bmap_insert mid d' tq)"
        "set (or_default (queue rb) rn) \<subseteq> set (public_queue c rn)
         \<or> flag \<and> set (or_default (queue rb) rn) \<subseteq> insert d' (set (public_queue c rn))"
        "config rb = config (replica_buffer c)"
        using confirm_move_sets [of "clock env 0" rn mid rb1 rb]
        by (cases flag; simp add: look map_of_bmap_insert)+
    qed
    have "set (temp_of c' rn) \<subseteq> insert (mid, d') (set (temp_of c rn))"
      using rb_sets(1) set_bmap_insert [of mid d' tq] tq(1) frame(4) by (auto simp: temp_of_def or_default_def)
    moreover have "set (public_queue c' rn) \<subseteq> set (public_queue c rn)
        \<or> quorum p cm \<le> unat v' \<and> set (public_queue c' rn) \<subseteq> insert d' (set (public_queue c rn))"
      using rb_sets(2) v(5) enough frame(4) by (auto simp: public_queue_def)
    moreover have "(mid, d) \<in> set (temp_of c rn)" using Some by (rule map_of_SomeD)
    moreover have "consistency_model (replica_buffer c') = consistency_model (replica_buffer c)"
      using rb_sets(3) frame(4) by (simp add: consistency_model_def)
    ultimately show ?thesis
      using Some v(1-4) frame c1 by (auto simp: counts_vote_def sent_about_def)
  qed
qed

section \<open>The steps refine those of the ballot\<close>

lemma count_remove_task:
  "x \<in> set xs \<Longrightarrow> count_list (map f xs) y = count_list (map f (remove1 x xs)) y + (if f x = y then 1 else 0)"
  by (induction xs) auto

lemma votes_mono: "ds' \<subseteq> ds \<Longrightarrow> votes_in mid ds' \<subseteq> votes_in mid ds"
  by (auto simp: votes_in_def)

text \<open>An entry without a count, as a clone brings it, has no vote.\<close>

definition uncounted :: "repl_buffer_data set" where "uncounted = {d. confirmations d = None}"

lemma votes_quiet: "ds' \<subseteq> ds \<union> uncounted \<Longrightarrow> votes_in mid ds' \<subseteq> votes_in mid ds"
  unfolding votes_in_def uncounted_def by fastforce

lemma votes_insert:
  "votes_in mid (insert d ds) \<subseteq>
     (if message_id d = mid then unat ` set_option (confirmations d) else {}) \<union> votes_in mid ds"
  by (auto simp: votes_in_def)

lemma ballot_simps [simp]:
  "origin (ballot_of rn mid g) = map_of (map (\<lambda>x. (logged_id x, fst x)) (grp_log g)) mid"
  "data_due (ballot_of rn mid g) j = count (image_mset data_of (in_flight g j)) (Some mid)
     + count_list (map (data_task rn) (tasks (node (grp_nodes g j)))) (Some mid)"
  "conf_sent (ballot_of rn mid g) j = sent_about rn mid (node (grp_nodes g j))"
  "conf_due (ballot_of rn mid g) j = count (image_mset confirm_of (in_flight g j)) (Some mid)
     + count_list (map (vote_task rn) (tasks (node (grp_nodes g j)))) (Some mid)"
  "missed (ballot_of rn mid g) j = count (unmatched g) (j, mid)"
  "has_held (ballot_of rn mid g) = {j. (j, mid) \<in> held g}"
  "votes (ballot_of rn mid g) j = votes_in mid (entries rn (node (grp_nodes g j)))"
  "public_votes (ballot_of rn mid g) j = votes_in mid (set (public_queue (node (grp_nodes g j)) rn))"
  by (simp_all add: ballot_of_def sent_about_def)

lemma set_node_more [simp]:
  "held (set_node i ls g) = held g" "unmatched (set_node i ls g) = unmatched g"
  "held (publish_from i msg g) = held g" "unmatched (publish_from i msg g) = unmatched g"
  by (simp_all add: set_node_def publish_from_def)

text \<open>A node that serves its channel or its application gains no vote.\<close>

definition quieter :: "string \<Rightarrow> core \<Rightarrow> core \<Rightarrow> bool" where
  "quieter rn c' c \<longleftrightarrow> tasks c' = tasks c \<and> (\<forall>mid. sent_about rn mid c' \<le> sent_about rn mid c)
     \<and> set (temp_of c' rn) \<subseteq> set (temp_of c rn)
     \<and> set (public_queue c' rn) \<subseteq> set (public_queue c rn) \<union> uncounted"

lemma quieter_entries: "quieter rn c' c \<Longrightarrow> entries rn c' \<subseteq> entries rn c \<union> uncounted"
  by (auto simp: quieter_def entries_def)

lemma quieter_ballot:
  assumes "quieter rn (node ls) (node (grp_nodes g i))"
  shows "ballot_le (ballot_of rn mid (set_node i ls g)) (ballot_of rn mid g)"
  using assms votes_quiet [OF quieter_entries [OF assms]]
    votes_quiet [of "set (public_queue (node ls) rn)" "set (public_queue (node (grp_nodes g i)) rn)"]
  by (auto simp: ballot_le_def fun_eq_iff quieter_def)

lemma quieter_member:
  assumes "quieter rn c' c" "strong_member cm rn c" "list_all (strong_request rn) (app_channel c')"
    and "consistency_model (replica_buffer c') = consistency_model (replica_buffer c)" "repl_cfg c' rn \<noteq> None"
  shows "strong_member cm rn c'"
  using assms quieter_entries [OF assms(1)] by (auto simp: strong_member_def quieter_def)

lemma replicate_quieter:
  fixes env data rn c
  defines "c' \<equiv> fst (replicate_data env data rn c)"
  assumes "list_all gossip_text data" "strong_member cm rn c"
  shows "quieter rn c' c" "strong_member cm rn c'"
proof -
  note frame = replicate_member [where env = env and data = data and rn = rn and c = c, folded c'_def]
  have sent: "list_all (strong_request rn) (app_channel c') \<and> (\<forall>mid. sent_about rn mid c' \<le> sent_about rn mid c)"
  proof (cases "repl_cfg c rn")
    case None
    then show ?thesis using assms(3) by (simp add: c'_def replicate_data_def strong_member_def)
  next
    case (Some d)
    let ?clk = "saturating_add (cfg_clock d) 1"
    let ?c1 = "set_replication ((replication (network_info c))(rn \<mapsto> d\<lparr>cfg_clock := ?clk\<rparr>)) c"
    let ?req = "GossipsubBroadcastMessage rn (repl_message (clock env 0) ?clk rn data)"
    have c': "c' = fst (query_network env ?req ?c1)"
      using Some by (simp add: c'_def replicate_data_def Let_def case_prod_beta split: sum.split)
    have ch: "app_channel ?c1 = app_channel c" by (simp add: set_replication_def)
    have "STRONG_CONSISTENCY_FLAG \<noteq> REPL_GOSSIP_FLAG" using flags_distinct(1) by auto
    then have req: "strong_request rn (FromApplication sid ?req)"
      "confirm_request rn (FromApplication sid ?req) = None" for sid
      using assms(2) by (auto simp: nth_repl_message)
    have "list_all (strong_request rn) (app_channel ?c1)" using assms(3) ch by (simp add: strong_member_def)
    then have "list_all (strong_request rn) (app_channel c')" unfolding c' by (rule query_sends(1) [OF req(1)])
    moreover have "sent_about rn mid c' \<le> sent_about rn mid c" for mid
    proof -
      have "sent_about rn mid c' \<le> sent_about rn mid ?c1"
        using query_sends(2) [of rn mid env ?req ?c1] unfolding c' req(2) by simp
      then show ?thesis using ch by (simp add: sent_about_def)
    qed
    ultimately show ?thesis by blast
  qed
  show "quieter rn c' c" using frame sent queues_frame [OF frame(1), of rn] by (simp add: quieter_def)
  then show "strong_member cm rn c'"
    by (rule quieter_member [OF _ assms(3)])
      (use sent frame assms(3) in \<open>simp_all add: strong_member_def\<close>)
qed

lemma bset_remove_subset: "set (bset_remove key x xs) \<subseteq> set xs"
  by (induction key x xs rule: bset_remove.induct) auto

lemma consume_quieter:
  assumes "strong_member cm rn c"
  shows "quieter rn (fst (consume_repl_data rn c)) c" "strong_member cm rn (fst (consume_repl_data rn c))"
proof -
  let ?c' = "fst (consume_repl_data rn c)"
  have same: "app_channel ?c' = app_channel c" "tasks ?c' = tasks c" "repl_cfg ?c' rn \<noteq> None"
    using assms
    by (auto simp: consume_repl_data_def pop_front_queue_def Let_def set_replication_def set_buffer_def
        repl_cfg_def strong_member_def split: option.splits)
  have buf: "temp_of ?c' rn = temp_of c rn" "set (public_queue ?c' rn) \<subseteq> set (public_queue c rn)"
    "consistency_model (replica_buffer ?c') = consistency_model (replica_buffer c)"
    using bset_remove_subset [of repl_key]
    by (auto simp: consume_repl_data_def pop_front_queue_def Let_def set_replication_def set_buffer_def
        temp_of_def public_queue_def or_default_def consistency_model_def rset_remove_def split: option.splits)
  show "quieter rn ?c' c" using same buf by (auto simp: quieter_def sent_about_def)
  then show "strong_member cm rn ?c'"
    by (rule quieter_member [OF _ assms])
      (use same buf assms in \<open>simp_all add: strong_member_def\<close>)
qed

lemma unmarshalled_uncounted: "set (unmarshal_messages cd msgs) \<subseteq> uncounted"
  by (auto simp: uncounted_def unmarshal_messages_def unmarshal_entry_def map_filter_def Let_def
      split: if_splits option.splits)

lemma insert_all_subset: "set (insert_all ds q) \<subseteq> set ds \<union> set q"
  unfolding insert_all_def
proof (induction ds arbitrary: q)
  case (Cons d ds)
  from Cons.IH [of "rset_insert d q"] set_rset_insert [of d q] show ?case by auto
qed simp

lemma clone_quieter:
  assumes "strong_member cm rn c"
  shows "quieter rn (fst (replicate_buffer cd env rn peer c)) c"
    and "strong_member cm rn (fst (replicate_buffer cd env rn peer c))"
proof -
  let ?c' = "fst (replicate_buffer cd env rn peer c)" and ?req = "clone_request rn peer"
  have "quieter rn ?c' c \<and> list_all (strong_request rn) (app_channel ?c')
     \<and> consistency_model (replica_buffer ?c') = consistency_model (replica_buffer c)
     \<and> repl_cfg ?c' rn = repl_cfg c rn"
  proof (cases "queue (replica_buffer c) rn")
    case None
    then show ?thesis
      using assms by (auto simp: replicate_buffer_def clone_buffer_def quieter_def strong_member_def)
  next
    case (Some q)
    obtain c1 res where r: "query_network env ?req c = (c1, res)" by fastforce
    have c1: "replica_buffer c1 = replica_buffer c" "tasks c1 = tasks c" "repl_cfg c1 rn = repl_cfg c rn"
      using query_frame [of env ?req c] r by (simp_all add: repl_cfg_def)
    have q: "public_queue c rn = q" using Some by (simp add: public_queue_def or_default_def)
    have req: "strong_request rn (FromApplication sid ?req)" "confirm_request rn (FromApplication sid ?req) = None"
      for sid by (simp_all add: clone_request_def)
    have sent: "list_all (strong_request rn) (app_channel c1)" "sent_about rn mid c1 \<le> sent_about rn mid c" for mid
      using query_sends(1) [OF req(1), of c env] query_sends(2) [of rn mid env ?req c] assms
      unfolding r req(2) by (simp_all add: strong_member_def)
    obtain q' where c': "?c' = c1 \<or> ?c' = set_public rn q' c1" "set q' \<subseteq> set q \<union> uncounted"
    proof (cases "\<exists>msgs. res = Inr (SendRpc_Resp msgs)")
      case True
      then obtain msgs where "?c' = set_public rn (insert_all (unmarshal_messages cd msgs) q) c1"
        using assms r Some by (auto simp: replicate_buffer_def clone_buffer_def strong_member_def)
      moreover have "set (insert_all (unmarshal_messages cd msgs) q) \<subseteq> set q \<union> uncounted"
        using insert_all_subset [of "unmarshal_messages cd msgs" q] unmarshalled_uncounted [of cd msgs] by blast
      ultimately show thesis using that by blast
    next
      case False
      then have "?c' = c1" using assms r Some
        by (auto simp: replicate_buffer_def clone_buffer_def strong_member_def split: sum.splits app_response.splits)
      then show thesis using that [of q] by blast
    qed
    have set: "app_channel (set_public rn q' c1) = app_channel c1" "repl_cfg (set_public rn q' c1) rn = repl_cfg c1 rn"
      "sent_about rn mid (set_public rn q' c1) = sent_about rn mid c1" for mid
      by (simp_all add: set_public_def set_buffer_def repl_cfg_def sent_about_def)
    have old: "temp_of c1 rn = temp_of c rn" "public_queue c1 rn = q"
      using queues_frame [OF c1(1), of rn] q by simp_all
    from c'(1) show ?thesis
    proof
      assume e: "?c' = c1"
      show ?thesis unfolding e using c1 sent old q by (simp add: quieter_def)
    next
      assume e: "?c' = set_public rn q' c1"
      show ?thesis unfolding e using c1 sent old q set c'(2) by (simp add: quieter_def queues_simps fields_simps)
    qed
  qed
  then have c': "quieter rn ?c' c" "list_all (strong_request rn) (app_channel ?c')"
    "consistency_model (replica_buffer ?c') = consistency_model (replica_buffer c)" "repl_cfg ?c' rn = repl_cfg c rn"
    by blast+
  moreover have "repl_cfg c rn \<noteq> None" using assms by (simp add: strong_member_def)
  ultimately show "quieter rn ?c' c" "strong_member cm rn ?c'"
    using quieter_member [OF c'(1) assms c'(2,3)] by simp_all
qed

definition refines :: "nat \<Rightarrow> consensus_model \<Rightarrow> string \<Rightarrow> ('n::finite) strong_group \<Rightarrow> 'n strong_group \<Rightarrow> bool" where
  "refines p cm rn g g' \<longleftrightarrow> strong_shape cm rn g' \<and>
     (\<forall>mid. ballot_step (quorum p cm) (ballot_of rn mid g) (ballot_of rn mid g'))"

lemma refines_quiet:
  assumes "strong_shape cm rn g" "quieter rn (node ls) (node (grp_nodes g i))" "strong_member cm rn (node ls)"
  shows "refines p cm rn g (set_node i ls g)"
  using assms quieter_ballot [OF assms(2)] by (auto simp: refines_def strong_shape_def intro: b_lose)

lemma ballot_le_refl [simp]: "ballot_le b b"
  by (simp add: ballot_le_def)

lemma served_quieter:
  assumes "app_channel (node ls) = item # rest"
    and "node ls' = (node ls)\<lparr>app_channel := rest\<rparr>" "strong_member cm rn (node ls)"
  shows "quieter rn (node ls') (node ls)" "strong_member cm rn (node ls')"
proof -
  have same: "replica_buffer (node ls') = replica_buffer (node ls)" using assms(2) by simp
  show q: "quieter rn (node ls') (node ls)"
    using assms(1,2) queues_frame [OF same, of rn] by (simp add: quieter_def sent_about_def)
  show "strong_member cm rn (node ls')"
    by (rule quieter_member [OF q assms(3)]) (use assms in \<open>simp_all add: strong_member_def repl_cfg_def\<close>)
qed

lemma answered: "app_channel (node ls) = FromApplication sid GossipsubGetInfo # rest \<Longrightarrow>
    node (receive_request cd sw ls) = (node ls)\<lparr>app_channel := rest\<rparr>"
  by (simp add: receive_request_def update_node_def respond_def)

lemma asked: "app_channel (node ls) = FromApplication sid (SendRpc keys peer) # rest \<Longrightarrow>
    node (receive_request cd sw ls) = (node ls)\<lparr>app_channel := rest\<rparr>"
  by (simp add: receive_request_def update_node_def handle_send_rpc_def Let_def make_call_def)

text \<open>A message that is published is on its way to all the others.\<close>

lemma data_message:
  assumes "published rn (repl_message sent clk rn data) msg" "list_all gossip_text data" "gossip_text rn"
  shows "data_of msg = Some (gossip_id msg)" "confirm_of msg = None" "carries_repl rn msg"
proof -
  have "gossip_fields (gossip_payload msg) = repl_message sent clk rn data"
    by (rule published_fields [OF assms(1)]) (use assms in \<open>simp_all add: repl_message_def\<close>)
  moreover have "REPL_GOSSIP_FLAG \<noteq> STRONG_CONSISTENCY_FLAG" using flags_distinct(1) by auto
  ultimately show "data_of msg = Some (gossip_id msg)" "confirm_of msg = None"
    by (simp_all add: data_of_def confirm_of_def Let_def nth_repl_message)
  show "carries_repl rn msg" using assms by (auto simp: carries_repl_def)
qed

lemma confirm_message:
  assumes "published rn (strong_message rn mid) msg" "gossip_text mid" "gossip_text rn"
  shows "data_of msg = None" "confirm_of msg = Some mid" "carries_confirm rn msg"
proof -
  have "REPL_GOSSIP_FLAG \<noteq> STRONG_CONSISTENCY_FLAG" using flags_distinct(1) by auto
  then show "data_of msg = None" "confirm_of msg = Some mid"
    using strong_gossip_spawns(1) [OF assms(1,3,2)]
    by (auto simp: data_of_def confirm_of_def Let_def strong_message_def)
  show "carries_confirm rn msg" using assms by (auto simp: carries_confirm_def)
qed

text \<open>A group whose node \<open>i\<close> has served the head of its channel, with a message on its way.\<close>

lemma shape_published:
  assumes "strong_shape cm rn g" "strong_member cm rn (node ls)"
    and "carries_repl rn msg \<or> carries_confirm rn msg"
  shows "strong_shape cm rn (set_node i ls (publish_from i msg g))"
  using assms by (auto simp: strong_shape_def)

lemma refines_publish:
  fixes g :: "('n::finite) strong_group"
  assumes "strong_shape cm rn g"
    and ch: "app_channel (node (grp_nodes g i))
           = FromApplication sid (GossipsubBroadcastMessage rn (repl_message sent clk rn data)) # rest"
    and msg: "published rn (repl_message sent clk rn data) msg" "gossip_id msg = mid"
    and fresh: "mid \<notin> logged_id ` set (grp_log g)" "gossip_text mid"
  shows "refines p cm rn g ((set_node i (receive_request cd sw (grp_nodes g i)) (publish_from i msg g))
           \<lparr>grp_log := grp_log g @ [(i, clk, mid, data)]\<rparr>)"
proof -
  let ?ls = "receive_request cd sw (grp_nodes g i)"
  let ?g' = "(set_node i ?ls (publish_from i msg g))\<lparr>grp_log := grp_log g @ [(i, clk, mid, data)]\<rparr>"
  have m: "strong_member cm rn (node (grp_nodes g i))" "gossip_text rn"
    using assms(1) by (simp_all add: strong_shape_def)
  then have "strong_request rn (FromApplication sid (GossipsubBroadcastMessage rn (repl_message sent clk rn data)))"
    using ch by (simp add: strong_member_def)
  moreover have "repl_message sent clk rn data \<noteq> strong_message rn m'" for m'
    using flags_distinct(1) by (auto simp: repl_message_def strong_message_def)
  ultimately have "list_all gossip_text data" by (auto simp: repl_message_def)
  note msg' = data_message [OF msg(1) this m(2)]
  note q = served_quieter [OF ch broadcast_served(1) [OF ch] m(1), of cd sw]
  have "strong_shape cm rn (set_node i ?ls (publish_from i msg g))"
    by (rule shape_published [OF assms(1) q(2)]) (simp add: msg'(3))
  then have "strong_shape cm rn ?g'" using fresh(2) by (simp add: strong_shape_def logged_id_def)
  moreover have "ballot_step (quorum p cm) (ballot_of rn mid' g) (ballot_of rn mid' ?g')"
    for mid'
  proof (cases "mid' = mid")
    case True
    have none: "map_of (map (\<lambda>x. (logged_id x, fst x)) (grp_log g)) mid = None"
      using fresh(1) by (auto simp: map_of_eq_None_iff)
    show ?thesis unfolding True
      by (rule b_publish [where i = i, OF _ refl])
        (use none q(1) msg' msg(2) votes_quiet [OF quieter_entries [OF q(1)]]
           votes_quiet [of "set (public_queue (node ?ls) rn)" "set (public_queue (node (grp_nodes g i)) rn)"]
         in \<open>auto simp: ballot_le_def fun_eq_iff quieter_def logged_id_def map_add_def\<close>)
  next
    case False
    then have "ballot_le (ballot_of rn mid' ?g') (ballot_of rn mid' g)"
      using q(1) msg' msg(2) votes_quiet [OF quieter_entries [OF q(1)]]
        votes_quiet [of "set (public_queue (node ?ls) rn)" "set (public_queue (node (grp_nodes g i)) rn)"]
      by (auto simp: ballot_le_def fun_eq_iff quieter_def logged_id_def map_add_def split: option.split)
    then show ?thesis by (rule b_lose)
  qed
  ultimately show ?thesis by (simp add: refines_def)
qed

lemma refines_confirm:
  fixes g :: "('n::finite) strong_group"
  assumes "strong_shape cm rn g"
    and ch: "app_channel (node (grp_nodes g i))
           = FromApplication sid (GossipsubBroadcastMessage rn (strong_message rn mid)) # rest"
    and msg: "published rn (strong_message rn mid) msg"
  shows "refines p cm rn g (set_node i (receive_request cd sw (grp_nodes g i)) (publish_from i msg g))"
proof -
  let ?ls = "receive_request cd sw (grp_nodes g i)"
  let ?g' = "set_node i ?ls (publish_from i msg g)"
  have m: "strong_member cm rn (node (grp_nodes g i))" "gossip_text rn"
    using assms(1) by (simp_all add: strong_shape_def)
  then have "strong_request rn (FromApplication sid (GossipsubBroadcastMessage rn (strong_message rn mid)))"
    using ch by (simp add: strong_member_def)
  moreover have "REPL_GOSSIP_FLAG \<noteq> STRONG_CONSISTENCY_FLAG" using flags_distinct(1) by auto
  ultimately have "gossip_text mid" by (auto simp: strong_message_def repl_message_def)
  note msg' = confirm_message [OF msg this m(2)]
  note q = served_quieter [OF ch broadcast_served(1) [OF ch] m(1), of cd sw]
  have "strong_shape cm rn ?g'" by (rule shape_published [OF assms(1) q(2)]) (simp add: msg'(3))
  moreover have "ballot_step (quorum p cm) (ballot_of rn mid' g) (ballot_of rn mid' ?g')"
    for mid'
  proof (cases "mid' = mid")
    case True
    have head: "sent_about rn mid (node (grp_nodes g i)) = Suc (sent_about rn mid (node ?ls))"
      using ch broadcast_served(1) [OF ch, of cd sw] by (simp add: sent_about_def strong_message_def)
    show ?thesis unfolding True
      by (rule b_spread [where k = i and n = "sent_about rn mid (node ?ls)", OF _ refl])
        (use head q(1) msg' votes_quiet [OF quieter_entries [OF q(1)]]
           votes_quiet [of "set (public_queue (node ?ls) rn)" "set (public_queue (node (grp_nodes g i)) rn)"]
         in \<open>auto simp: ballot_le_def fun_eq_iff quieter_def\<close>)
  next
    case False
    then have "ballot_le (ballot_of rn mid' ?g') (ballot_of rn mid' g)"
      using q(1) msg' votes_quiet [OF quieter_entries [OF q(1)]]
        votes_quiet [of "set (public_queue (node ?ls) rn)" "set (public_queue (node (grp_nodes g i)) rn)"]
      by (auto simp: ballot_le_def fun_eq_iff quieter_def)
    then show ?thesis by (rule b_lose)
  qed
  ultimately show ?thesis by (simp add: refines_def)
qed

lemma strong_data_spawns:
  assumes "published rn (repl_message sent clk rn data) msg" "list_all gossip_text data" "gossip_text rn"
    and "consistency_model (replica_buffer (node ls)) = Strong cm"
  shows "\<exists>d. handle_gossip cd now msg ls = Some (update_node (spawn (IncomingReplData rn d)) ls)
     \<and> message_id d = gossip_id msg \<and> confirmations d = Some 1"
proof -
  have fields: "gossip_fields (gossip_payload msg) = repl_message sent clk rn data"
    by (rule published_fields [OF assms(1)]) (use assms in \<open>simp_all add: repl_message_def\<close>)
  obtain d where "incoming_repl now msg (repl_message sent clk rn data) (node ls) = Some (rn, d)"
    "message_id d = gossip_id msg" "confirmations d = Some 1"
    using assms(4) by (simp add: incoming_repl_def repl_message_def index_def slice_from_def)
  then show ?thesis
    by (intro exI [of _ d])
      (simp add: handle_gossip_def fields Let_def index_def handle_repl_gossip_def nth_repl_message)
qed

lemma spawned_member:
  assumes "strong_member cm rn (node ls)" "strong_task rn t"
  shows "strong_member cm rn (node (update_node (spawn t) ls))"
  using assms
  by (simp add: strong_member_def update_node_def spawn_def repl_cfg_def entries_def temp_of_def
      public_queue_def)

text \<open>A message that arrives becomes a task; nothing is gained or lost.\<close>

lemma received_task:
  assumes "strong_member cm rn (node ls)" "gossip_text rn" "carries_repl rn msg \<or> carries_confirm rn msg"
    and "handle_gossip cd now msg ls = Some ls'"
  obtains t where "ls' = update_node (spawn t) ls" "strong_task rn t"
    "data_task rn t = data_of msg" "vote_task rn t = confirm_of msg"
  using assms(3)
proof
  assume "carries_repl rn msg"
  then obtain sent clk data where m: "published rn (repl_message sent clk rn data) msg" "list_all gossip_text data"
    by (auto simp: carries_repl_def)
  have "consistency_model (replica_buffer (node ls)) = Strong cm" using assms(1) by (simp add: strong_member_def)
  from strong_data_spawns [OF m assms(2) this, of cd now] obtain d where
    "ls' = update_node (spawn (IncomingReplData rn d)) ls" "message_id d = gossip_id msg" "confirmations d = Some 1"
    using assms(4) by auto
  with that show thesis using data_message [OF m assms(2)] by simp
next
  assume "carries_confirm rn msg"
  then obtain mid where m: "published rn (strong_message rn mid) msg" "gossip_text mid"
    by (auto simp: carries_confirm_def)
  have "ls' = update_node (spawn (DataConfirmation rn mid)) ls"
    using strong_gossip_spawns(2) [OF m(1) assms(2) m(2), of cd now ls] assms(4) by simp
  with that show thesis using confirm_message [OF m assms(2)] by simp
qed

lemma refines_receive:
  assumes "strong_shape cm rn g" "msg \<in># in_flight g j" "handle_gossip cd now msg (grp_nodes g j) = Some ls"
  shows "refines p cm rn g ((set_node j ls g)\<lparr>in_flight := (in_flight g)(j := in_flight g j - {#msg#})\<rparr>)"
proof -
  let ?g' = "(set_node j ls g)\<lparr>in_flight := (in_flight g)(j := in_flight g j - {#msg#})\<rparr>"
  have m: "strong_member cm rn (node (grp_nodes g j))" "gossip_text rn" "carries_repl rn msg \<or> carries_confirm rn msg"
    using assms(1,2) by (auto simp: strong_shape_def)
  obtain t where t: "ls = update_node (spawn t) (grp_nodes g j)" "strong_task rn t"
    "data_task rn t = data_of msg" "vote_task rn t = confirm_of msg"
    using received_task [OF m assms(3)] by blast
  have "strong_shape cm rn ?g'"
    using assms(1) spawned_member [OF m(1) t(2)] t(1) by (auto simp: strong_shape_def dest: in_diffD)
  moreover have "ballot_of rn mid ?g' = ballot_of rn mid g" for mid
  proof -
    obtain M where M: "in_flight g j = add_mset msg M" using assms(2) by (metis insert_DiffM)
    have "replica_buffer (node ls) = replica_buffer (node (grp_nodes g j))"
      "app_channel (node ls) = app_channel (node (grp_nodes g j))"
      "tasks (node ls) = tasks (node (grp_nodes g j)) @ [t]"
      by (simp_all add: t(1) update_node_def spawn_def)
    then show ?thesis
      using queues_frame [of "node ls" "node (grp_nodes g j)" rn] M t(3,4)
      by (auto simp: ballot_of_def fun_eq_iff entries_def)
  qed
  ultimately show ?thesis by (auto simp: refines_def intro: b_lose)
qed

lemma incoming_stores:
  assumes "run_task cd env (IncomingReplData rn d) c = Some c'" "strong_member cm rn c"
    and "sees_peers p env rn c" "gossip_text (message_id d)"
  shows "stores_data p cm rn d c c'" "repl_cfg c' rn \<noteq> None"
proof -
  obtain cfg where cfg: "repl_cfg c rn = Some cfg" using assms(2) by (auto simp: strong_member_def)
  let ?ev = "ReplicaDataIncoming (rdata d) rn (outgoing_timestamp d) (incoming_timestamp d) (message_id d) (sender d)"
  let ?c0 = "set_replication ((replication (network_info (push_event ?ev c)))
      (rn \<mapsto> bump_clock (lamport_clock d) cfg)) (push_event ?ev c)"
  have same: "replica_buffer ?c0 = replica_buffer c" "tasks ?c0 = tasks c" "app_channel ?c0 = app_channel c"
    "same_traffic c ?c0"
    by (simp_all add: set_replication_def push_event_def same_traffic_def)
  have c': "c' = push_strong env cm rn d ?c0"
    using assms(1,2) cfg same(1)
    by (auto simp: handle_incoming_repl_data_def repl_push_def strong_member_def repl_cfg_def Let_def)
  have "sees_peers p env rn ?c0"
    using assms(3) peers_traffic [OF same(4)] by (simp add: sees_peers_def)
  moreover have "list_all (strong_request rn) (app_channel ?c0)" using assms(2) same(3) by (simp add: strong_member_def)
  ultimately have "stores_data p cm rn d ?c0 c'" unfolding c' by (rule push_strong_stores [OF _ _ assms(4)])
  then show "stores_data p cm rn d c c'"
    using same queues_frame [OF same(1), of rn] by (simp add: stores_data_def sent_about_def)
  show "repl_cfg c' rn \<noteq> None" by (simp add: c' repl_cfg_def set_replication_def)
qed

lemma stores_entries:
  assumes "stores_data p cm rn d c c'" shows "entries rn c' \<subseteq> insert d (entries rn c)"
proof -
  have "set (temp_of c' rn) \<subseteq> insert (message_id d, d) (set (temp_of c rn))"
    and pub: "set (public_queue c' rn) \<subseteq> set (public_queue c rn)
       \<or> quorum p cm \<le> 1 \<and> set (public_queue c' rn) \<subseteq> insert d (set (public_queue c rn))"
    using assms by (simp_all add: stores_data_def)
  then have "snd ` set (temp_of c' rn) \<subseteq> insert d (snd ` set (temp_of c rn))" by force
  moreover have "set (public_queue c' rn) \<subseteq> insert d (set (public_queue c rn))" using pub by blast
  ultimately show ?thesis unfolding entries_def by blast
qed

lemma stored_strong_member:
  assumes "stores_data p cm rn d c c'" "strong_member cm rn c" "repl_cfg c' rn \<noteq> None"
    and "confirmations d \<noteq> None" "c'' = finish_task t c'"
  shows "strong_member cm rn c''"
proof -
  have q: "public_queue c'' rn = public_queue c' rn" "temp_of c'' rn = temp_of c' rn"
    "consistency_model (replica_buffer c'') = consistency_model (replica_buffer c)"
    "app_channel c'' = app_channel c'" "repl_cfg c'' rn = repl_cfg c' rn" "set (tasks c'') \<subseteq> set (tasks c)"
    using assms(1,5)
    by (auto simp: finish_task_def public_queue_def temp_of_def repl_cfg_def stores_data_def
        dest: set_remove1_subset [THEN subsetD])
  have "set (temp_of c'' rn) \<subseteq> insert (message_id d, d) (set (temp_of c rn))"
    using assms(1) q by (simp add: stores_data_def)
  then have "\<forall>kv \<in> set (temp_of c'' rn). message_id (snd kv) = fst kv \<and> confirmations (snd kv) \<noteq> None"
    using assms(2,4) by (auto simp: strong_member_def)
  moreover have "list_all (strong_task rn) (tasks c'')"
    using assms(2) q(6) by (auto simp: strong_member_def list_all_iff)
  moreover have "list_all (strong_request rn) (app_channel c'')" using assms(1) q(4) by (simp add: stores_data_def)
  ultimately show ?thesis using assms(2,3) q(3,5) by (simp add: strong_member_def)
qed

lemma refines_store:
  fixes g :: "('n::finite) strong_group"
  assumes "strong_shape cm rn g" "\<And>mid. ballot_ok q (ballot_of rn mid g)"
    and task: "IncomingReplData rn d \<in> set (tasks (node (grp_nodes g j)))"
    and "sees_peers p env rn (node (grp_nodes g j))"
    and "run_task cd env (IncomingReplData rn d) (node (grp_nodes g j)) = Some c"
  shows "refines p cm rn g (note_held j rn (message_id d) c (set_node j
       ((grp_nodes g j)\<lparr>node := finish_task (IncomingReplData rn d) c\<rparr>) g))"
proof -
  let ?old = "node (grp_nodes g j)" and ?t = "IncomingReplData rn d" and ?mid = "message_id d"
  let ?c = "finish_task ?t c"
  let ?g' = "note_held j rn ?mid c (set_node j ((grp_nodes g j)\<lparr>node := ?c\<rparr>) g)"
  have m: "strong_member cm rn ?old" using assms(1) by (simp add: strong_shape_def)
  then have d: "confirmations d = Some 1" using task by (auto simp: strong_member_def list_all_iff)
  have count: "count_list (map f (tasks ?old)) y = count_list (map f (remove1 ?t (tasks ?old))) y
      + (if f ?t = y then 1 else 0)" for f :: "task \<Rightarrow> string option" and y
    by (rule count_remove_task [OF task])
  have "gossip_text ?mid"
  proof -
    have "0 < data_due (ballot_of rn ?mid g) j" by (simp add: count)
    then have "origin (ballot_of rn ?mid g) \<noteq> None"
      using ballot_okD(1) [OF assms(2) [of ?mid], of j] by (auto simp del: ballot_simps split: if_splits)
    then have "?mid \<in> logged_id ` set (grp_log g)" by (auto simp: map_of_eq_None_iff)
    then show ?thesis using assms(1) by (auto simp: strong_shape_def list_all_iff)
  qed
  note st = incoming_stores [OF assms(5) m assms(4) this]
  have holds: "holds rn ?mid c" and tasks: "tasks c = tasks ?old"
    and sent: "sent_about rn mid c \<le> sent_about rn mid ?old + (if mid = ?mid then 1 else 0)" for mid
    using st(1) by (simp_all add: stores_data_def)
  have fin: "public_queue ?c rn = public_queue c rn" "temp_of ?c rn = temp_of c rn"
    "sent_about rn mid ?c = sent_about rn mid c" "tasks ?c = remove1 ?t (tasks ?old)" for mid
    by (simp_all add: finish_task_def public_queue_def temp_of_def sent_about_def tasks)
  have g': "grp_nodes ?g' = (grp_nodes g)(j := (grp_nodes g j)\<lparr>node := ?c\<rparr>)" "in_flight ?g' = in_flight g"
    "grp_log ?g' = grp_log g" "unmatched ?g' = unmatched g" "held ?g' = insert (j, ?mid) (held g)"
    using holds by (simp_all add: note_held_def)
  have "strong_member cm rn ?c" by (rule stored_strong_member [OF st(1) m st(2) _ refl]) (simp add: d)
  then have "strong_shape cm rn ?g'" using assms(1) by (simp add: strong_shape_def g')
  moreover have "ballot_step (quorum p cm) (ballot_of rn mid g) (ballot_of rn mid ?g')" for mid
  proof -
    define now_public where "now_public \<longleftrightarrow> \<not> set (public_queue c rn) \<subseteq> set (public_queue ?old rn)"
    have ent: "entries rn ?c \<subseteq> insert d (entries rn ?old)"
      using stores_entries [OF st(1)] by (simp add: entries_def fin)
    have pub: "set (public_queue c rn) \<subseteq> (if now_public then {d} else {}) \<union> set (public_queue ?old rn)"
      "now_public \<Longrightarrow> quorum p cm \<le> 1"
      using st(1) by (auto simp: stores_data_def now_public_def)
    have v: "votes_in mid (entries rn ?c) \<subseteq> (if mid = ?mid then {1} else {}) \<union> votes_in mid (entries rn ?old)"
      using votes_mono [OF ent] votes_insert [of mid d "entries rn ?old"] by (auto simp: d split: if_splits)
    have "votes_in mid (set (public_queue c rn))
        \<subseteq> votes_in mid ((if now_public then {d} else {}) \<union> set (public_queue ?old rn))"
      by (rule votes_mono [OF pub(1)])
    then have p: "votes_in mid (set (public_queue c rn))
        \<subseteq> (if mid = ?mid \<and> now_public then {1} else {}) \<union> votes_in mid (set (public_queue ?old rn))"
      using votes_insert [of mid d "set (public_queue ?old rn)"] by (auto simp: d split: if_splits)
    show ?thesis
    proof (cases "mid = ?mid")
      case True
      show ?thesis
        by (rule b_store [where j = j and now_public = now_public, OF _ refl pub(2) refl])
          (use True sent [of mid] v p in
            \<open>auto simp: ballot_le_def fun_eq_iff fin g' count tasks split: if_splits\<close>)
    next
      case False
      then have "ballot_le (ballot_of rn mid ?g') (ballot_of rn mid g)"
        using sent [of mid] v p by (auto simp: ballot_le_def fun_eq_iff fin g' count tasks)
      then show ?thesis by (rule b_lose)
    qed
  qed
  ultimately show ?thesis by (simp add: refines_def)
qed

lemma counted_strong_member:
  assumes "counts_vote p cm rn mid c c'" "strong_member cm rn c" "c'' = finish_task t c'"
  shows "strong_member cm rn c''"
proof -
  have q: "public_queue c'' rn = public_queue c' rn" "temp_of c'' rn = temp_of c' rn"
    "consistency_model (replica_buffer c'') = Strong cm" "repl_cfg c'' rn = repl_cfg c rn"
    "list_all (strong_request rn) (app_channel c'')" "set (tasks c'') \<subseteq> set (tasks c)"
    using assms
    by (auto simp: finish_task_def public_queue_def temp_of_def repl_cfg_def counts_vote_def strong_member_def
        dest: set_remove1_subset [THEN subsetD])
  have "\<forall>kv \<in> set (temp_of c' rn). message_id (snd kv) = fst kv \<and> confirmations (snd kv) \<noteq> None"
  proof (cases "map_of (temp_of c rn) mid")
    case None
    then have "replica_buffer c' = replica_buffer c" using assms(1) by (simp add: counts_vote_def)
    from queues_frame [OF this, of rn] show ?thesis using assms(2) by (simp add: strong_member_def entries_def)
  next
    case (Some x)
    obtain d d' v v' where d: "(mid, d) \<in> set (temp_of c rn)" "message_id d' = message_id d"
      "confirmations d' = Some v'" "set (temp_of c' rn) \<subseteq> insert (mid, d') (set (temp_of c rn))"
      using assms(1) Some unfolding counts_vote_def by fastforce
    have "message_id d = mid" using d(1) assms(2) by (auto simp: strong_member_def)
    then show ?thesis using d assms(2) by (auto simp: strong_member_def)
  qed
  then show ?thesis
    using q assms(2) by (auto simp: strong_member_def list_all_iff entries_def)
qed

lemma refines_count:
  fixes g :: "('n::finite) strong_group"
  assumes "strong_shape cm rn g"
    and task: "DataConfirmation rn mid \<in> set (tasks (node (grp_nodes g j)))"
    and "sees_peers p env rn (node (grp_nodes g j))"
    and "run_task cd env (DataConfirmation rn mid) (node (grp_nodes g j)) = Some c"
  shows "refines p cm rn g (note_unmatched j rn mid (node (grp_nodes g j)) (set_node j
       ((grp_nodes g j)\<lparr>node := finish_task (DataConfirmation rn mid) c\<rparr>) g))"
proof -
  let ?old = "node (grp_nodes g j)" and ?t = "DataConfirmation rn mid"
  let ?new = "finish_task ?t c"
  let ?g' = "note_unmatched j rn mid ?old (set_node j ((grp_nodes g j)\<lparr>node := ?new\<rparr>) g)"
  let ?q = "quorum p cm"
  have m: "strong_member cm rn ?old" using assms(1) by (simp add: strong_shape_def)
  have count: "count_list (map f (tasks ?old)) y = count_list (map f (remove1 ?t (tasks ?old))) y
      + (if f ?t = y then 1 else 0)" for f :: "task \<Rightarrow> string option" and y
    by (rule count_remove_task [OF task])
  have cv: "counts_vote p cm rn mid ?old c"
    using handle_confirmation_counts [OF _ assms(3)] assms(4) m by (simp add: strong_member_def)
  then have tasks: "tasks c = tasks ?old" and sent: "sent_about rn x c = sent_about rn x ?old" for x
    by (simp_all add: counts_vote_def)
  have fin: "public_queue ?new rn = public_queue c rn" "entries rn ?new = entries rn c"
    "sent_about rn x ?new = sent_about rn x ?old" "tasks ?new = remove1 ?t (tasks ?old)" for x
    using sent by (simp_all add: finish_task_def public_queue_def temp_of_def sent_about_def tasks entries_def)
  have g': "grp_nodes ?g' = (grp_nodes g)(j := (grp_nodes g j)\<lparr>node := ?new\<rparr>)" "in_flight ?g' = in_flight g"
    "grp_log ?g' = grp_log g" "held ?g' = held g"
    by (simp_all add: note_unmatched_def)
  have "strong_member cm rn ?new" by (rule counted_strong_member [OF cv m refl])
  then have "strong_shape cm rn ?g'" using assms(1) by (simp add: strong_shape_def g')
  moreover have "ballot_step ?q (ballot_of rn x g) (ballot_of rn x ?g')" for x
  proof (cases "map_of (temp_of ?old rn) mid")
    case None
    then have um: "unmatched ?g' = add_mset (j, mid) (unmatched g)" by (simp add: note_unmatched_def)
    have "replica_buffer c = replica_buffer ?old" using cv None by (simp add: counts_vote_def)
    then have same: "public_queue c rn = public_queue ?old rn" "entries rn c = entries rn ?old"
      using queues_frame [of c ?old rn] by (simp_all add: entries_def)
    show ?thesis
    proof (cases "x = mid")
      case True
      show ?thesis
        by (rule b_miss [where j = j, OF _ refl])
          (use True same in \<open>auto simp: ballot_le_def fun_eq_iff fin g' um count\<close>)
    next
      case False
      then have "ballot_le (ballot_of rn x ?g') (ballot_of rn x g)"
        using same by (auto simp: ballot_le_def fun_eq_iff fin g' um count)
      then show ?thesis by (rule b_lose)
    qed
  next
    case (Some e)
    then have um: "unmatched ?g' = unmatched g" by (simp add: note_unmatched_def)
    obtain d d' v v' where d: "(mid, d) \<in> set (temp_of ?old rn)" "confirmations d = Some v"
      "message_id d' = message_id d" "confirmations d' = Some v'" "unat v' \<in> {unat v, Suc (unat v)}"
      "set (temp_of c rn) \<subseteq> insert (mid, d') (set (temp_of ?old rn))"
      "set (public_queue c rn) \<subseteq> set (public_queue ?old rn)
         \<or> ?q \<le> unat v' \<and> set (public_queue c rn) \<subseteq> insert d' (set (public_queue ?old rn))"
      using cv Some unfolding counts_vote_def by fastforce
    have mid: "message_id d = mid" using d(1) m by (auto simp: strong_member_def)
    have "d \<in> entries rn ?old" using d(1) by (force simp: entries_def)
    then have v: "unat v \<in> votes_in mid (entries rn ?old)" using d(2) mid by (auto simp: votes_in_def)
    define ps where "ps = (if set (public_queue c rn) \<subseteq> set (public_queue ?old rn) then {} else {unat v'})"
    have ps: "ps \<subseteq> {unat v, Suc (unat v)}" "\<forall>p \<in> ps. ?q \<le> p" using d(5,7) by (auto simp: ps_def)
    have "entries rn c \<subseteq> insert d' (entries rn ?old)"
    proof -
      have "snd ` set (temp_of c rn) \<subseteq> insert d' (snd ` set (temp_of ?old rn))" using d(6) by force
      then show ?thesis using d(7) unfolding entries_def by blast
    qed
    then have ent: "votes_in x (entries rn c)
        \<subseteq> (if x = mid then {unat v'} else {}) \<union> votes_in x (entries rn ?old)"
      using votes_mono [of "entries rn c" "insert d' (entries rn ?old)" x]
        votes_insert [of x d' "entries rn ?old"] d(3,4) mid
      by (auto split: if_splits)
    have pub: "votes_in x (set (public_queue c rn))
        \<subseteq> (if x = mid then ps else {}) \<union> votes_in x (set (public_queue ?old rn))"
    proof (cases "set (public_queue c rn) \<subseteq> set (public_queue ?old rn)")
      case True
      then show ?thesis using votes_mono [OF True, of x] by auto
    next
      case False
      then have "set (public_queue c rn) \<subseteq> insert d' (set (public_queue ?old rn))" using d(7) by blast
      from votes_mono [OF this, of x] show ?thesis
        using votes_insert [of x d' "set (public_queue ?old rn)"] d(3,4) mid False
        by (auto simp: ps_def split: if_splits)
    qed
    show ?thesis
    proof (cases "x = mid")
      case True
      show ?thesis
        by (rule b_count [where j = j and v = "unat v" and ps = ps, OF _ _ ps refl])
          (use True ent pub d(5) v in \<open>auto simp: ballot_le_def fun_eq_iff fin g' um count\<close>)
    next
      case False
      then have "ballot_le (ballot_of rn x ?g') (ballot_of rn x g)"
        using ent pub by (auto simp: ballot_le_def fun_eq_iff fin g' um count)
      then show ?thesis by (rule b_lose)
    qed
  qed
  ultimately show ?thesis by (simp add: refines_def)
qed

lemma strong_step_refines:
  fixes g :: "('n::finite) strong_group"
  assumes "strong_step p cd rn g g'" "strong_shape cm rn g"
    and "\<And>mid. ballot_ok q (ballot_of rn mid g)"
  shows "refines p cm rn g g'"
  using assms
proof (induction rule: strong_step.induct)
  case (s_replicate data g i env)
  then have "strong_member cm rn (node (grp_nodes g i))" by (simp add: strong_shape_def)
  with s_replicate show ?case
    using replicate_quieter [of data cm rn "node (grp_nodes g i)" env] by (intro refines_quiet) simp_all
next
  case (s_consume g i)
  then have "strong_member cm rn (node (grp_nodes g i))" by (simp add: strong_shape_def)
  with s_consume show ?case
    using consume_quieter [of cm rn "node (grp_nodes g i)"] by (intro refines_quiet) simp_all
next
  case (s_publish g i sid sent clk data rest sw ls topic payload mid sender source)
  then have "topic = rn" "payload = join_with GOSSIP_MESSAGE_SEPARATOR (repl_message sent clk rn data)"
    using broadcast_served(2) [OF s_publish(1), of cd sw] by auto
  with s_publish show ?case by (auto intro!: refines_publish simp: published_def)
next
  case (s_confirm g i sid mid rest sw ls topic payload sender own_id source)
  then have "topic = rn" "payload = join_with GOSSIP_MESSAGE_SEPARATOR (strong_message rn mid)"
    using broadcast_served(2) [OF s_confirm(1), of cd sw] by auto
  with s_confirm show ?case by (auto intro!: refines_confirm simp: published_def)
next
  case (s_refused g i sid m rest sw ls topic payload)
  then have "strong_member cm rn (node (grp_nodes g i))" by (simp add: strong_shape_def)
  from served_quieter [OF s_refused(1) broadcast_served(1) [OF s_refused(1)] this, of cd sw] s_refused
  show ?case by (intro refines_quiet) simp_all
next
  case (s_answer g i sid rest sw)
  then have "strong_member cm rn (node (grp_nodes g i))" by (simp add: strong_shape_def)
  from served_quieter [OF s_answer(1) answered [OF s_answer(1)] this, of cd sw] s_answer
  show ?case by (intro refines_quiet) simp_all
next
  case (s_clone g i env peer)
  then have "strong_member cm rn (node (grp_nodes g i))" by (simp add: strong_shape_def)
  with s_clone show ?case
    using clone_quieter [of cm rn "node (grp_nodes g i)" cd env peer] by (intro refines_quiet) simp_all
next
  case (s_ask g i sid keys peer rest sw)
  then have "strong_member cm rn (node (grp_nodes g i))" by (simp add: strong_shape_def)
  from served_quieter [OF s_ask(1) asked [OF s_ask(1)] this, of cd sw] s_ask
  show ?case by (intro refines_quiet) simp_all
next
  case (s_receive msg g j now ls)
  then show ?case by (simp add: refines_receive)
next
  case (s_store d g j env c)
  then show ?case by (intro refines_store) simp_all
next
  case (s_count mid g j env c)
  then show ?case by (intro refines_count) simp_all
qed

definition strong_ok :: "nat \<Rightarrow> consensus_model \<Rightarrow> string \<Rightarrow> ('n::finite) strong_group \<Rightarrow> bool" where
  "strong_ok p cm rn g \<longleftrightarrow> strong_shape cm rn g \<and> (\<forall>mid. ballot_ok (quorum p cm) (ballot_of rn mid g))"

lemma strong_ok_step: "strong_step p cd rn g g' \<Longrightarrow> strong_ok p cm rn g \<Longrightarrow> strong_ok p cm rn g'"
  using strong_step_refines ballots.inv_step unfolding strong_ok_def refines_def by blast

interpretation strong_groups: step_invariant "strong_step p cd rn" "strong_ok p cm rn" for p cd rn cm
  by unfold_locales (rule strong_ok_step)

end
