(* ===== verification/Strong_Props.thy ===== *)
theory Strong_Props
  imports Strong_Group
begin

text \<open>
  What a public entry stands for in a group under strong consistency, and what becomes of a
  confirmation that comes before its message.
\<close>

section \<open>What a public entry stands for\<close>

definition strong_group_start :: "consensus_model \<Rightarrow> string \<Rightarrow> 'n strong_group \<Rightarrow> bool" where
  "strong_group_start cm rn g \<longleftrightarrow> grp_log g = [] \<and> held g = {} \<and> unmatched g = {#}
     \<and> (\<forall>j. in_flight g j = {#} \<and> strong_member cm rn (node (grp_nodes g j))
          \<and> entries rn (node (grp_nodes g j)) = {} \<and> app_channel (node (grp_nodes g j)) = []
          \<and> tasks (node (grp_nodes g j)) = [])"

lemma strong_group_start_ok:
  fixes g :: "('n::finite) strong_group"
  assumes "gossip_text rn" "strong_group_start cm rn g"
  shows "strong_ok p cm rn g"
proof -
  have "public_queue (node (grp_nodes g j)) rn = []" for j
    using assms(2) by (auto simp: strong_group_start_def entries_def)
  then have "ballot_ok q (ballot_of rn mid g)" for q mid
    using assms(2)
    by (simp add: ballot_ok_def on_the_way_def sum_others_def strong_group_start_def sent_about_def votes_in_def)
  then show ?thesis using assms by (simp add: strong_ok_def strong_shape_def strong_group_start_def)
qed

lemma public_entry_votes:
  fixes g :: "('n::finite) strong_group"
  assumes "strong_ok p cm rn g" "d \<in> set (public_queue (node (grp_nodes g j)) rn)" "message_id d = mid"
    and "confirmations d = Some v"
  shows "\<exists>i. origin (ballot_of rn mid g) = Some i \<and> (i, mid) \<notin> held g \<and> (j, mid) \<in> held g
     \<and> quorum p cm \<le> unat v
     \<and> unat v + on_the_way (ballot_of rn mid g) j \<le> Suc (card ({k. (k, mid) \<in> held g} - {j}))"
proof -
  let ?b = "ballot_of rn mid g"
  have ok: "ballot_ok (quorum p cm) ?b" using assms(1) by (simp add: strong_ok_def)
  have v: "unat v \<in> public_votes ?b j" using assms(2-4) by (auto simp: votes_in_def)
  then have j: "j \<in> has_held ?b \<and> unat v + on_the_way ?b j \<le> Suc (others_held ?b j)"
    using ballot_okD(3) [OF ok, of "unat v" j] by blast
  then have "origin ?b \<noteq> None"
    using ballot_okD(1) [OF ok, of j] by (auto simp del: ballot_simps split: if_splits)
  then obtain i where i: "origin ?b = Some i" by blast
  have "i \<notin> has_held ?b"
    using ballot_okD(1) [OF ok, of i] i by (auto simp del: ballot_simps split: if_splits)
  then have "(i, mid) \<notin> held g" by simp
  moreover have "(j, mid) \<in> held g" using j by simp
  moreover have "others_held ?b j = card ({k. (k, mid) \<in> held g} - {j})" by (simp only: others_held_def ballot_simps)
  ultimately show ?thesis using i j ballot_okD(4) [OF ok v] by metis
qed

lemma origin_logged:
  assumes "origin (ballot_of rn mid g) = Some i" shows "\<exists>clk data. (i, clk, mid, data) \<in> set (grp_log g)"
proof -
  from assms have "(mid, i) \<in> set (map (\<lambda>x. (logged_id x, fst x)) (grp_log g))" by (auto dest: map_of_SomeD)
  then obtain x where "x \<in> set (grp_log g)" "logged_id x = mid" "fst x = i" by auto
  moreover obtain a b c e where "x = (a, b, c, e)" by (metis prod_cases4)
  ultimately have "(i, b, mid, e) \<in> set (grp_log g)" by (simp add: logged_id_def)
  then show ?thesis by blast
qed

text \<open>C5: In a fixed group of nodes under strong consistency that replicate, consume and clone, in any
  interleaving of applications, network tasks, spawned tasks and messages: the count of an entry
  in a public queue was earned. At least as many of the receivers have had the data in their
  queues, and the count is at least what the consensus model asks for of the peers that the
  network reported: if every answer to a node that asked was empty or named at least \<open>p\<close> peers, at
  least \<open>p\<close> if all must confirm, the smaller of \<open>k\<close> and \<open>p\<close> for \<open>MinPeers(k)\<close>. So under \<open>All\<close> with
  complete answers every node but the publisher has had it. Entries that a clone brought have no
  count and are left out. Items are valid UTF-8 without the separator of the gossip fields, and the
  gossip network brings a message to each other node at most once.\<close>

theorem public_data_held_by_quorum:
  fixes g0 :: "('n::finite) strong_group"
  assumes "gossip_text rn" "strong_group_start cm rn g0" "(strong_step p cd rn)\<^sup>*\<^sup>* g0 g"
    and "d \<in> set (public_queue (node (grp_nodes g j)) rn)" "confirmations d = Some v"
    and "holders = {k. (k, message_id d) \<in> held g}"
  shows "\<exists>i clk data. (i, clk, message_id d, data) \<in> set (grp_log g) \<and> i \<notin> holders
     \<and> unat v \<le> card holders
     \<and> (case cm of All_Peers \<Rightarrow> p | MinPeers k \<Rightarrow> min (unat k) p) \<le> unat v
     \<and> (cm = All_Peers \<and> card (UNIV :: 'n set) - 1 \<le> p \<longrightarrow> holders = - {i})"
proof -
  let ?mid = "message_id d" and ?H = "{k. (k, message_id d) \<in> held g}"
  have "strong_ok p cm rn g"
    using strong_groups.inv_steps [OF assms(3)] strong_group_start_ok [OF assms(1,2)] by blast
  from public_entry_votes [OF this assms(4) refl assms(5)] obtain i where i:
    "origin (ballot_of rn ?mid g) = Some i" "(i, ?mid) \<notin> held g" "(j, ?mid) \<in> held g"
    "quorum p cm \<le> unat v" "unat v \<le> Suc (card (?H - {j}))"
    by (metis add_leD1)
  have "card ?H = Suc (card (?H - {j}))" using i(3) by (intro card.remove) auto
  then have v: "unat v \<le> card ?H" using i(5) by simp
  have "?H = - {i}" if "cm = All_Peers \<and> card (UNIV :: 'n set) - 1 \<le> p"
  proof (rule card_seteq)
    show "?H \<subseteq> - {i}" using i(2) by auto
    have "card (- {i}) = card (UNIV :: 'n set) - 1" by (simp add: Compl_eq_Diff_UNIV card_Diff_singleton)
    then show "card (- {i}) \<le> card ?H" using i(4) v that by (simp add: quorum_def)
  qed simp
  moreover have "i \<notin> ?H" using i(2) by simp
  ultimately show ?thesis using origin_logged [OF i(1)] i(4) v unfolding quorum_def assms(6) by blast
qed

section \<open>Groups refine ballots\<close>

text \<open>C6: Strong consistency refines an abstract vote: seen through the abstraction of one message (who
  has had the data, which confirmations are on their way, what each entry has counted), every run
  of a fixed group that replicates, consumes and clones is a run of its ballot. The quorum, which
  an entry must have to become public in it, is what the model asks for of \<open>p\<close> peers, where the
  answers of the network to a node that asks for its peers are empty or name at least \<open>p\<close>; with
  \<open>p = 1\<close> all answers are covered. Items are valid UTF-8 without the separator of the
  gossip fields, and the gossip network brings a message to each other node at most once.\<close>

theorem group_runs_are_ballots:
  fixes g0 :: "('n::finite) strong_group"
  assumes "gossip_text rn" "strong_group_start cm rn g0" "(strong_step p cd rn)\<^sup>*\<^sup>* g0 g"
  shows "(ballot_step (quorum p cm))\<^sup>*\<^sup>* (ballot_of rn mid g0) (ballot_of rn mid g)"
  using assms(3)
proof (induction rule: rtranclp_induct)
  case (step g1 g2)
  have "strong_ok p cm rn g1"
    using strong_groups.inv_steps [OF step(1)] strong_group_start_ok [OF assms(1,2)] by blast
  then have "refines p cm rn g1 g2" using strong_step_refines [OF step(2)] unfolding strong_ok_def by blast
  then have "ballot_step (quorum p cm) (ballot_of rn mid g1) (ballot_of rn mid g2)"
    by (simp add: refines_def)
  with step(3) show ?case by (rule rtranclp.rtrancl_into_rtrancl)
qed simp

section \<open>A confirmation that comes too early\<close>

lemma unmatched_kept: "(strong_step p cd rn)\<^sup>*\<^sup>* g g' \<Longrightarrow> x \<in># unmatched g \<Longrightarrow> x \<in># unmatched g'"
proof (induction rule: rtranclp_induct)
  case (step g1 g2)
  from step(2) have "unmatched g1 \<subseteq># unmatched g2"
    by (cases rule: strong_step.cases) (auto simp: note_held_def note_unmatched_def)
  with step show ?case by (meson mset_subset_eqD)
qed simp

text \<open>C7: In a fixed group under strong consistency with all peers, where the network never names fewer
  than all the others to a node that asks for its peers (or does not answer in time): a node that
  gets another's confirmation of a message before the message itself ignores it, and then never
  makes the data public by its count, whatever the group does. Only a clone of a buffer can bring
  it to the public queue. Items are valid UTF-8 without the separator of the
  gossip fields, and the gossip network brings a message to each other node at most once.\<close>

theorem early_confirmation_hides_data:
  fixes g0 :: "('n::finite) strong_group"
  assumes "gossip_text rn" "strong_group_start All_Peers rn g0" "card (UNIV :: 'n set) - 1 \<le> p"
    and "(strong_step p cd rn)\<^sup>*\<^sup>* g0 g" "(j, mid) \<in># unmatched g" "(strong_step p cd rn)\<^sup>*\<^sup>* g g'"
    and "d \<in> set (public_queue (node (grp_nodes g' j)) rn)" "message_id d = mid"
  shows "confirmations d = None"
proof (rule ccontr)
  assume "confirmations d \<noteq> None"
  then obtain v where v: "confirmations d = Some v" by blast
  have steps: "(strong_step p cd rn)\<^sup>*\<^sup>* g0 g'" using assms(4,6) by simp
  have "strong_ok p All_Peers rn g'"
    using strong_groups.inv_steps [OF steps] strong_group_start_ok [OF assms(1,2)] by blast
  from public_entry_votes [OF this assms(7,8) v] obtain i where i: "(i, mid) \<notin> held g'" "(j, mid) \<in> held g'"
    "card (UNIV :: 'n set) - 1 \<le> unat v"
    "unat v + on_the_way (ballot_of rn mid g') j \<le> Suc (card ({k. (k, mid) \<in> held g'} - {j}))"
    using assms(3) by (auto simp: quorum_def simp del: ballot_simps)
  have "0 < count (unmatched g') (j, mid)" using unmatched_kept [OF assms(6,5)] by simp
  then have "0 < on_the_way (ballot_of rn mid g') j" by (simp add: on_the_way_def)
  moreover have "card ({k. (k, mid) \<in> held g'} - {j}) \<le> card (UNIV - {i, j})"
    by (rule card_mono) (use i(1) in auto)
  moreover have two: "card {i, j} = 2" using i(1,2) by (metis card_2_iff)
  then have "card (UNIV - {i, j}) = card (UNIV :: 'n set) - 2" by (subst card_Diff_subset) simp_all
  moreover have "2 \<le> card (UNIV :: 'n set)" using card_mono [of "UNIV :: 'n set" "{i, j}"] two by simp
  ultimately show False using i(3,4) by linarith
qed

section \<open>A run\<close>

text \<open>Nobody answers within the time of a request, and the node goes on without.\<close>

lemma silent_recv:
  "resp_buffer (response_buffer c) = [] \<Longrightarrow> n \<le> 10 \<Longrightarrow>
     fst (recv_loop (arrivals silent_env sid r) sid n c) = c
     \<and> snd (snd (recv_loop (arrivals silent_env sid r) sid n c)) = Inl NetworkReadTimeout"
proof (induction "10 - n" arbitrary: n)
  case 0
  then have "\<not> n < 10" "response_remove sid (response_buffer c) = (response_buffer c, None)"
    by (simp_all add: response_remove_None)
  then show ?case by (subst (1 2) recv_loop.simps) (simp add: Let_def)
next
  case (Suc k)
  then have "fst (recv_loop (arrivals silent_env sid r) sid (n + 1) c) = c
      \<and> snd (snd (recv_loop (arrivals silent_env sid r) sid (n + 1) c)) = Inl NetworkReadTimeout"
    by (intro Suc.hyps(1)) auto
  moreover have "n < 10" "response_remove sid (response_buffer c) = (response_buffer c, None)"
    using Suc by (simp_all add: response_remove_None)
  ultimately show ?case by (subst (1 2) recv_loop.simps) (simp add: Let_def case_prod_beta)
qed

definition calm :: "nat \<Rightarrow> core \<Rightarrow> bool" where
  "calm room c \<longleftrightarrow> resp_buffer (response_buffer c) = [] \<and> 0 < resp_size (response_buffer c) \<and> finite (req_buffer (request_buffer c))
     \<and> card (req_buffer (request_buffer c)) + room \<le> req_size (request_buffer c)"

lemma silent_query:
  assumes "calm (Suc room) c" "\<not> untracked r"
  shows "app_channel (fst (query_network silent_env r c)) = app_channel c @ [FromApplication (take_id c) r]"
    and "calm room (fst (query_network silent_env r c))"
    and "snd (query_network silent_env r c) = Inl NetworkReadTimeout"
proof -
  have room: "card (req_buffer (request_buffer c)) < req_size (request_buffer c)"
    using assms(1) by (simp add: calm_def)
  show "app_channel (fst (query_network silent_env r c)) = app_channel c @ [FromApplication (take_id c) r]"
    by (rule channel_query) (use room assms(2) in simp_all)
  have "snd (send_to_network silent_env r c) = Some (take_id c)"
    unfolding send_to_network_def take_id_def [symmetric] by (rule send_accepts) (use room assms(2) in simp_all)
  then obtain c1 where c1: "send_to_network silent_env r c = (c1, Some (take_id c))" by (metis prod.collapse)
  note sent = send_with_id_Some [OF c1 [unfolded send_to_network_def]]
  have "resp_buffer (response_buffer c1) = []" using assms(1) sent by (simp add: calm_def)
  note recv = silent_recv [OF this, of 0 "take_id c" r]
  have "calm room c1"
    using assms(1) sent card_insert_le_m1 [of "Suc (card (req_buffer (request_buffer c)))"]
    by (auto simp: calm_def card_insert_if)
  then show "calm room (fst (query_network silent_env r c))"
    "snd (query_network silent_env r c) = Inl NetworkReadTimeout"
    using recv by (simp_all add: query_network_def c1 recv_from_network_def case_prod_beta)
qed

lemma silent_peers:
  assumes "calm (Suc room) c"
  shows "snd (replica_peers silent_env rn c) = []" "calm room (fst (replica_peers silent_env rn c))"
    and "app_channel (fst (replica_peers silent_env rn c)) = app_channel c @ [FromApplication (take_id c) GossipsubGetInfo]"
proof -
  obtain c' where q: "query_network silent_env GossipsubGetInfo c = (c', Inl NetworkReadTimeout)"
    using silent_query(3) [OF assms, of GossipsubGetInfo] by (metis prod.collapse untracked.simps(3-))
  then show "snd (replica_peers silent_env rn c) = []" "calm room (fst (replica_peers silent_env rn c))"
    "app_channel (fst (replica_peers silent_env rn c)) = app_channel c @ [FromApplication (take_id c) GossipsubGetInfo]"
    using silent_query(1,2) [OF assms, of GossipsubGetInfo] by (simp_all add: replica_peers_def)
qed

lemma calm_sees_peers: "calm (Suc room) c \<Longrightarrow> sees_peers p silent_env rn c"
  by (simp add: sees_peers_def silent_peers)

lemma calm_frame [simp]:
  "calm room (set_temp rn tq c) = calm room c" "calm room (set_public rn q c) = calm room c"
  "calm room (set_replication m c) = calm room c" "calm room (push_event ev c) = calm room c"
  "calm room (spawn t c) = calm room c" "calm room (finish_task t c) = calm room c"
  "calm room (c\<lparr>app_channel := ch\<rparr>) = calm room c"
  by (simp_all add: calm_def set_temp_def set_public_def set_buffer_def set_replication_def push_event_def
      spawn_def finish_task_def)

lemma silent_push:
  assumes "calm (Suc (Suc room)) c" "cm \<noteq> MinPeers 1" "app_channel c = []" "temp_of c rn = []"
  shows "\<exists>s1 s2. app_channel (push_strong silent_env cm rn d c) = [FromApplication s1 GossipsubGetInfo,
       FromApplication s2 (GossipsubBroadcastMessage rn (strong_message rn (message_id d)))]"
    and "temp_of (push_strong silent_env cm rn d c) rn = [(message_id d, d)]"
    and "public_queue (push_strong silent_env cm rn d c) rn = public_queue c rn"
    and "config (replica_buffer (push_strong silent_env cm rn d c)) = config (replica_buffer c)"
    and "calm room (push_strong silent_env cm rn d c)"
proof -
  let ?c1 = "set_temp rn (push_temporary_room (temp_of c rn)) c"
  have "calm (Suc (Suc room)) ?c1" using assms(1) by simp
  note p = silent_peers [OF this, of rn]
  let ?c2 = "fst (replica_peers silent_env rn ?c1)"
  have empty: "push_temporary_room [] = []" by (simp add: push_temporary_room_def)
  have c2: "temp_of ?c2 rn = []" "public_queue ?c2 rn = public_queue c rn"
    "config (replica_buffer ?c2) = config (replica_buffer c)"
    using queues_frame [of ?c2 ?c1 rn] assms(4) by (simp_all add: queues_simps empty)
  let ?c3 = "set_temp rn [(message_id d, d)] ?c2"
  let ?req = "GossipsubBroadcastMessage rn (strong_message rn (message_id d))"
  have "calm (Suc room) ?c3" using p(2) by simp
  note q = silent_query [OF this, of ?req]
  have "push_strong silent_env cm rn d c = fst (query_network silent_env ?req ?c3)"
    using p(1) assms(2) c2(1) by (simp add: push_strong_def Let_def case_prod_beta push_temporary_def)
  then show "\<exists>s1 s2. app_channel (push_strong silent_env cm rn d c) = [FromApplication s1 GossipsubGetInfo,
       FromApplication s2 (GossipsubBroadcastMessage rn (strong_message rn (message_id d)))]"
    "temp_of (push_strong silent_env cm rn d c) rn = [(message_id d, d)]"
    "public_queue (push_strong silent_env cm rn d c) rn = public_queue c rn"
    "config (replica_buffer (push_strong silent_env cm rn d c)) = config (replica_buffer c)"
    "calm room (push_strong silent_env cm rn d c)"
    using q(1,2) p(3) c2 assms(3) queues_frame [of "fst (query_network silent_env ?req ?c3)" ?c3 rn]
    by (simp_all add: fields_simps queues_simps)
qed

text \<open>A node that waits for data, and the parts of a run in which nobody answers in time.\<close>

definition waiting :: "consensus_model \<Rightarrow> string \<Rightarrow> core \<Rightarrow> bool" where
  "waiting cm rn c \<longleftrightarrow> strong_member cm rn c \<and> calm 3 c \<and> app_channel c = [] \<and> tasks c = []
     \<and> temp_of c rn = [] \<and> public_queue c rn = [] \<and> unat (fst (push_limits (config (replica_buffer c)))) = 150"

lemma run_publish:
  fixes g :: "('n::finite) strong_group"
  assumes "waiting cm rn (node (grp_nodes g i))" "list_all gossip_text data" "gossip_text mid"
    and "mid \<notin> logged_id ` set (grp_log g)"
  shows "\<exists>g' msg sent clk. (strong_step p cd rn)\<^sup>*\<^sup>* g g' \<and> published rn (repl_message sent clk rn data) msg
     \<and> gossip_id msg = mid \<and> in_flight g' = (\<lambda>j. if j = i then in_flight g j else add_mset msg (in_flight g j))
     \<and> (\<forall>j. j \<noteq> i \<longrightarrow> grp_nodes g' j = grp_nodes g j) \<and> unmatched g' = unmatched g"
proof -
  obtain cfg where cfg: "repl_cfg (node (grp_nodes g i)) rn = Some cfg"
    using assms(1) by (auto simp: waiting_def strong_member_def)
  let ?ls1 = "(grp_nodes g i)\<lparr>node := fst (replicate_data silent_env data rn (node (grp_nodes g i)))\<rparr>"
  let ?g1 = "set_node i ?ls1 g"
  have s1: "strong_step p cd rn g ?g1" by (rule s_replicate [OF assms(2)])
  have room: "card (req_buffer (request_buffer (node (grp_nodes g i)))) < req_size (request_buffer (node (grp_nodes g i)))"
    using assms(1) by (simp add: waiting_def calm_def)
  let ?clk = "saturating_add (cfg_clock cfg) 1" and ?sid = "take_id (node (grp_nodes g i))"
  let ?m = "repl_message 100 ?clk rn data"
  have ch: "app_channel (node (grp_nodes ?g1 i)) = FromApplication ?sid (GossipsubBroadcastMessage rn ?m) # []"
    using replicate_sends(2) [OF cfg _ room, of silent_env data] assms(1) by (simp add: waiting_def)
  let ?msg = "\<lparr>propagation_source = PeerId ''q'', gossip_id = mid, gossip_source = None,
      gossip_payload = join_with GOSSIP_MESSAGE_SEPARATOR ?m, gossip_topic = rn\<rparr>"
  let ?ls2 = "receive_request cd sample_swarm (grp_nodes ?g1 i)"
  let ?g2 = "(set_node i ?ls2 (publish_from i ?msg ?g1))\<lparr>grp_log := grp_log ?g1 @ [(i, ?clk, mid, data)]\<rparr>"
  have "strong_step p cd rn ?g1 ?g2"
    by (rule s_publish [OF ch refl broadcast_served(2) [OF ch]])
      (use assms(3,4) in \<open>simp_all add: sample_swarm_def\<close>)
  with s1 have "(strong_step p cd rn)\<^sup>*\<^sup>* g ?g2" by (meson converse_rtranclp_into_rtranclp r_into_rtranclp)
  then show ?thesis
    by (intro exI [of _ ?g2] exI [of _ ?msg] exI [of _ 100] exI [of _ ?clk])
      (simp add: published_def fun_eq_iff)
qed

lemma tasks_push_strong: "tasks (push_strong env cm rn d c) = tasks c"
  by (simp add: push_strong_def Let_def case_prod_beta fields_simps)

text \<open>The task that stores the data leaves a confirmation to be sent.\<close>

lemma silent_store:
  assumes "waiting cm rn c" "cm \<noteq> MinPeers 1"
  shows "\<exists>e s1 s2. run_task cd silent_env (IncomingReplData rn d) (spawn (IncomingReplData rn d) c) = Some e
     \<and> app_channel e = [FromApplication s1 GossipsubGetInfo,
          FromApplication s2 (GossipsubBroadcastMessage rn (strong_message rn (message_id d)))]
     \<and> temp_of e rn = [(message_id d, d)] \<and> public_queue e rn = [] \<and> tasks e = [IncomingReplData rn d]
     \<and> config (replica_buffer e) = config (replica_buffer c) \<and> calm 1 e"
proof -
  have m: "strong_member cm rn c" "calm (Suc (Suc 1)) c" "tasks c = []" "app_channel c = []"
    "temp_of c rn = []" "public_queue c rn = []"
    using assms(1) by (simp_all add: waiting_def numeral_3_eq_3)
  obtain cfg where cfg: "repl_cfg c rn = Some cfg" using m(1) by (auto simp: strong_member_def)
  let ?ev = "ReplicaDataIncoming (rdata d) rn (outgoing_timestamp d) (incoming_timestamp d) (message_id d) (sender d)"
  let ?c = "spawn (IncomingReplData rn d) c"
  define c0 where "c0 = set_replication ((replication (network_info (push_event ?ev ?c)))
      (rn \<mapsto> bump_clock (lamport_clock d) cfg)) (push_event ?ev ?c)"
  have buf: "replica_buffer c0 = replica_buffer c" "tasks c0 = [IncomingReplData rn d]" "app_channel c0 = []"
    "calm (Suc (Suc 1)) c0"
    using m(2-4) unfolding c0_def by (simp_all add: set_replication_def push_event_def spawn_def calm_def)
  have q: "public_queue c0 rn = []" "temp_of c0 rn = []"
    using queues_frame [OF buf(1), of rn] m(5,6) by simp_all
  have "run_task cd silent_env (IncomingReplData rn d) ?c = Some (push_strong silent_env cm rn d c0)"
    using m(1) cfg unfolding c0_def
    by (simp add: handle_incoming_repl_data_def repl_push_def strong_member_def repl_cfg_def Let_def)
  moreover note silent_push [OF buf(4) assms(2) buf(3) q(2), of d]
  ultimately show ?thesis using q(1) buf(1,2) by (auto simp: tasks_push_strong)
qed

lemma run_store:
  fixes g :: "('n::finite) strong_group"
  assumes "msg \<in># in_flight g j" "waiting cm rn (node (grp_nodes g j))" "cm \<noteq> MinPeers 1"
    and "published rn (repl_message sent clk rn data) msg" "list_all gossip_text data" "gossip_text rn"
  shows "\<exists>g' d s1 s2. (strong_step p cd rn)\<^sup>*\<^sup>* g g' \<and> unmatched g' = unmatched g
     \<and> in_flight g' = (in_flight g)(j := in_flight g j - {#msg#})
     \<and> (\<forall>k. k \<noteq> j \<longrightarrow> grp_nodes g' k = grp_nodes g k)
     \<and> app_channel (node (grp_nodes g' j)) = [FromApplication s1 GossipsubGetInfo,
          FromApplication s2 (GossipsubBroadcastMessage rn (strong_message rn (gossip_id msg)))]
     \<and> temp_of (node (grp_nodes g' j)) rn = [(gossip_id msg, d)] \<and> confirmations d = Some 1
     \<and> message_id d = gossip_id msg
     \<and> public_queue (node (grp_nodes g' j)) rn = [] \<and> tasks (node (grp_nodes g' j)) = []
     \<and> config (replica_buffer (node (grp_nodes g' j))) = config (replica_buffer (node (grp_nodes g j)))
     \<and> calm 1 (node (grp_nodes g' j))"
proof -
  let ?ls = "grp_nodes g j"
  have m: "strong_member cm rn (node ?ls)" "calm 3 (node ?ls)" using assms(2) by (simp_all add: waiting_def)
  have "consistency_model (replica_buffer (node ?ls)) = Strong cm" using m(1) by (simp add: strong_member_def)
  from strong_data_spawns [OF assms(4,5,6) this, of cd 100] obtain d where
    d: "handle_gossip cd 100 msg ?ls = Some (update_node (spawn (IncomingReplData rn d)) ?ls)"
    "message_id d = gossip_id msg" "confirmations d = Some 1" by blast
  let ?t = "IncomingReplData rn d"
  let ?g1 = "(set_node j (update_node (spawn ?t) ?ls) g)\<lparr>in_flight := (in_flight g)(j := in_flight g j - {#msg#})\<rparr>"
  have s1: "strong_step p cd rn g ?g1" by (rule s_receive [OF assms(1) d(1)])
  have n1: "node (grp_nodes ?g1 j) = spawn ?t (node ?ls)" by (simp add: update_node_def)
  obtain e s1' s2' where e: "run_task cd silent_env ?t (spawn ?t (node ?ls)) = Some e"
    "app_channel e = [FromApplication s1' GossipsubGetInfo,
       FromApplication s2' (GossipsubBroadcastMessage rn (strong_message rn (message_id d)))]"
    "temp_of e rn = [(message_id d, d)]" "public_queue e rn = []" "tasks e = [?t]"
    "config (replica_buffer e) = config (replica_buffer (node ?ls))" "calm 1 e"
    using silent_store [OF assms(2,3)] by blast
  let ?g2 = "note_held j rn (message_id d) e (set_node j ((grp_nodes ?g1 j)\<lparr>node := finish_task ?t e\<rparr>) ?g1)"
  have "?t \<in> set (tasks (node (grp_nodes ?g1 j)))" unfolding n1 by (simp add: spawn_def)
  moreover have "sees_peers p silent_env rn (node (grp_nodes ?g1 j))"
    unfolding n1 by (rule calm_sees_peers [of 2]) (use m(2) in simp)
  ultimately have s2: "strong_step p cd rn ?g1 ?g2"
    using e(1) unfolding n1 [symmetric] by (rule s_store)
  have "(strong_step p cd rn)\<^sup>*\<^sup>* g ?g2" using s1 s2 by (meson converse_rtranclp_into_rtranclp r_into_rtranclp)
  then show ?thesis
    using e(2-7) d(2,3)
    by (intro exI [of _ ?g2] exI [of _ d] exI [of _ s1'] exI [of _ s2'])
      (simp add: note_held_def finish_task_def temp_of_def public_queue_def calm_def)
qed

lemma run_confirm:
  fixes g :: "('n::finite) strong_group"
  assumes "app_channel (node (grp_nodes g j)) = [FromApplication s1 GossipsubGetInfo,
       FromApplication s2 (GossipsubBroadcastMessage rn (strong_message rn mid))]"
  shows "\<exists>g' msg. (strong_step p cd rn)\<^sup>*\<^sup>* g g' \<and> published rn (strong_message rn mid) msg
     \<and> in_flight g' = (\<lambda>k. if k = j then in_flight g k else add_mset msg (in_flight g k))
     \<and> (\<forall>k. k \<noteq> j \<longrightarrow> grp_nodes g' k = grp_nodes g k) \<and> unmatched g' = unmatched g"
proof -
  let ?ls1 = "receive_request cd sample_swarm (grp_nodes g j)"
  let ?g1 = "set_node j ?ls1 g"
  have s1: "strong_step p cd rn g ?g1" by (rule s_answer [OF assms])
  have ch: "app_channel (node (grp_nodes ?g1 j))
      = FromApplication s2 (GossipsubBroadcastMessage rn (strong_message rn mid)) # []"
    using answered [OF assms, of cd sample_swarm] by simp
  let ?msg = "\<lparr>propagation_source = PeerId ''q'', gossip_id = ''c'', gossip_source = None,
      gossip_payload = join_with GOSSIP_MESSAGE_SEPARATOR (strong_message rn mid), gossip_topic = rn\<rparr>"
  let ?g2 = "set_node j (receive_request cd sample_swarm (grp_nodes ?g1 j)) (publish_from j ?msg ?g1)"
  have "strong_step p cd rn ?g1 ?g2"
    by (rule s_confirm [OF ch refl broadcast_served(2) [OF ch]]) (simp add: sample_swarm_def)
  with s1 have "(strong_step p cd rn)\<^sup>*\<^sup>* g ?g2" by (meson converse_rtranclp_into_rtranclp r_into_rtranclp)
  then show ?thesis
    by (intro exI [of _ ?g2] exI [of _ ?msg]) (simp add: published_def fun_eq_iff)
qed

lemma run_count:
  fixes g :: "('n::finite) strong_group"
  assumes "msg \<in># in_flight g j" "published rn (strong_message rn mid) msg" "gossip_text mid" "gossip_text rn"
    and "calm 1 (node (grp_nodes g j))"
    and "run_task cd silent_env (DataConfirmation rn mid) (spawn (DataConfirmation rn mid) (node (grp_nodes g j))) = Some c"
  shows "\<exists>g'. (strong_step p cd rn)\<^sup>*\<^sup>* g g'
     \<and> (map_of (temp_of (node (grp_nodes g j)) rn) mid = None \<longrightarrow> (j, mid) \<in># unmatched g')
     \<and> node (grp_nodes g' j) = finish_task (DataConfirmation rn mid) c"
proof -
  let ?ls = "grp_nodes g j" and ?t = "DataConfirmation rn mid"
  let ?g1 = "(set_node j (update_node (spawn ?t) ?ls) g)\<lparr>in_flight := (in_flight g)(j := in_flight g j - {#msg#})\<rparr>"
  have s1: "strong_step p cd rn g ?g1"
    by (rule s_receive [OF assms(1) strong_gossip_spawns(2) [OF assms(2,4,3)]])
  have n1: "node (grp_nodes ?g1 j) = spawn ?t (node ?ls)" by (simp add: update_node_def)
  let ?g2 = "note_unmatched j rn mid (node (grp_nodes ?g1 j))
      (set_node j ((grp_nodes ?g1 j)\<lparr>node := finish_task ?t c\<rparr>) ?g1)"
  have "?t \<in> set (tasks (node (grp_nodes ?g1 j)))" unfolding n1 by (simp add: spawn_def)
  moreover have "sees_peers p silent_env rn (node (grp_nodes ?g1 j))"
    unfolding n1 by (rule calm_sees_peers [of 0]) (use assms(5) in simp)
  ultimately have s2: "strong_step p cd rn ?g1 ?g2"
    using assms(6) unfolding n1 [symmetric] by (rule s_count)
  have "(strong_step p cd rn)\<^sup>*\<^sup>* g ?g2" using s1 s2 by (meson converse_rtranclp_into_rtranclp r_into_rtranclp)
  moreover have "temp_of (node (grp_nodes ?g1 j)) rn = temp_of (node ?ls) rn"
    unfolding n1 by (simp add: temp_of_def spawn_def)
  ultimately show ?thesis
    by (intro exI [of _ ?g2]) (simp add: note_unmatched_def)
qed

text \<open>Three nodes; the first one replicates.\<close>

definition strong_replica :: "consensus_model \<Rightarrow> core" where
  "strong_replica cm = set_buffer
     (buffer_init REPL_NETWORK_ID (replica_buffer_new (ReplCustom 150 None 5 (Strong cm) 5))) sample_replica"

lemma strong_replica_queues:
  "queue (replica_buffer (strong_replica cm)) REPL_NETWORK_ID = Some []"
  "temporary_queue (replica_buffer (strong_replica cm)) REPL_NETWORK_ID = Some []"
  "config (replica_buffer (strong_replica cm)) = ReplCustom 150 None 5 (Strong cm) 5"
  by (simp_all add: strong_replica_def buffer_init_def Let_def consistency_model_def replica_buffer_new_def set_buffer_def)

definition strong_trio :: "consensus_model \<Rightarrow> bool option strong_group" where
  "strong_trio cm = \<lparr>grp_nodes = (\<lambda>_. loop_start (strong_replica cm)), in_flight = (\<lambda>_. {#}), grp_log = [],
     taken = (\<lambda>_. {#}), held = {}, unmatched = {#}\<rparr>"

lemma strong_replica_waits: "waiting cm REPL_NETWORK_ID (strong_replica cm)"
proof -
  have "tasks sample_replica = []" "response_buffer sample_replica = \<lparr>resp_size = 5, resp_buffer = []\<rparr>"
    by (simp_all add: sample_replica_def set_replication_def)
  moreover have "repl_cfg (strong_replica cm) REPL_NETWORK_ID = repl_cfg sample_replica REPL_NETWORK_ID"
    by (simp add: strong_replica_def repl_cfg_def)
  ultimately show ?thesis
    using strong_replica_queues [of cm]
    by (simp add: waiting_def strong_member_def consistency_model_def temp_of_def public_queue_def or_default_def
        entries_def calm_def push_limits_def) (simp add: strong_replica_def set_buffer_def)
qed

lemma strong_trio_start: "strong_group_start cm REPL_NETWORK_ID (strong_trio cm)"
  using strong_replica_waits [of cm]
  by (simp add: strong_group_start_def strong_trio_def loop_start_def waiting_def entries_def)

lemma trio_size: "card (UNIV :: bool option set) = 3"
  by (simp add: card_UNIV_option)

lemma trio_waits: "waiting cm REPL_NETWORK_ID (node (grp_nodes (strong_trio cm) i))"
  using strong_replica_waits by (simp add: strong_trio_def loop_start_def)

lemma repl_hi_texts: "list_all gossip_text [''hi'']" "gossip_text ''m''" "gossip_text REPL_NETWORK_ID"
  by (simp_all add: repl_network_text)

text \<open>The third node is told of the message before it gets it.\<close>

lemma unmatched_count:
  assumes "calm (Suc room) c" "map_of (temp_of c rn) mid = None"
    and "consistency_model (replica_buffer c) = Strong All_Peers"
  shows "\<exists>c'. run_task cd silent_env (DataConfirmation rn mid) (spawn (DataConfirmation rn mid) c) = Some c'
     \<and> calm room c' \<and> replica_buffer c' = replica_buffer c \<and> repl_cfg c' rn = repl_cfg c rn"
proof -
  let ?c = "spawn (DataConfirmation rn mid) c"
  let ?c1 = "fst (replica_peers silent_env rn ?c)" and ?rb = "replica_buffer c"
  have "calm (Suc room) ?c" using assms(1) by simp
  note p = silent_peers [OF this, of rn]
  have c1: "replica_buffer ?c1 = ?rb" "network_info ?c1 = network_info c"
    using peers_frame [of silent_env rn ?c] by (simp_all add: spawn_def)
  have "confirm_temp R rn mid ?rb = Some (?rb, False)" for R
    using assms(2) by (auto simp: confirm_temp_def temp_of_def or_default_def split: option.splits)
  then have "run_task cd silent_env (DataConfirmation rn mid) ?c = Some (set_buffer ?rb ?c1)"
    using assms(3) p(1) c1(1)
    by (simp add: handle_data_confirmation_def required_peers_def case_prod_beta confirm_with_def spawn_def)
  moreover have "set_buffer ?rb ?c1 = ?c1" using c1(1) by (simp add: set_buffer_def)
  ultimately show ?thesis using p(2) c1 by (simp add: repl_cfg_def)
qed

lemma early_run:
  "\<exists>g. (strong_step 2 cd REPL_NETWORK_ID)\<^sup>*\<^sup>* (strong_trio All_Peers) g \<and> (Some True, ''m'') \<in># unmatched g
     \<and> calm 1 (node (grp_nodes g (Some True)))
     \<and> queue (replica_buffer (node (grp_nodes g (Some True)))) REPL_NETWORK_ID = Some []
     \<and> repl_cfg (node (grp_nodes g (Some True))) REPL_NETWORK_ID \<noteq> None"
proof -
  let ?rn = REPL_NETWORK_ID and ?g0 = "strong_trio All_Peers" and ?step = "strong_step 2 cd REPL_NETWORK_ID"
  have log: "''m'' \<notin> logged_id ` set (grp_log ?g0)" by (simp add: strong_trio_def)
  obtain g1 msg sent clk where g1: "?step\<^sup>*\<^sup>* ?g0 g1"
    "published ?rn (repl_message sent clk ?rn [''hi'']) msg" "gossip_id msg = ''m''"
    "in_flight g1 = (\<lambda>j. if j = None then in_flight ?g0 j else add_mset msg (in_flight ?g0 j))"
    "\<forall>j. j \<noteq> None \<longrightarrow> grp_nodes g1 j = grp_nodes ?g0 j"
    using run_publish [OF trio_waits repl_hi_texts(1,2) log] by blast
  have same: "grp_nodes g1 (Some b) = grp_nodes ?g0 (Some b)" for b using g1(5) by blast
  have "msg \<in># in_flight g1 (Some False)" "waiting All_Peers ?rn (node (grp_nodes g1 (Some False)))"
    unfolding same by (simp_all add: g1(4) trio_waits)
  from run_store [OF this _ g1(2) repl_hi_texts(1,3), of 2 cd] obtain g2 s1 s2 where g2:
    "?step\<^sup>*\<^sup>* g1 g2"
    "\<forall>k. k \<noteq> Some False \<longrightarrow> grp_nodes g2 k = grp_nodes g1 k"
    "app_channel (node (grp_nodes g2 (Some False))) = [FromApplication s1 GossipsubGetInfo,
       FromApplication s2 (GossipsubBroadcastMessage ?rn (strong_message ?rn ''m''))]"
    unfolding g1(3) by blast
  obtain g3 conf where g3: "?step\<^sup>*\<^sup>* g2 g3"
    "published ?rn (strong_message ?rn ''m'') conf"
    "in_flight g3 = (\<lambda>k. if k = Some False then in_flight g2 k else add_mset conf (in_flight g2 k))"
    "\<forall>k. k \<noteq> Some False \<longrightarrow> grp_nodes g3 k = grp_nodes g2 k"
    using run_confirm [OF g2(3), of 2 cd] by blast
  let ?c = "node (grp_nodes g3 (Some True))"
  have "grp_nodes g3 (Some True) = grp_nodes ?g0 (Some True)" using g2(2) g3(4) same by simp
  then have w: "waiting All_Peers ?rn ?c" "queue (replica_buffer ?c) ?rn = Some []"
    using trio_waits [of All_Peers] by (simp_all add: strong_trio_def loop_start_def strong_replica_queues)
  then have c: "calm (Suc 1) ?c" "calm 1 ?c" "map_of (temp_of ?c ?rn) ''m'' = None" "repl_cfg ?c ?rn \<noteq> None"
    "consistency_model (replica_buffer ?c) = Strong All_Peers"
    by (auto simp: waiting_def calm_def strong_member_def)
  obtain c' where c': "run_task cd silent_env (DataConfirmation ?rn ''m'') (spawn (DataConfirmation ?rn ''m'') ?c) = Some c'"
    "calm 1 c'" "replica_buffer c' = replica_buffer ?c" "repl_cfg c' ?rn = repl_cfg ?c ?rn"
    using unmatched_count [OF c(1,3,5)] by blast
  have "conf \<in># in_flight g3 (Some True)" by (simp add: g3(3))
  from run_count [OF this g3(2) repl_hi_texts(2,3) c(2) c'(1), of 2] c(3) obtain g4 where
    g4: "?step\<^sup>*\<^sup>* g3 g4" "(Some True, ''m'') \<in># unmatched g4"
    "node (grp_nodes g4 (Some True)) = finish_task (DataConfirmation ?rn ''m'') c'" by blast
  have "?step\<^sup>*\<^sup>* ?g0 g4" using g1(1) g2(1) g3(1) g4(1) by (meson rtranclp_trans)
  then show ?thesis using g4(2,3) c'(2-4) c(4) w(2) by (intro exI [of _ g4]) (simp add: finish_task_def repl_cfg_def calm_def)
qed

text \<open>Then it clones the buffer of a peer that has the data.\<close>

theorem early_confirmation_hides_data_witness:
  "\<exists>g d. (strong_step 2 total_codecs REPL_NETWORK_ID)\<^sup>*\<^sup>* (strong_trio All_Peers) g
     \<and> (Some True, ''m'') \<in># unmatched g
     \<and> d \<in> set (public_queue (node (grp_nodes g (Some True))) REPL_NETWORK_ID) \<and> message_id d = ''m''
     \<and> confirmations d = None"
proof -
  let ?rn = REPL_NETWORK_ID and ?step = "strong_step 2 total_codecs REPL_NETWORK_ID"
  let ?d = "sample_msg 7 ''m''" and ?j = "Some True"
  let ?rb = "(replica_buffer_new ReplDefault)\<lparr>queue := [?rn \<mapsto> [?d]]\<rparr>"
  obtain g where g: "?step\<^sup>*\<^sup>* (strong_trio All_Peers) g" "(?j, ''m'') \<in># unmatched g"
    "calm 1 (node (grp_nodes g ?j))" "queue (replica_buffer (node (grp_nodes g ?j))) ?rn = Some []"
    "repl_cfg (node (grp_nodes g ?j)) ?rn \<noteq> None"
    using early_run by blast
  let ?c = "node (grp_nodes g ?j)" and ?env = "pull_env total_codecs ?rb"
  let ?g' = "set_node ?j ((grp_nodes g ?j)\<lparr>node := fst (replicate_buffer total_codecs ?env ?rn (PeerId ''b'') ?c)\<rparr>) g"
  have step: "?step\<^sup>*\<^sup>* g ?g'" by (rule r_into_rtranclp) (rule s_clone)
  have "serves_pulls total_codecs ?env ?rn (PeerId ''b'') ?rb ?c"
    by (rule pull_env_serves) (use g(3) in \<open>simp_all add: calm_def\<close>)
  from cloned_entries [OF total_codecs_ok _ _ _ this g(5,4), of "[?d]"] obtain c' where
    c': "replicate_buffer total_codecs ?env ?rn (PeerId ''b'') ?c = (c', Inr ())"
    "queue (replica_buffer c') ?rn = Some (insert_all (pulled [[]] [?d]) [])" by auto
  have "insert_all (pulled [[]] [?d]) [] = [?d]"
    by (simp add: insert_all_def pulled_def rset_insert_def) (simp add: sample_msg_def)
  then have d: "?d \<in> set (public_queue (node (grp_nodes ?g' ?j)) ?rn)" "message_id ?d = ''m''"
    using c' by (simp_all add: public_queue_def or_default_def sample_msg_def)
  have "card (UNIV :: bool option set) - 1 \<le> 2" by (simp add: trio_size)
  from early_confirmation_hides_data [OF repl_network_text strong_trio_start this g(1,2) step d]
  have "confirmations ?d = None" .
  moreover have "?step\<^sup>*\<^sup>* (strong_trio All_Peers) ?g'" using g(1) step by simp
  ultimately show ?thesis using g(2) d by (intro exI [of _ ?g'] exI [of _ ?d]) simp
qed

text \<open>The third node stores the message, then the second one does and confirms it.\<close>

lemma second_vote:
  assumes "temp_of c rn = [(mid, d)]" "confirmations d = Some 1" "public_queue c rn = []"
    and "config (replica_buffer c) = ReplCustom 150 None 5 (Strong (MinPeers 2)) 5"
  shows "\<exists>c'. run_task cd silent_env (DataConfirmation rn mid) (spawn (DataConfirmation rn mid) c) = Some c'
     \<and> public_queue c' rn = [d\<lparr>confirmations := Some 2\<rparr>]"
proof -
  have tq: "temporary_queue (replica_buffer c) rn = Some [(mid, d)]"
    using assms(1) by (simp add: temp_of_def or_default_def split: option.splits)
  have "drop_loop 150 [] = Some []" by (simp add: drop_loop_total)
  moreover have "or_default (queue (replica_buffer c)) rn = []" using assms(3) by (simp add: public_queue_def)
  ultimately show ?thesis
    using assms(2,4) tq
    by (simp add: handle_data_confirmation_def required_peers_def consistency_model_def spawn_def
        confirm_with_def confirm_temp_def confirm_entry_def confirm_move_def confirm_cleanup_def full_def
        public_queue_def or_default_def set_buffer_def rset_insert_def Let_def)
qed

lemma quorum_run:
  "\<exists>g d. (strong_step 2 sample_codecs REPL_NETWORK_ID)\<^sup>*\<^sup>* (strong_trio (MinPeers 2)) g
     \<and> d \<in> set (public_queue (node (grp_nodes g (Some True))) REPL_NETWORK_ID) \<and> message_id d = ''m''
     \<and> confirmations d = Some 2"
proof -
  let ?rn = REPL_NETWORK_ID and ?g0 = "strong_trio (MinPeers 2)"
  have log: "''m'' \<notin> logged_id ` set (grp_log ?g0)" by (simp add: strong_trio_def)
  obtain g1 msg sent clk where g1: "(strong_step 2 sample_codecs ?rn)\<^sup>*\<^sup>* ?g0 g1"
    "published ?rn (repl_message sent clk ?rn [''hi'']) msg" "gossip_id msg = ''m''"
    "in_flight g1 = (\<lambda>j. if j = None then in_flight ?g0 j else add_mset msg (in_flight ?g0 j))"
    "\<forall>j. j \<noteq> None \<longrightarrow> grp_nodes g1 j = grp_nodes ?g0 j"
    using run_publish [OF trio_waits repl_hi_texts(1,2) log] by blast
  have same: "grp_nodes g1 (Some b) = grp_nodes ?g0 (Some b)" for b using g1(5) by blast
  have wait: "msg \<in># in_flight g1 (Some b)" "waiting (MinPeers 2) ?rn (node (grp_nodes g1 (Some b)))"
    "config (replica_buffer (node (grp_nodes g1 (Some b)))) = ReplCustom 150 None 5 (Strong (MinPeers 2)) 5" for b
    unfolding same using g1(4) trio_waits
    by (simp_all add: strong_trio_def loop_start_def strong_replica_queues)
  have two: "MinPeers 2 \<noteq> MinPeers 1" by simp
  obtain g2 d where g2: "(strong_step 2 sample_codecs ?rn)\<^sup>*\<^sup>* g1 g2"
    "in_flight g2 = (in_flight g1)(Some True := in_flight g1 (Some True) - {#msg#})"
    "\<forall>k. k \<noteq> Some True \<longrightarrow> grp_nodes g2 k = grp_nodes g1 k"
    "temp_of (node (grp_nodes g2 (Some True))) ?rn = [(''m'', d)]" "confirmations d = Some 1" "message_id d = ''m''"
    "public_queue (node (grp_nodes g2 (Some True))) ?rn = []" "calm 1 (node (grp_nodes g2 (Some True)))"
    "config (replica_buffer (node (grp_nodes g2 (Some True)))) = ReplCustom 150 None 5 (Strong (MinPeers 2)) 5"
    using run_store [OF wait(1) [of True] wait(2) [of True] two g1(2) repl_hi_texts(1,3), of 2 sample_codecs] g1(3) wait(3) by auto
  have "msg \<in># in_flight g2 (Some False)" "waiting (MinPeers 2) ?rn (node (grp_nodes g2 (Some False)))"
    using g2(2,3) wait by simp_all
  from run_store [OF this two g1(2) repl_hi_texts(1,3), of 2 sample_codecs] obtain g3 s1 s2 where g3:
    "(strong_step 2 sample_codecs ?rn)\<^sup>*\<^sup>* g2 g3"
    "\<forall>k. k \<noteq> Some False \<longrightarrow> grp_nodes g3 k = grp_nodes g2 k"
    "app_channel (node (grp_nodes g3 (Some False))) = [FromApplication s1 GossipsubGetInfo,
       FromApplication s2 (GossipsubBroadcastMessage ?rn (strong_message ?rn ''m''))]"
    unfolding g1(3) by blast
  obtain g4 conf where g4: "(strong_step 2 sample_codecs ?rn)\<^sup>*\<^sup>* g3 g4"
    "published ?rn (strong_message ?rn ''m'') conf"
    "in_flight g4 = (\<lambda>k. if k = Some False then in_flight g3 k else add_mset conf (in_flight g3 k))"
    "\<forall>k. k \<noteq> Some False \<longrightarrow> grp_nodes g4 k = grp_nodes g3 k"
    using run_confirm [OF g3(3), of 2 sample_codecs] by blast
  let ?c = "node (grp_nodes g4 (Some True))"
  have c: "temp_of ?c ?rn = [(''m'', d)]" "public_queue ?c ?rn = []" "calm 1 ?c"
    "config (replica_buffer ?c) = ReplCustom 150 None 5 (Strong (MinPeers 2)) 5"
    using g2(4,7-9) g3(2) g4(4) by simp_all
  obtain c' where c': "run_task sample_codecs silent_env (DataConfirmation ?rn ''m'') (spawn (DataConfirmation ?rn ''m'') ?c) = Some c'"
    "public_queue c' ?rn = [d\<lparr>confirmations := Some 2\<rparr>]"
    using second_vote [OF c(1) g2(5) c(2,4)] by blast
  have "conf \<in># in_flight g4 (Some True)" by (simp add: g4(3))
  from run_count [OF this g4(2) repl_hi_texts(2,3) c(3) c'(1), of 2] obtain g5 where
    "(strong_step 2 sample_codecs ?rn)\<^sup>*\<^sup>* g4 g5" "public_queue (node (grp_nodes g5 (Some True))) ?rn = [d\<lparr>confirmations := Some 2\<rparr>]"
    using c'(2) by (auto simp: finish_task_def public_queue_def)
  with g1(1) g2(1,6) g3(1) g4(1) show ?thesis
    by (intro exI [of _ g5] exI [of _ "d\<lparr>confirmations := Some 2\<rparr>"]) auto
qed

theorem public_data_held_by_quorum_witness:
  "\<exists>g d. (strong_step 2 sample_codecs REPL_NETWORK_ID)\<^sup>*\<^sup>* (strong_trio (MinPeers 2)) g
     \<and> d \<in> set (public_queue (node (grp_nodes g (Some True))) REPL_NETWORK_ID)
     \<and> 2 \<le> card {k. (k, message_id d) \<in> held g}"
proof -
  obtain g d where g: "(strong_step 2 sample_codecs REPL_NETWORK_ID)\<^sup>*\<^sup>* (strong_trio (MinPeers 2)) g"
    "d \<in> set (public_queue (node (grp_nodes g (Some True))) REPL_NETWORK_ID)" "confirmations d = Some 2"
    using quorum_run by blast
  from public_data_held_by_quorum [OF repl_network_text strong_trio_start g refl]
  have "unat (2 :: u64) \<le> card {k. (k, message_id d) \<in> held g}" by blast
  then show ?thesis using g by auto
qed

theorem group_runs_are_ballots_witness:
  "\<exists>g. (strong_step 2 sample_codecs REPL_NETWORK_ID)\<^sup>*\<^sup>* (strong_trio (MinPeers 2)) g
     \<and> public_queue (node (grp_nodes g (Some True))) REPL_NETWORK_ID \<noteq> []
     \<and> (ballot_step 2)\<^sup>*\<^sup>* (ballot_of REPL_NETWORK_ID ''m'' (strong_trio (MinPeers 2)))
           (ballot_of REPL_NETWORK_ID ''m'' g)"
proof -
  obtain g d where g: "(strong_step 2 sample_codecs REPL_NETWORK_ID)\<^sup>*\<^sup>* (strong_trio (MinPeers 2)) g"
    "d \<in> set (public_queue (node (grp_nodes g (Some True))) REPL_NETWORK_ID)" using quorum_run by blast
  have "quorum 2 (MinPeers 2) = 2" by (simp add: quorum_def)
  with group_runs_are_ballots [OF repl_network_text strong_trio_start g(1), of "''m''"] g
  show ?thesis by (intro exI [of _ g]) auto
qed

end
