(* ===== verification/Shard_Views.thy ===== *)
theory Shard_Views
  imports Shard_Group Strong_Props
begin

text \<open>
  What the runs of a shard group come to: once nothing is on its way, the views of the nodes that
  have announced themselves lie between the memberships announced and kept and those asked for.
  The second half is a run of two nodes, in which the second one learns of the first by the view
  it is sent.
\<close>

section \<open>The views of a quiet group\<close>

definition shard_start :: "codecs \<Rightarrow> string \<Rightarrow> 'n shard_group \<Rightarrow> bool" where
  "shard_start cd net g \<longleftrightarrow> peer_text_ok cd \<and> utf8_valid net \<and> inj (me g) \<and> announced g = {}
     \<and> untold g = {}
     \<and> (\<forall>i. shard_net (sg_core g i) = net \<and> gossip_text (peer_str cd (me g i))
          \<and> app_channel (sg_core g i) = [] \<and> shard_view (sg_core g i) = Map.empty
          \<and> gossip_to g i = {#} \<and> rpc_to g i = {#})"

lemma shard_start_ok: "shard_start cd net g \<Longrightarrow> shard_group_ok cd net g"
  by (simp add: shard_start_def shard_group_ok_def shard_member_def view_in_def members_def)

definition shard_quiet :: "'n shard_group \<Rightarrow> bool" where
  "shard_quiet g \<longleftrightarrow> (\<forall>i. gossip_to g i = {#} \<and> rpc_to g i = {#}
     \<and> (\<forall>rid keys peer. FromApplication rid (SendRpc keys peer) \<notin> set (app_channel (sg_core g i)))
     \<and> (\<forall>peer. PublishShardState peer \<notin> set (tasks (sg_core g i))))"

lemma quiet_knows:
  "shard_quiet g \<Longrightarrow> knows cd net g i s j \<Longrightarrow> (me g i, me g j) \<notin> untold g \<Longrightarrow>
     me g i \<in> members (shard_view (sg_core g j)) s"
  by (auto simp: shard_quiet_def knows_def hears_def queued_view_def sent_view_def)

text \<open>C4: Whatever the order in which nodes subscribe, join and leave shards, publish, and receive or
  lose announcements and views, and whether or not their requests to send a view are accepted: once
  nothing is on its way, the view of every node that has announced itself (its join was published
  while it was subscribed) holds, of each shard, every member that announced itself and never asked
  to leave, the ones from before its own arrival included, except a member of which it was not told
  because a join announcement of one of the two was lost on its way to the other, because a view
  that held this member was lost on its way to the node, or because this member's request to send
  the node its view was refused. And it holds nobody who never tried to join that shard. It is
  assumed that the JSON of a view that is sent reads back as this view, and that the names of
  shards and peers are UTF-8 without the separator of the gossip fields.\<close>

theorem shard_views_agree:
  assumes "shard_start cd net g0" "(shard_step cd net)\<^sup>*\<^sup>* g0 g" "shard_quiet g"
    and "(me g j, r) \<in> announced g"
  shows "{me g i | i. (me g i, s) \<in> announced g - given_up g \<and> (me g i, me g j) \<notin> untold g}
       \<subseteq> members (shard_view (sg_core g j)) s
     \<and> members (shard_view (sg_core g j)) s \<subseteq> {p. (p, s) \<in> tried g}"
proof
  have ok: "shard_group_ok cd net g"
    using shard_groups.inv_steps [OF assms(2)] shard_start_ok [OF assms(1)] by blast
  have "knows cd net g i s j" if "(me g i, s) \<in> announced g - given_up g" for i
    using ok that assms(4) unfolding shard_group_ok_def by blast
  then show "{me g i | i. (me g i, s) \<in> announced g - given_up g \<and> (me g i, me g j) \<notin> untold g}
       \<subseteq> members (shard_view (sg_core g j)) s"
    using quiet_knows [OF assms(3)] by blast
  show "members (shard_view (sg_core g j)) s \<subseteq> {p. (p, s) \<in> tried g}"
    using member_facts(4) [OF ok, where i = j] by (auto simp: view_in_def)
qed

section \<open>A run\<close>

text \<open>Every request is answered at once.\<close>

definition welcome_env :: env where
  "welcome_env = silent_env\<lparr>arrivals := (\<lambda>sid req n. if n = 0 then [ToApplication sid GossipsubJoinSuccess] else [])\<rparr>"

definition welcomed :: "nat \<Rightarrow> core \<Rightarrow> bool" where
  "welcomed room c \<longleftrightarrow> calm room c \<and> 0 < resp_size (response_buffer c)"

lemma welcome_recv:
  assumes "resp_buffer (response_buffer c) = []" "0 < resp_size (response_buffer c)"
  shows "recv_from_network (arrivals welcome_env sid r) sid c = (c, Inr GossipsubJoinSuccess)"
  using assms
  by (simp add: recv_from_network_def recv_loop.simps [of _ _ 0] welcome_env_def handle_network_response_def
      response_insert_def response_remove_def response_result_def Let_def)

lemma welcome_query:
  assumes "welcomed (Suc room) c" "\<not> untracked r"
  shows "app_channel (fst (query_network welcome_env r c)) = app_channel c @ [FromApplication (take_id c) r]"
    and "welcomed room (fst (query_network welcome_env r c))"
    and "snd (query_network welcome_env r c) = Inr GossipsubJoinSuccess"
proof -
  have room: "card (req_buffer (request_buffer c)) < req_size (request_buffer c)"
    using assms(1) by (simp add: welcomed_def calm_def)
  have up: "chan_open welcome_env" by (simp add: welcome_env_def)
  show "app_channel (fst (query_network welcome_env r c)) = app_channel c @ [FromApplication (take_id c) r]"
    by (rule channel_query) (use room up assms(2) in simp_all)
  have "snd (send_to_network welcome_env r c) = Some (take_id c)"
    unfolding send_to_network_def take_id_def [symmetric]
    by (rule send_accepts) (use room up assms(2) in simp_all)
  then obtain c1 where c1: "send_to_network welcome_env r c = (c1, Some (take_id c))" by (metis prod.collapse)
  note sent = send_with_id_Some [OF c1 [unfolded send_to_network_def]]
  have "welcomed room c1"
    using assms(1) sent card_insert_le_m1 [of "Suc (card (req_buffer (request_buffer c)))"]
    by (auto simp: welcomed_def calm_def card_insert_if)
  moreover from this have "recv_from_network (arrivals welcome_env (take_id c) r) (take_id c) c1
      = (c1, Inr GossipsubJoinSuccess)"
    by (intro welcome_recv) (simp_all add: welcomed_def calm_def)
  ultimately show "welcomed room (fst (query_network welcome_env r c))"
    "snd (query_network welcome_env r c) = Inr GossipsubJoinSuccess"
    by (simp_all add: query_network_def c1)
qed

lemma welcomed_frame [simp]:
  "welcomed room (set_replication m c) = welcomed room c" "welcomed room (set_buffer rb c) = welcomed room c"
  "welcomed room (spawn t c) = welcomed room c" "welcomed room (finish_task t c) = welcomed room c"
  "welcomed room (update_shard_view p s j c) = welcomed room c" "welcomed room (set_shard_view v c) = welcomed room c"
  "welcomed room (c\<lparr>app_channel := ch\<rparr>) = welcomed room c"
  by (simp_all add: welcomed_def calm_def set_replication_def set_buffer_def spawn_def finish_task_def
      update_shard_view_def set_shard_view_def)

lemma welcome_join_repl:
  assumes "welcomed (Suc room) c"
  shows "\<exists>rid. app_channel (fst (join_repl_network welcome_env rn c))
      = app_channel c @ [FromApplication rid (GossipsubJoinNetwork rn)]"
    and "welcomed room (fst (join_repl_network welcome_env rn c))"
proof -
  define c2 where "c2 = set_buffer (buffer_init rn (replica_buffer c)) (set_replication
      ((replication (network_info c))(rn \<mapsto> (case repl_cfg c rn of
           None \<Rightarrow> \<lparr>cfg_clock = 0, last_clock = 0, cfg_nodes = Map.empty\<rparr> | Some d \<Rightarrow> d))) c)"
  let ?c3 = "fst (query_network welcome_env (GossipsubJoinNetwork rn) c2)"
  have c2: "welcomed (Suc room) c2" "app_channel c2 = app_channel c"
    using assms by (simp_all add: c2_def) (simp_all add: set_buffer_def set_replication_def)
  have "fst (join_repl_network welcome_env rn c) \<in> {?c3, spawn (SyncEventual rn) ?c3}"
    by (auto simp: c2_def join_repl_network_def set_replication_def Let_def split: prod.split sum.split)
  then show "\<exists>rid. app_channel (fst (join_repl_network welcome_env rn c))
      = app_channel c @ [FromApplication rid (GossipsubJoinNetwork rn)]"
    "welcomed room (fst (join_repl_network welcome_env rn c))"
    using welcome_query(1,2) [OF c2(1), of "GossipsubJoinNetwork rn"] c2(2) by auto
qed

lemma welcome_join:
  fixes cd sid c
  defines "c' \<equiv> fst (join_network cd welcome_env sid c)"
  assumes "welcomed (Suc (Suc (Suc room))) c" "app_channel c = []" "utf8_valid (shard_net c)" "shard_net c \<noteq> []"
  shows "\<exists>r1 r2 r3. app_channel c' = [FromApplication r1 (GossipsubJoinNetwork (shard_net c)),
       FromApplication r2 (GossipsubJoinNetwork sid),
       FromApplication r3 (GossipsubBroadcastMessage (shard_net c) (join_message cd (core_peer c) sid))]"
    and "welcomed room c'" "core_peer c' = core_peer c" "shard_net c' = shard_net c" "same_publishers c c'"
    and "shard_view c' = update_shard_state (core_peer c) sid True (shard_view c)"
proof -
  let ?net = "shard_net c" and ?p = "core_peer c"
  have net: "from_utf8_lossy ?net = ?net" using assms(4) by (simp add: from_utf8_lossy_valid)
  define c1 where "c1 = fst (query_network welcome_env (GossipsubJoinNetwork ?net) c)"
  define c2 where "c2 = update_shard_view ?p sid True c1"
  define c3 where "c3 = fst (join_repl_network welcome_env sid c2)"
  define c4 where "c4 = fst (query_network welcome_env (GossipsubBroadcastMessage ?net (join_message cd ?p sid)) c3)"
  note q1 = welcome_query [OF assms(2), of "GossipsubJoinNetwork ?net", folded c1_def]
  have c2: "welcomed (Suc (Suc room)) c2" "core_peer c2 = ?p" "shard_net c2 = ?net" "tasks c2 = tasks c"
    "shard_view c2 = update_shard_state ?p sid True (shard_view c)"
    "app_channel c2 = [FromApplication (take_id c) (GossipsubJoinNetwork ?net)]"
    using q1(1,2) assms(3) by (simp_all add: c2_def) (simp_all add: c1_def)
  note c3 = welcome_join_repl [OF c2(1), of sid, folded c3_def] join_repl_frame(1-4) [where env = welcome_env and rn = sid and c = c2, folded c3_def]
  have "c' = c4"
    using q1(3) join_repl_frame(1) [where env = welcome_env and rn = sid and c = c2] assms(5)
    by (simp add: c'_def join_network_def net c4_def c3_def c2_def c1_def Let_def case_prod_beta split: sum.split)
  moreover note welcome_query [OF c3(2), of "GossipsubBroadcastMessage ?net (join_message cd ?p sid)", folded c4_def]
  ultimately show "\<exists>r1 r2 r3. app_channel c' = [FromApplication r1 (GossipsubJoinNetwork ?net),
       FromApplication r2 (GossipsubJoinNetwork sid),
       FromApplication r3 (GossipsubBroadcastMessage ?net (join_message cd ?p sid))]"
    "welcomed room c'" "core_peer c' = ?p" "shard_net c' = ?net" "same_publishers c c'"
    "shard_view c' = update_shard_state ?p sid True (shard_view c)"
    using c2 c3 by (auto simp: c4_def same_publishers_def)
qed

lemma step_subscribe:
  assumes "app_channel (sg_core g i) = FromApplication rid (GossipsubJoinNetwork topic) # rest"
  shows "\<exists>ls. shard_step cd net g ((put_node i ls g)\<lparr>listening := (if topic = net then insert i (listening g) else listening g)\<rparr>)
     \<and> node ls = (sg_core g i)\<lparr>app_channel := rest\<rparr>"
proof -
  have ch: "app_channel (node (sg_nodes g i)) = FromApplication rid (GossipsubJoinNetwork topic) # rest"
    using assms by (simp add: sg_core_def)
  have ok: "call_ok sample_swarm x" for x by (simp add: sample_swarm_def)
  from sh_subscribe [OF assms, of cd net sample_swarm] join_served [OF ch, of cd sample_swarm] show ?thesis
    by (intro exI [of _ "receive_request cd sample_swarm (sg_nodes g i)"]) (simp add: sg_core_def ok cong: if_cong)
qed

lemma step_publish:
  assumes "app_channel (sg_core g i) = FromApplication rid (GossipsubBroadcastMessage net m) # rest"
  shows "\<exists>ls msg. shard_step cd net g (put_node i ls (announce cd i m msg g))
     \<and> published net m msg \<and> node ls = (sg_core g i)\<lparr>app_channel := rest\<rparr>"
proof -
  have ch: "app_channel (node (sg_nodes g i)) = FromApplication rid (GossipsubBroadcastMessage net m) # rest"
    using assms by (simp add: sg_core_def)
  let ?ls = "receive_request cd sample_swarm (sg_nodes g i)"
  let ?msg = "\<lparr>propagation_source = PeerId ''q'', gossip_id = ''g'', gossip_source = None,
      gossip_payload = join_with GOSSIP_MESSAGE_SEPARATOR m, gossip_topic = net\<rparr>"
  have "shard_step cd net g (put_node i ?ls (announce cd i m ?msg g))"
    by (rule sh_publish [OF assms refl broadcast_served(2) [OF ch]]) (simp add: sample_swarm_def)
  moreover have "published net m ?msg" by (simp add: published_def)
  moreover have "node ?ls = (sg_core g i)\<lparr>app_channel := rest\<rparr>"
    using broadcast_served(1) [OF ch] by (simp add: sg_core_def)
  ultimately show ?thesis by blast
qed

lemma put_core_of [simp]:
  "sg_core (put_node i ls g) k = (if k = i then node ls else sg_core g k)"
  "sg_core (put_core i c g) k = (if k = i then c else sg_core g k)"
  "sg_core (g\<lparr>listening := L\<rparr>) k = sg_core g k" "sg_core (g\<lparr>tried := T\<rparr>) k = sg_core g k"
  "sg_core (g\<lparr>gossip_to := F\<rparr>) k = sg_core g k" "sg_core (g\<lparr>rpc_to := R\<rparr>) k = sg_core g k"
  "gossip_to (put_core i c g) = gossip_to g" "rpc_to (put_core i c g) = rpc_to g"
  "announced (put_core i c g) = announced g" "listening (put_core i c g) = listening g"
  "given_up (put_core i c g) = given_up g" "untold (put_core i c g) = untold g"
  by (simp_all add: sg_core_def put_node_def put_core_def)

text \<open>A node that joins a shard, from the call to the announcement.\<close>

definition joined_run ::
    "codecs \<Rightarrow> string \<Rightarrow> 'n \<Rightarrow> shard_id \<Rightarrow> nat \<Rightarrow> 'n shard_group \<Rightarrow> 'n shard_group \<Rightarrow> gossip_message \<Rightarrow> bool" where
  "joined_run cd net i sid room g g' msg \<longleftrightarrow>
     (shard_step cd net)\<^sup>*\<^sup>* g g' \<and> published net (join_message cd (me g i) sid) msg
     \<and> (\<forall>k. k \<noteq> i \<longrightarrow> sg_core g' k = sg_core g k) \<and> app_channel (sg_core g' i) = [] \<and> me g' i = me g i
     \<and> welcomed room (sg_core g' i) \<and> shard_net (sg_core g' i) = net \<and> same_publishers (sg_core g i) (sg_core g' i)
     \<and> shard_view (sg_core g' i) = update_shard_state (me g i) sid True (shard_view (sg_core g i))
     \<and> announced g' = insert (me g i, sid) (announced g) \<and> listening g' = insert i (listening g)
     \<and> gossip_to g' = (\<lambda>j. if j \<in> listening g \<and> j \<noteq> i then add_mset msg (gossip_to g j) else gossip_to g j)
     \<and> rpc_to g' = rpc_to g \<and> given_up g' = given_up g \<and> untold g' = untold g"

lemma run_join:
  assumes "welcomed (Suc (Suc (Suc room))) (sg_core g i)" "app_channel (sg_core g i) = []"
    and "shard_net (sg_core g i) = net" "utf8_valid net" "net \<noteq> []" "gossip_text sid"
  shows "\<exists>g' msg. joined_run cd net i sid room g g' msg"
proof -
  let ?c = "fst (join_network cd welcome_env sid (sg_core g i))" and ?m = "join_message cd (me g i) sid"
  note j = welcome_join [where cd = cd and sid = sid, OF assms(1,2), unfolded assms(3), OF assms(4,5), folded me_def]
  obtain r1 r2 r3 where ch: "app_channel ?c = [FromApplication r1 (GossipsubJoinNetwork net),
       FromApplication r2 (GossipsubJoinNetwork sid), FromApplication r3 (GossipsubBroadcastMessage net ?m)]"
    using j(1) by blast
  define g1 where "g1 = (put_core i ?c g)\<lparr>tried := insert (me g i, sid) (tried g)\<rparr>"
  have s1: "shard_step cd net g g1" unfolding g1_def by (rule sh_join [OF assms(6)])
  have c1: "sg_core g1 k = (if k = i then ?c else sg_core g k)" for k by (simp add: g1_def)
  then obtain l2 where l2: "shard_step cd net g1 ((put_node i l2 g1)\<lparr>listening := insert i (listening g1)\<rparr>)"
    "node l2 = ?c\<lparr>app_channel := [FromApplication r2 (GossipsubJoinNetwork sid),
       FromApplication r3 (GossipsubBroadcastMessage net ?m)]\<rparr>"
    using step_subscribe [of g1 i r1 net _ cd net] ch by auto
  define g2 where "g2 = (put_node i l2 g1)\<lparr>listening := insert i (listening g1)\<rparr>"
  have c2: "sg_core g2 k = (if k = i then node l2 else sg_core g k)" for k by (simp add: g2_def c1)
  then obtain l3 where l3: "shard_step cd net g2 ((put_node i l3 g2)\<lparr>listening := (if sid = net then insert i (listening g2) else listening g2)\<rparr>)"
    "node l3 = ?c\<lparr>app_channel := [FromApplication r3 (GossipsubBroadcastMessage net ?m)]\<rparr>"
    using step_subscribe [of g2 i r2 sid _ cd net] l2(2) by auto
  define g3 where "g3 = (put_node i l3 g2)\<lparr>listening := (if sid = net then insert i (listening g2) else listening g2)\<rparr>"
  have c3: "sg_core g3 k = (if k = i then node l3 else sg_core g k)" for k by (simp add: g3_def c2)
  then obtain l4 msg where l4: "shard_step cd net g3 (put_node i l4 (announce cd i ?m msg g3))" "published net ?m msg"
    "node l4 = ?c\<lparr>app_channel := []\<rparr>"
    using step_publish [of g3 i r3 net ?m _ cd] l3(2) by auto
  define g4 where "g4 = put_node i l4 (announce cd i ?m msg g3)"
  have c4: "sg_core g4 k = (if k = i then node l4 else sg_core g k)" for k by (simp add: g4_def c3)
  have "(shard_step cd net)\<^sup>*\<^sup>* g g4"
    using s1 l2(1) l3(1) l4(1) unfolding g2_def [symmetric] g3_def [symmetric] g4_def [symmetric]
    by (meson converse_rtranclp_into_rtranclp r_into_rtranclp)
  moreover have me3: "me g3 i = me g i" using j(3) by (simp add: me_def c3 l3(2))
  have "announced g4 = insert (me g i, sid) (announced g)"
    using assms(6) by (auto simp: g4_def announce_def me3) (auto simp: g3_def g2_def g1_def)
  moreover have "gossip_to g4 = (\<lambda>j. if j \<in> listening g \<and> j \<noteq> i then add_mset msg (gossip_to g j) else gossip_to g j)"
    by (auto simp: g4_def announce_def g3_def g2_def g1_def fun_eq_iff)
  moreover have "listening g4 = insert i (listening g)" "rpc_to g4 = rpc_to g" "given_up g4 = given_up g"
    "untold g4 = untold g"
    by (simp_all add: g4_def g3_def g2_def g1_def insert_absorb)
  moreover have "shard_view (node l4) = shard_view ?c" by (simp add: l4(3) shard_view_def)
  moreover have "shard_net (node l4) = net" using j(4) by (simp add: l4(3) shard_net_def)
  ultimately show ?thesis
    using l4(2,3) c4 j(2,3,5,6)
    by (intro exI [of _ g4] exI [of _ msg]) (simp add: joined_run_def me_def same_publishers_def)
qed

text \<open>What happens after a join is heard: the newcomer is sent the view.\<close>

definition welcome_run ::
    "codecs \<Rightarrow> string \<Rightarrow> 'n \<Rightarrow> peer_id \<Rightarrow> shard_image \<Rightarrow> nat \<Rightarrow> gossip_message \<Rightarrow> 'n shard_group \<Rightarrow> 'n shard_group \<Rightarrow> bool" where
  "welcome_run cd net i p v room msg g g' \<longleftrightarrow>
     (shard_step cd net)\<^sup>*\<^sup>* g g' \<and> (\<forall>k. k \<noteq> i \<longrightarrow> sg_core g' k = sg_core g k) \<and> me g' i = me g i
     \<and> app_channel (sg_core g' i) = [] \<and> (\<forall>q. PublishShardState q \<notin> set (tasks (sg_core g' i)))
     \<and> gossip_to g' = (gossip_to g)(i := gossip_to g i - {#msg#})
     \<and> rpc_to g' = (\<lambda>k. if me g k = p then add_mset (publish_message cd v) (rpc_to g k) else rpc_to g k)
     \<and> announced g' = announced g \<and> given_up g' = given_up g \<and> listening g' = listening g
     \<and> untold g' = untold g
     \<and> welcomed room (sg_core g' i) \<and> shard_net (sg_core g' i) = shard_net (sg_core g i)
     \<and> shard_view (sg_core g' i) = v"

lemma run_welcome:
  assumes "msg \<in># gossip_to g i" "published net (join_message cd p s) msg" "peer_text_ok cd"
    and "gossip_text (peer_str cd p)" "gossip_text s" "app_channel (sg_core g i) = []" "welcomed (Suc room) (sg_core g i)"
    and "v = update_shard_state p s True (shard_view (sg_core g i))" "json_ok cd (text_image cd v)"
    and "\<forall>q. PublishShardState q \<notin> set (tasks (sg_core g i))"
  shows "\<exists>g'. welcome_run cd net i p v room msg g g'"
proof -
  let ?c = "sg_core g i"
  let ?ls = "update_node (update_shard_view p s True) (update_node (spawn (PublishShardState p)) (sg_nodes g i))"
  define c1 where "c1 = update_shard_view p s True (spawn (PublishShardState p) ?c)"
  define g1 where "g1 = (put_node i ?ls g)\<lparr>gossip_to := (gossip_to g)(i := gossip_to g i - {#msg#})\<rparr>"
  have s1: "shard_step cd net g g1"
    unfolding g1_def by (rule sh_receive [OF assms(1) join_received [OF assms(3,2,4,5), of 100]])
  have k1: "sg_core g1 k = (if k = i then c1 else sg_core g k)" for k by (simp add: g1_def c1_def sg_core_def)
  have c1: "shard_view c1 = v" "tasks c1 = tasks ?c @ [PublishShardState p]" "app_channel c1 = []" "welcomed (Suc room) c1"
    "core_peer c1 = me g i" "shard_net c1 = shard_net ?c" using assms(6,7,8) by (simp_all add: c1_def me_def)
  let ?req = "SendRpc (publish_message cd v) p"
  define c2 where "c2 = fst (query_network silent_env ?req c1)"
  have run: "run_task cd silent_env (PublishShardState p) c1 = Some c2"
    by (simp add: publish_shard_state_def c1(1) c2_def)
  have "calm (Suc room) c1" using c1(4) by (simp add: welcomed_def)
  then have ch2: "app_channel c2 = [FromApplication (take_id c1) ?req]" and "calm room c2"
    using silent_query(1,2) [of room c1 ?req] c1(3) by (simp_all add: c2_def)
  moreover have "resp_size (response_buffer c2) = resp_size (response_buffer c1)"
    using evolves_query [of c1 silent_env ?req] by (simp add: c2_def evolves_def grows_def)
  ultimately have w2: "welcomed room c2" "shard_net c2 = shard_net ?c" "shard_view c2 = v"
    using c1(1,4,6) by (simp_all add: welcomed_def c2_def)
  define g2 where "g2 = put_core i (finish_task (PublishShardState p) c2) g1"
  have s2: "shard_step cd net g1 g2"
    unfolding g2_def
    by (rule sh_send_view [where env = silent_env and rid = "take_id c1"])
      (use run ch2 c1 assms(9) in \<open>simp_all add: k1\<close>)
  have k2: "sg_core g2 k = (if k = i then finish_task (PublishShardState p) c2 else sg_core g k)" for k
    by (simp add: g2_def k1)
  have ch3: "app_channel (node (sg_nodes g2 i)) = FromApplication (take_id c1) ?req # []"
    using ch2 k2 [of i] by (simp add: sg_core_def)
  define g3 where "g3 = put_node i (receive_request cd sample_swarm (sg_nodes g2 i)) (send_rpc_to p (publish_message cd v) g2)"
  have s3: "shard_step cd net g2 g3"
    unfolding g3_def by (rule sh_request) (use ch3 in \<open>simp add: sg_core_def\<close>)
  have k3: "sg_core g3 k = (if k = i then (finish_task (PublishShardState p) c2)\<lparr>app_channel := []\<rparr> else sg_core g k)" for k
    using rpc_served [OF ch3, of cd sample_swarm] k2 by (simp add: g3_def) (simp add: sg_core_def)
  have me2: "me g2 k = me g k" for k using c1(5) k2 [of k] by (simp add: me_def c2_def)
  have "(shard_step cd net)\<^sup>*\<^sup>* g g3" using s1 s2 s3 by (meson converse_rtranclp_into_rtranclp r_into_rtranclp)
  moreover have "rpc_to g3 = (\<lambda>k. if me g k = p then add_mset (publish_message cd v) (rpc_to g k) else rpc_to g k)"
    by (simp add: g3_def send_rpc_to_def me2 fun_eq_iff) (simp add: g2_def g1_def)
  moreover have "gossip_to g3 = (gossip_to g)(i := gossip_to g i - {#msg#})" "announced g3 = announced g"
    "given_up g3 = given_up g" "untold g3 = untold g" by (simp_all add: g3_def g2_def g1_def)
  moreover have "PublishShardState q \<notin> set (tasks (sg_core g3 i))" for q
    using assms(10) c1(2) by (simp add: k3 finish_task_def c2_def remove1_append)
  moreover have "me g3 i = me g i" using c1(5) by (simp add: me_def k3 c2_def)
  moreover have "listening g3 = listening g" by (simp add: g3_def g2_def g1_def)
  moreover have "welcomed room (sg_core g3 i)" "shard_net (sg_core g3 i) = shard_net ?c" "shard_view (sg_core g3 i) = v"
    using w2 by (simp_all add: k3) (simp_all add: shard_net_def shard_view_def finish_task_def)
  ultimately show ?thesis by (intro exI [of _ g3]) (simp add: welcome_run_def k3)
qed

lemma view_served:
  assumes "peer_text_ok cd" "json_ok cd (text_image cd v)"
  shows "\<exists>ls'. handle_rpc_request cd asker channel (publish_message cd v) ls = Some ls'"
  using bytes_image_roundtrip [OF assms]
  by (auto simp: handle_rpc_request_def publish_message_def index_def rpc_flags_ascii
      rpc_flags_differ serve_shard_sync_def)

definition pair_node :: "string \<Rightarrow> core" where
  "pair_node p = (let c = sample_core 9; info = network_info c in
     c\<lparr>core_peer := PeerId p, network_info := info\<lparr>sharding := (sharding info)\<lparr>sh_id := ''net''\<rparr>\<rparr>\<rparr>)"

definition pair_view :: shard_image where
  "pair_view = update_shard_state (PeerId ''hi'') ''m'' True (update_shard_state (PeerId ''p'') ''m'' True Map.empty)"

definition pair_codecs :: codecs where
  "pair_codecs = total_codecs
     \<lparr>image_json := (\<lambda>m. if m = text_image total_codecs pair_view then Some ''J'' else None),
      json_image := (\<lambda>b. Some (text_image total_codecs pair_view))\<rparr>"

definition pair_group :: "bool shard_group" where
  "pair_group = \<lparr>sg_nodes = (\<lambda>b. loop_start (pair_node (if b then ''p'' else ''hi''))), gossip_to = (\<lambda>_. {#}),
     rpc_to = (\<lambda>_. {#}), listening = {}, announced = {}, tried = {}, given_up = {}, untold = {}\<rparr>"

lemma pair_texts: "peer_text_ok pair_codecs" "peer_str pair_codecs (PeerId b) = b"
  "json_ok pair_codecs (text_image pair_codecs pair_view)"
  using total_codecs_ok by (simp_all add: pair_codecs_def peer_text_ok_def json_ok_def text_image_def)

lemma net_text: "utf8_valid ''net''"
  using sample_texts(1) unfolding gossip_text_def by (rule conjunct2)

lemma pair_nodes:
  "sg_core pair_group b = pair_node (if b then ''p'' else ''hi'')" "me pair_group b = PeerId (if b then ''p'' else ''hi'')"
  "welcomed 9 (pair_node p)" "app_channel (pair_node p) = []" "shard_net (pair_node p) = ''net''"
  "tasks (pair_node p) = []"
  by (simp_all add: sg_core_def me_def pair_group_def loop_start_def pair_node_def Let_def welcomed_def calm_def
      shard_net_def)

lemma pair_node_view: "shard_view (pair_node p) = Map.empty"
  using sample_core_simps(10) [of 9] by (simp add: pair_node_def Let_def shard_view_def)

lemma pair_start: "shard_start pair_codecs ''net'' pair_group"
  using net_text by (simp add: shard_start_def pair_texts pair_nodes pair_node_view inj_def del: utf8_valid.simps)
    (simp add: pair_group_def)

text \<open>The first node joins the shard when nobody listens; the second one joins later, and the first
  one's view is on its way to it.\<close>

definition pair_waits :: "bool shard_group \<Rightarrow> bool" where
  "pair_waits g \<longleftrightarrow> (shard_step pair_codecs ''net'')\<^sup>*\<^sup>* pair_group g
     \<and> me g True = PeerId ''p'' \<and> (PeerId ''p'', ''m'') \<in> announced g
     \<and> me g False = PeerId ''hi'' \<and> (PeerId ''hi'', ''m'') \<in> announced g \<and> given_up g = {}
     \<and> untold g = {} \<and> gossip_to g = (\<lambda>_. {#}) \<and> rpc_to g = (\<lambda>k. if k then {#} else {#publish_message pair_codecs pair_view#})
     \<and> False \<in> listening g \<and> app_channel (sg_core g True) = [] \<and> app_channel (sg_core g False) = []
     \<and> (\<forall>q. PublishShardState q \<notin> set (tasks (sg_core g True)))
     \<and> (\<forall>q. PublishShardState q \<notin> set (tasks (sg_core g False)))
     \<and> welcomed 5 (sg_core g True) \<and> shard_net (sg_core g True) = ''net'' \<and> shard_view (sg_core g True) = pair_view"

lemma pair_waiting: "\<exists>g. pair_waits g"
proof -
  let ?step = "shard_step pair_codecs ''net''" and ?g0 = pair_group
  have w: "welcomed (Suc (Suc (Suc 6))) (pair_node p)" for p using pair_nodes(3) by (simp add: numeral_eq_Suc)
  have texts: "utf8_valid ''net''" "''net'' \<noteq> []" "gossip_text ''m''" using net_text by simp_all
  have start: "welcomed (Suc (Suc (Suc 6))) (sg_core ?g0 b)" "app_channel (sg_core ?g0 b) = []"
    "shard_net (sg_core ?g0 b) = ''net''" for b using w pair_nodes by simp_all
  obtain g1 m1 where j1: "joined_run pair_codecs ''net'' True ''m'' 6 ?g0 g1 m1"
    using run_join [OF start texts] by blast
  then have g1: "?step\<^sup>*\<^sup>* ?g0 g1" "app_channel (sg_core g1 True) = []"
    "me g1 True = PeerId ''p''" "welcomed 6 (sg_core g1 True)" "same_publishers (sg_core ?g0 True) (sg_core g1 True)"
    "shard_view (sg_core g1 True) = update_shard_state (PeerId ''p'') ''m'' True Map.empty"
    "(PeerId ''p'', ''m'') \<in> announced g1" "listening g1 = {True}" "gossip_to g1 = (\<lambda>_. {#})" "rpc_to g1 = (\<lambda>_. {#})"
    "given_up g1 = {}" "shard_net (sg_core g1 True) = ''net''" "untold g1 = {}"
    unfolding joined_run_def by (simp_all add: pair_nodes pair_node_view) (simp_all add: pair_group_def)
  have "sg_core g1 False = sg_core ?g0 False" using j1 unfolding joined_run_def by blast
  then have core1: "sg_core g1 False = pair_node ''hi''" by (simp add: pair_nodes)
  have me1: "me g1 False = PeerId ''hi''" by (simp add: me_def core1 pair_node_def Let_def)
  have "welcomed (Suc (Suc (Suc 6))) (sg_core g1 False)" "app_channel (sg_core g1 False) = []"
    "shard_net (sg_core g1 False) = ''net''" using w by (simp_all add: core1 pair_nodes)
  from run_join [OF this texts] obtain g2 msg where j2: "joined_run pair_codecs ''net'' False ''m'' 6 g1 g2 msg" by blast
  then have g2: "?step\<^sup>*\<^sup>* g1 g2" "published ''net'' (join_message pair_codecs (PeerId ''hi'') ''m'') msg"
    "app_channel (sg_core g2 False) = []" "me g2 False = PeerId ''hi''"
    "same_publishers (sg_core g1 False) (sg_core g2 False)" "(PeerId ''hi'', ''m'') \<in> announced g2"
    "(PeerId ''p'', ''m'') \<in> announced g2" "gossip_to g2 = (\<lambda>j. if j \<in> {True} \<and> j \<noteq> False then add_mset msg {#} else {#})"
    "rpc_to g2 = (\<lambda>_. {#})" "given_up g2 = {}" "False \<in> listening g2" "untold g2 = {}"
    unfolding joined_run_def using g1(7-11,13) me1 by (simp_all cong: if_cong)
  have same: "sg_core g2 True = sg_core g1 True" using j2 unfolding joined_run_def by blast
  have me2: "me g2 True = PeerId ''p''" using g1(3) by (simp add: me_def same)
  have none: "PublishShardState q \<notin> set (tasks (sg_core g2 b))" for q b
    using g1(5) g2(5) by (cases b) (simp_all add: same same_publishers_def core1 pair_nodes)
  have "welcomed (Suc 5) (sg_core g2 True)" using g1(4) by (simp add: same)
  moreover have "msg \<in># gossip_to g2 True" "app_channel (sg_core g2 True) = []" using g2(8) g1(2) by (simp_all add: same)
  moreover have "\<forall>q. PublishShardState q \<notin> set (tasks (sg_core g2 True))" using none by blast
  moreover have "pair_view = update_shard_state (PeerId ''hi'') ''m'' True (shard_view (sg_core g2 True))"
    by (simp add: same g1(6) pair_view_def)
  ultimately obtain g3 where j3: "welcome_run pair_codecs ''net'' True (PeerId ''hi'') pair_view 5 msg g2 g3"
    using run_welcome [OF _ g2(2) pair_texts(1)] pair_texts(2,3) sample_texts by metis
  have core3: "sg_core g3 False = sg_core g2 False" using j3 unfolding welcome_run_def by blast
  have g3: "?step\<^sup>*\<^sup>* g2 g3" "me g3 True = PeerId ''p''"
    "app_channel (sg_core g3 True) = []" "\<forall>q. PublishShardState q \<notin> set (tasks (sg_core g3 True))"
    "gossip_to g3 = (\<lambda>_. {#})" "rpc_to g3 = (\<lambda>k. if k then {#} else {#publish_message pair_codecs pair_view#})"
    "announced g3 = announced g2" "given_up g3 = {}" "listening g3 = listening g2"
    "welcomed 5 (sg_core g3 True)" "shard_net (sg_core g3 True) = shard_net (sg_core g2 True)" "shard_view (sg_core g3 True) = pair_view"
    "untold g3 = {}"
    using j3 me2 g2(4,8-10,12) unfolding welcome_run_def by (auto simp: fun_eq_iff all_bool_eq)
  have "?step\<^sup>*\<^sup>* ?g0 g3" using g1(1) g2(1) g3(1) by (meson rtranclp_trans)
  moreover have "me g3 False = PeerId ''hi''" using g2(4) by (simp add: me_def core3)
  ultimately show ?thesis
    using g1(12) g2(3,6,7,11) g3(2-13) none by (intro exI [of _ g3]) (simp add: pair_waits_def core3 same)
qed

text \<open>The view arrives.\<close>

lemma view_arrives:
  assumes "publish_message pair_codecs pair_view \<in># rpc_to g j"
  shows "\<exists>ls. shard_step pair_codecs ''net'' g ((put_node j ls g)
       \<lparr>rpc_to := (rpc_to g)(j := rpc_to g j - {#publish_message pair_codecs pair_view#})\<rparr>)
     \<and> node ls = set_shard_view (merged (shard_view (sg_core g j)) pair_view) (sg_core g j)"
proof -
  obtain ls where ls: "handle_rpc_request pair_codecs (PeerId ''p'') 0 (publish_message pair_codecs pair_view) (sg_nodes g j) = Some ls"
    using view_served [OF pair_texts(1,3)] by blast
  from sh_view [OF assms ls] view_received [OF pair_texts(1,3) ls] show ?thesis
    unfolding sg_core_def by blast
qed

lemma pair_run:
  "\<exists>g. (shard_step pair_codecs ''net'')\<^sup>*\<^sup>* pair_group g \<and> shard_quiet g \<and> given_up g = {} \<and> untold g = {}
     \<and> me g True = PeerId ''p'' \<and> (PeerId ''p'', ''m'') \<in> announced g
     \<and> me g False = PeerId ''hi'' \<and> (PeerId ''hi'', ''m'') \<in> announced g"
proof -
  obtain g where g: "pair_waits g" using pair_waiting by blast
  then have "publish_message pair_codecs pair_view \<in># rpc_to g False" by (simp add: pair_waits_def)
  from view_arrives [OF this] obtain ls where ls: "shard_step pair_codecs ''net'' g ((put_node False ls g)
       \<lparr>rpc_to := (rpc_to g)(False := rpc_to g False - {#publish_message pair_codecs pair_view#})\<rparr>)"
    "node ls = set_shard_view (merged (shard_view (sg_core g False)) pair_view) (sg_core g False)" by blast
  let ?g' = "(put_node False ls g)
       \<lparr>rpc_to := (rpc_to g)(False := rpc_to g False - {#publish_message pair_codecs pair_view#})\<rparr>"
  have "(shard_step pair_codecs ''net'')\<^sup>*\<^sup>* pair_group g" using g by (simp add: pair_waits_def)
  then have "(shard_step pair_codecs ''net'')\<^sup>*\<^sup>* pair_group ?g'" using ls(1) by (rule rtranclp.rtrancl_into_rtrancl)
  moreover have "shard_quiet ?g'" "me ?g' True = PeerId ''p''" "me ?g' False = PeerId ''hi''"
    using g by (auto simp: pair_waits_def shard_quiet_def me_def ls(2))
  ultimately show ?thesis using g by (intro exI [of _ ?g']) (simp add: pair_waits_def)
qed

theorem shard_views_agree_witness:
  "\<exists>g. (shard_step pair_codecs ''net'')\<^sup>*\<^sup>* pair_group g \<and> PeerId ''p'' \<in> members (shard_view (sg_core g False)) ''m''"
proof -
  obtain g where g: "(shard_step pair_codecs ''net'')\<^sup>*\<^sup>* pair_group g" "shard_quiet g" "given_up g = {}"
    "me g True = PeerId ''p''" "(me g True, ''m'') \<in> announced g" "(me g False, ''m'') \<in> announced g"
    "untold g = {}"
    using pair_run by auto
  have "me g True \<in> {me g i | i. (me g i, ''m'') \<in> announced g - given_up g \<and> (me g i, me g False) \<notin> untold g}"
    using g(3,5,7) by auto
  then have "me g True \<in> members (shard_view (sg_core g False)) ''m''"
    using shard_views_agree [OF pair_start g(1,2,6), of "''m''"] by blast
  then show ?thesis using g(1,4) by (intro exI [of _ g]) simp
qed

section \<open>A member that leaves\<close>

text \<open>The first node leaves the shard again before its view reaches the second one.\<close>

lemma welcome_exit:
  fixes cd sid c
  defines "c' \<equiv> fst (exit_network cd welcome_env (\<lambda>_. []) sid c)"
  assumes "welcomed (Suc (Suc room)) c" "app_channel c = []"
  shows "\<exists>r1 r2. app_channel c' = [FromApplication r1
         (GossipsubBroadcastMessage (shard_net c) (exit_message cd (core_peer c) sid)),
       FromApplication r2 (GossipsubJoinNetwork (shard_net c))]"
    and "core_peer c' = core_peer c" "tasks c' = tasks c"
    and "shard_view c' = update_shard_state (core_peer c) sid False (shard_view c)"
proof -
  let ?net = "shard_net c" and ?p = "core_peer c"
  let ?r1 = "GossipsubBroadcastMessage ?net (exit_message cd ?p sid)" and ?r2 = "GossipsubJoinNetwork ?net"
  define c1 where "c1 = update_shard_view ?p sid False c"
  define c2 where "c2 = fst (query_network welcome_env ?r1 c1)"
  define c3 where "c3 = fst (query_network welcome_env ?r2 c2)"
  have "welcomed (Suc (Suc room)) c1" using assms(2) by (simp add: c1_def)
  note q1 = welcome_query [OF this, of ?r1, folded c2_def]
  then have "welcomed (Suc room) c2" by simp
  note q2 = welcome_query [OF this, of ?r2, folded c3_def]
  have c2: "core_peer c2 = ?p" "shard_net c2 = ?net" "tasks c2 = tasks c"
    "shard_view c2 = update_shard_state ?p sid False (shard_view c)"
    by (simp_all add: c2_def c1_def)
  have "c' = c3"
    using q1(3) c2(1,2) unfolding c'_def exit_network_def c1_def [symmetric]
    by (simp add: Let_def case_prod_beta c1_def [symmetric] c2_def [symmetric] c3_def in_any_shard_def split: sum.split)
      (simp add: c2_def c1_def)
  then show "\<exists>r1 r2. app_channel c' = [FromApplication r1 ?r1, FromApplication r2 ?r2]"
    "core_peer c' = ?p" "tasks c' = tasks c" "shard_view c' = update_shard_state ?p sid False (shard_view c)"
    using q1(1) q2(1) c2 assms(3) by (simp_all add: c1_def) (simp_all add: c3_def)
qed

definition exited_run ::
    "codecs \<Rightarrow> string \<Rightarrow> 'n \<Rightarrow> shard_id \<Rightarrow> 'n shard_group \<Rightarrow> 'n shard_group \<Rightarrow> gossip_message \<Rightarrow> bool" where
  "exited_run cd net i sid g g' msg \<longleftrightarrow>
     (shard_step cd net)\<^sup>*\<^sup>* g g' \<and> published net (exit_message cd (me g i) sid) msg
     \<and> (\<forall>k. k \<noteq> i \<longrightarrow> sg_core g' k = sg_core g k) \<and> app_channel (sg_core g' i) = [] \<and> me g' i = me g i
     \<and> tasks (sg_core g' i) = tasks (sg_core g i)
     \<and> shard_view (sg_core g' i) = update_shard_state (me g i) sid False (shard_view (sg_core g i))
     \<and> gossip_to g' = (\<lambda>j. if j \<in> listening g \<and> j \<noteq> i then add_mset msg (gossip_to g j) else gossip_to g j)
     \<and> rpc_to g' = rpc_to g \<and> given_up g' = insert (me g i, sid) (given_up g)"

lemma run_exit:
  assumes "welcomed (Suc (Suc room)) (sg_core g i)" "app_channel (sg_core g i) = []"
    and "shard_net (sg_core g i) = net" "gossip_text sid"
  shows "\<exists>g' msg. exited_run cd net i sid g g' msg"
proof -
  let ?c = "fst (exit_network cd welcome_env (\<lambda>_. []) sid (sg_core g i))" and ?m = "exit_message cd (me g i) sid"
  note e = welcome_exit [where cd = cd and sid = sid, OF assms(1,2), unfolded assms(3), folded me_def]
  obtain r1 r2 where ch: "app_channel ?c = [FromApplication r1 (GossipsubBroadcastMessage net ?m),
       FromApplication r2 (GossipsubJoinNetwork net)]" using e(1) by blast
  define g1 where "g1 = (put_core i ?c g)\<lparr>given_up := insert (me g i, sid) (given_up g)\<rparr>"
  have s1: "shard_step cd net g g1" unfolding g1_def by (rule sh_exit [OF assms(4)])
  have k1: "sg_core g1 k = (if k = i then ?c else sg_core g k)" for k
    by (simp add: g1_def sg_core_def put_core_def put_node_def)
  obtain l2 msg where l2: "shard_step cd net g1 (put_node i l2 (announce cd i ?m msg g1))" "published net ?m msg"
    "node l2 = ?c\<lparr>app_channel := [FromApplication r2 (GossipsubJoinNetwork net)]\<rparr>"
    using step_publish [of g1 i r1 net ?m _ cd] ch by (auto simp: k1)
  define g2 where "g2 = put_node i l2 (announce cd i ?m msg g1)"
  have k2: "sg_core g2 k = (if k = i then node l2 else sg_core g k)" for k by (simp add: g2_def k1)
  obtain l3 where l3: "shard_step cd net g2 ((put_node i l3 g2)\<lparr>listening := insert i (listening g2)\<rparr>)"
    "node l3 = ?c\<lparr>app_channel := []\<rparr>"
    using step_subscribe [of g2 i r2 net "[]" cd net] by (auto simp: k2 l2(3))
  define g3 where "g3 = (put_node i l3 g2)\<lparr>listening := insert i (listening g2)\<rparr>"
  have k3: "sg_core g3 k = (if k = i then node l3 else sg_core g k)" for k by (simp add: g3_def k2)
  have "(shard_step cd net)\<^sup>*\<^sup>* g g3"
    using s1 l2(1) l3(1) unfolding g2_def [symmetric] g3_def [symmetric]
    by (meson converse_rtranclp_into_rtranclp r_into_rtranclp)
  moreover have "gossip_to g3 = (\<lambda>j. if j \<in> listening g \<and> j \<noteq> i then add_mset msg (gossip_to g j) else gossip_to g j)"
    "rpc_to g3 = rpc_to g" "given_up g3 = insert (me g i, sid) (given_up g)"
    by (simp_all add: g3_def g2_def g1_def announce_def fun_eq_iff put_core_def put_node_def)
  moreover have "shard_view (node l3) = shard_view ?c" by (simp add: l3(2) shard_view_def)
  ultimately show ?thesis
    using l2(2) l3(2) k3 e(2-4) by (intro exI [of _ g3] exI [of _ msg]) (simp add: exited_run_def me_def)
qed

text \<open>C8: A node that has left a shard can stay in it for another: its announcement can overtake a view
  sent before, and when this arrives it brings the node back. Nothing is on its way then that would
  correct it.\<close>

theorem left_member_returns:
  "\<exists>g. (shard_step pair_codecs ''net'')\<^sup>*\<^sup>* pair_group g \<and> shard_quiet g
     \<and> app_channel (sg_core g True) = [] \<and> app_channel (sg_core g False) = []
     \<and> (me g True, ''m'') \<in> given_up g \<and> me g True \<notin> members (shard_view (sg_core g True)) ''m''
     \<and> me g True \<in> members (shard_view (sg_core g False)) ''m''"
proof -
  let ?step = "shard_step pair_codecs ''net''" and ?p = "PeerId ''p''" and ?pub = "publish_message pair_codecs pair_view"
  obtain g where g: "pair_waits g" using pair_waiting by blast
  note w = g [unfolded pair_waits_def]
  have "welcomed (Suc (Suc 3)) (sg_core g True)" "app_channel (sg_core g True) = []"
    "shard_net (sg_core g True) = ''net''" "gossip_text ''m''" using w by (simp_all add: numeral_eq_Suc)
  from run_exit [OF this] obtain g3 msg where e: "exited_run pair_codecs ''net'' True ''m'' g g3 msg" by blast
  have other: "sg_core g3 False = sg_core g False" using e unfolding exited_run_def by blast
  have g3: "?step\<^sup>*\<^sup>* g g3" "published ''net'' (exit_message pair_codecs ?p ''m'') msg"
    "app_channel (sg_core g3 True) = []" "me g3 True = ?p" "tasks (sg_core g3 True) = tasks (sg_core g True)"
    "shard_view (sg_core g3 True) = update_shard_state ?p ''m'' False pair_view"
    "gossip_to g3 = (\<lambda>k. if k then {#} else {#msg#})" "rpc_to g3 = (\<lambda>k. if k then {#} else {#?pub#})"
    "given_up g3 = {(?p, ''m'')}"
    using e w unfolding exited_run_def by (auto simp: fun_eq_iff)
  let ?l4 = "update_node (update_shard_view ?p ''m'' False) (sg_nodes g3 False)"
  define g4 where "g4 = (put_node False ?l4 g3)\<lparr>gossip_to := (gossip_to g3)(False := gossip_to g3 False - {#msg#})\<rparr>"
  have s4: "?step g3 g4" unfolding g4_def
    by (rule sh_receive [OF _ exit_received [OF pair_texts(1) g3(2), of 100]]) (simp_all add: g3(7) pair_texts)
  have k4: "sg_core g4 True = sg_core g3 True" "sg_core g4 False = update_shard_view ?p ''m'' False (sg_core g False)"
    using other by (simp_all add: g4_def) (simp add: sg_core_def)
  have flight4: "gossip_to g4 = (\<lambda>_. {#})" "rpc_to g4 = (\<lambda>k. if k then {#} else {#?pub#})" "given_up g4 = {(?p, ''m'')}"
    using g3(7-9) by (auto simp: g4_def fun_eq_iff)
  then have "?pub \<in># rpc_to g4 False" by simp
  from view_arrives [OF this] obtain l5 where l5: "?step g4 ((put_node False l5 g4)
       \<lparr>rpc_to := (rpc_to g4)(False := rpc_to g4 False - {#?pub#})\<rparr>)"
    "node l5 = set_shard_view (merged (shard_view (sg_core g4 False)) pair_view) (sg_core g4 False)" by blast
  define g5 where "g5 = (put_node False l5 g4)\<lparr>rpc_to := (rpc_to g4)(False := rpc_to g4 False - {#?pub#})\<rparr>"
  have k5: "sg_core g5 k = (if k then sg_core g3 True else node l5)" for k by (cases k) (simp_all add: g5_def k4)
  have "?step\<^sup>*\<^sup>* pair_group g3" using w g3(1) by (meson rtranclp_trans)
  then have run: "?step\<^sup>*\<^sup>* pair_group g5"
    using s4 l5(1) unfolding g5_def [symmetric] by (meson rtranclp.rtrancl_into_rtrancl)
  have quiet: "shard_quiet g5" "app_channel (sg_core g5 False) = []"
    using w g3(3,5) by (auto simp: shard_quiet_def k5 l5(2) k4 split: if_splits) (auto simp: g5_def flight4)
  have "?p \<in> members (shard_view (sg_core g5 False)) ''m''"
    by (simp add: k5 l5(2) merged_members pair_view_def update_members)
  moreover have "me g5 True = ?p" using g3(4) by (simp add: me_def k5)
  moreover have "given_up g5 = {(?p, ''m'')}" by (simp add: g5_def flight4)
  ultimately show ?thesis
    using run quiet g3(3,6) k5 by (intro exI [of _ g5]) (simp add: update_members)
qed

end
