(* ===== verification/Lock_Discipline.thy ===== *)
theory Lock_Discipline
  imports Lock_Order Node_Ops
begin

text \<open>
  Any number of tasks on the two locks of a \<open>ReplicaBufferQueue\<close>
  (\<open>swarm-nl/src/core/replication.rs\<close>). Every operation of the buffer is written as the
  actions of \<open>Lock_Order\<close>; all but one of them take the public queue before the temporary
  one, or one at a time. Tasks that do so can neither block each other nor run for ever;
  the exception, a push that goes straight to the public queue, is the one that
  \<open>Sync_Props\<close> shows in a deadlock.
\<close>

section \<open>The operations\<close>

datatype buffer_op =
    Init_Op string
  | Push_Public "nat \<Rightarrow> seconds" string repl_buffer_data
  | Push_Strong nat consensus_model string repl_buffer_data
  | Pop_Op string
  | Confirm_Op u64 seconds string string
  | Look_Op
  | Store_Op string "repl_buffer_data list"

text \<open>\<open>init\<close>: the guard of the public queue lives to the end of the function.\<close>

definition init_public :: "string \<Rightarrow> replica_buffer_queue \<Rightarrow> replica_buffer_queue" where
  "init_public rn rb = rb\<lparr>queue := (queue rb)(rn \<mapsto> [])\<rparr>"

definition init_temporary :: "string \<Rightarrow> replica_buffer_queue \<Rightarrow> replica_buffer_queue" where
  "init_temporary rn rb = rb\<lparr>temporary_queue := (temporary_queue rb)(rn \<mapsto> [])\<rparr>"

definition init_task :: "string \<Rightarrow> action list" where
  "init_task rn =
     [Lock Public, always (init_public rn),
      Change (\<lambda>rb. Some (rb,
        if consistency_model rb \<noteq> Eventual
        then [Lock Temporary, always (init_temporary rn), Unlock Temporary] else [])),
      Unlock Public]"

definition push_public_task :: "(nat \<Rightarrow> seconds) \<Rightarrow> string \<Rightarrow> repl_buffer_data \<Rightarrow> action list" where
  "push_public_task clk rn data =
     [Lock Public, Change (\<lambda>rb. map_option (\<lambda>rb'. (rb', [])) (push_public clk rn data rb)),
      Unlock Public]"

definition pop_task :: "string \<Rightarrow> action list" where
  "pop_task rn = [Lock Public, always (\<lambda>rb. snd (pop_front_queue rn rb)), Unlock Public]"

text \<open>The places that only read the queue, and those that insert what a peer sent.\<close>

definition look_task :: "action list" where
  "look_task = [Lock Public, Unlock Public]"

definition store_entries :: "string \<Rightarrow> repl_buffer_data list \<Rightarrow> replica_buffer_queue \<Rightarrow> replica_buffer_queue" where
  "store_entries rn msgs rb =
     (case queue rb rn of
        None \<Rightarrow> rb
      | Some q \<Rightarrow> rb\<lparr>queue := (queue rb)(rn \<mapsto> insert_all msgs q)\<rparr>)"

definition store_task :: "string \<Rightarrow> repl_buffer_data list \<Rightarrow> action list" where
  "store_task rn msgs = [Lock Public, always (store_entries rn msgs), Unlock Public]"

fun op_task :: "buffer_op \<Rightarrow> action list" where
  "op_task (Init_Op rn) = init_task rn"
| "op_task (Push_Public clk rn data) = push_public_task clk rn data"
| "op_task (Push_Strong peers consensus rn data) = push_task peers consensus rn data"
| "op_task (Pop_Op rn) = pop_task rn"
| "op_task (Confirm_Op peers_count now rn mid) = confirm_task peers_count now rn mid"
| "op_task Look_Op = look_task"
| "op_task (Store_Op rn msgs) = store_task rn msgs"

section \<open>Disciplined tasks\<close>

text \<open>
  A task that holds the locks \<open>H\<close> and ends, with none, within \<open>n\<close> actions, whatever the
  buffer is when its turn comes, as long as it satisfies \<open>ok\<close>, which the task keeps. It
  never asks for the public queue with the temporary one held.
\<close>

definition may_take :: "lock \<Rightarrow> lock set \<Rightarrow> bool" where
  "may_take l H \<longleftrightarrow> l \<notin> H \<and> (l = Public \<longrightarrow> Temporary \<notin> H)"

inductive disciplined ::
    "(replica_buffer_queue \<Rightarrow> bool) \<Rightarrow> nat \<Rightarrow> lock set \<Rightarrow> action list \<Rightarrow> bool"
  for ok :: "replica_buffer_queue \<Rightarrow> bool" where
  finished: "disciplined ok n {} []"
| lock: "may_take l H \<Longrightarrow> disciplined ok n (insert l H) rest
    \<Longrightarrow> disciplined ok (Suc n) H (Lock l # rest)"
| unlock: "l \<in> H \<Longrightarrow> disciplined ok n (H - {l}) rest \<Longrightarrow> disciplined ok (Suc n) H (Unlock l # rest)"
| change: "(\<And>rb. ok rb \<Longrightarrow> \<exists>rb' next. f rb = Some (rb', next) \<and> ok rb'
      \<and> disciplined ok n H (next @ rest))
    \<Longrightarrow> disciplined ok (Suc n) H (Change f # rest)"

inductive_cases disciplined_lockE: "disciplined ok n H (Lock l # rest)"
inductive_cases disciplined_unlockE: "disciplined ok n H (Unlock l # rest)"
inductive_cases disciplined_changeE: "disciplined ok n H (Change f # rest)"
inductive_cases disciplined_nilE: "disciplined ok n H []"

text \<open>The rules in the form that works on a bound written as a numeral.\<close>

lemma task_lock:
  "may_take l H \<Longrightarrow> disciplined ok (n - 1) (insert l H) rest \<Longrightarrow> 0 < n
     \<Longrightarrow> disciplined ok n H (Lock l # rest)"
  by (cases n) (simp_all add: lock)

lemma task_unlock:
  "l \<in> H \<Longrightarrow> disciplined ok (n - 1) (H - {l}) rest \<Longrightarrow> 0 < n
     \<Longrightarrow> disciplined ok n H (Unlock l # rest)"
  by (cases n) (simp_all add: unlock)

lemma task_change:
  "(\<And>rb. ok rb \<Longrightarrow> \<exists>rb' more. f rb = Some (rb', more) \<and> ok rb'
      \<and> disciplined ok (n - 1) H (more @ rest)) \<Longrightarrow> 0 < n
     \<Longrightarrow> disciplined ok n H (Change f # rest)"
  by (cases n) (auto intro: change)

lemma task_always:
  "(\<And>rb. ok rb \<Longrightarrow> ok (f rb)) \<Longrightarrow> disciplined ok (n - 1) H rest \<Longrightarrow> 0 < n
     \<Longrightarrow> disciplined ok n H (always f # rest)"
  unfolding always_def by (rule task_change) auto

lemma task_try:
  "(\<And>rb. ok rb \<Longrightarrow> \<exists>rb'. f rb = Some rb' \<and> ok rb') \<Longrightarrow> disciplined ok (n - 1) H rest \<Longrightarrow> 0 < n
     \<Longrightarrow> disciplined ok n H (Change (\<lambda>rb. map_option (\<lambda>rb'. (rb', [])) (f rb)) # rest)"
  by (rule task_change) fastforce+

lemmas task_intros = task_lock task_unlock task_always task_try finished

lemma disciplined_more: "disciplined ok n H acts \<Longrightarrow> n \<le> m \<Longrightarrow> disciplined ok m H acts"
proof (induction n H acts arbitrary: m rule: disciplined.induct)
  case (lock l H n rest)
  then show ?case by (cases m) (auto intro: disciplined.lock)
next
  case (unlock l H n rest)
  then show ?case by (cases m) (auto intro: disciplined.unlock)
next
  case (change f n H rest)
  obtain k where m: "m = Suc k" "n \<le> k" using change.prems by (cases m) auto
  show ?case unfolding m(1)
  proof (rule disciplined.change)
    fix rb assume "ok rb"
    with change.IH m(2) show "\<exists>rb' next. f rb = Some (rb', next) \<and> ok rb' \<and> disciplined ok k H (next @ rest)"
      by blast
  qed
qed (rule finished)

section \<open>Any number of them\<close>

definition held :: "'p locked_buffer \<Rightarrow> 'p \<Rightarrow> lock set" where
  "held s p = {l. owner s l = Some p}"

definition orderly ::
    "(replica_buffer_queue \<Rightarrow> bool) \<Rightarrow> ('p \<Rightarrow> nat) \<Rightarrow> 'p locked_buffer \<Rightarrow> bool" where
  "orderly ok bound s \<longleftrightarrow> ok (content s) \<and> (\<forall>p. disciplined ok (bound p) (held s p) (todo s p))"

text \<open>No lock is waited for in a circle.\<close>

lemma stuck_waits:
  assumes "orderly ok bound s" "advance p s = None" "todo s p \<noteq> []"
  obtains l q where "owner s l = Some q" "may_take l (held s p)"
proof -
  have d: "disciplined ok (bound p) (held s p) (todo s p)" and ok: "ok (content s)"
    using assms(1) by (auto simp: orderly_def)
  obtain a rest where t: "todo s p = a # rest" using assms(3) by (cases "todo s p") auto
  show thesis
  proof (cases a)
    case (Lock l)
    then show thesis
      using assms(2) d t that by (auto simp: advance_def split: if_splits elim: disciplined_lockE)
  next
    case (Unlock l)
    then show thesis using assms(2) t by (simp add: advance_def)
  next
    case (Change f)
    then show thesis
      using assms(2) d t ok by (auto simp: advance_def elim!: disciplined_changeE)
  qed
qed

lemma holder_not_done:
  assumes "orderly ok bound s" "owner s l = Some q" shows "todo s q \<noteq> []"
proof
  assume "todo s q = []"
  moreover have "disciplined ok (bound q) (held s q) (todo s q)" using assms(1) by (simp add: orderly_def)
  ultimately have "held s q = {}" by (auto elim: disciplined_nilE)
  with assms(2) show False by (auto simp: held_def)
qed

lemma orderly_progress:
  assumes "orderly ok bound s" "todo s p \<noteq> []"
  shows "\<exists>q. advance q s \<noteq> None"
proof (rule ccontr)
  assume "\<not> ?thesis"
  then have stuck: "advance q s = None" for q by simp
  have "False" if own: "owner s Temporary = Some q" for q
  proof -
    obtain l r where "may_take l (held s q)"
      using stuck_waits [OF assms(1) stuck holder_not_done [OF assms(1) own]] by blast
    then show False using own by (cases l) (auto simp: may_take_def held_def)
  qed
  then have free: "owner s Temporary = None" by (cases "owner s Temporary") auto
  have "False" if own: "owner s Public = Some q" for q
  proof -
    obtain l r where "owner s l = Some r" "may_take l (held s q)"
      using stuck_waits [OF assms(1) stuck holder_not_done [OF assms(1) own]] by blast
    then show False using own free by (cases l) (auto simp: may_take_def held_def)
  qed
  moreover obtain l q where "owner s l = Some q" using stuck_waits [OF assms(1) stuck assms(2)] by blast
  ultimately show False using free by (cases l) auto
qed

text \<open>Every action a task takes brings it nearer to its end.\<close>

lemma orderly_step:
  assumes "orderly ok bound s" "advance p s = Some s'"
  obtains n where "bound p = Suc n" "orderly ok (bound(p := n)) s'"
proof -
  have d: "disciplined ok (bound q) (held s q) (todo s q)" for q using assms(1) by (simp add: orderly_def)
  have ok: "ok (content s)" using assms(1) by (simp add: orderly_def)
  obtain a rest where t: "todo s p = a # rest"
    using assms(2) by (cases "todo s p") (auto simp: advance_def)
  show thesis
  proof (cases a)
    case (Lock l)
    then have free: "owner s l = None"
      and s': "s' = s\<lparr>owner := (owner s)(l \<mapsto> p), todo := (todo s)(p := rest)\<rparr>"
      using assms(2) t by (auto simp: advance_def split: if_splits)
    obtain n where n: "bound p = Suc n" "disciplined ok n (insert l (held s p)) rest"
      using d [of p] t Lock by (auto elim: disciplined_lockE)
    have "held s' p = insert l (held s p)" "q \<noteq> p \<Longrightarrow> held s' q = held s q" for q
      using free by (auto simp: s' held_def)
    then have "orderly ok (bound(p := n)) s'" using n d ok by (auto simp: orderly_def s')
    with n that show thesis by blast
  next
    case (Unlock l)
    then have s': "s' = s\<lparr>owner := (owner s)(l := None), todo := (todo s)(p := rest)\<rparr>"
      using assms(2) t by (auto simp: advance_def)
    obtain n where n: "bound p = Suc n" "l \<in> held s p" "disciplined ok n (held s p - {l}) rest"
      using d [of p] t Unlock by (auto elim: disciplined_unlockE)
    have "held s' p = held s p - {l}" "q \<noteq> p \<Longrightarrow> held s' q = held s q" for q
      using n(2) by (auto simp: s' held_def)
    then have "orderly ok (bound(p := n)) s'" using n d ok by (auto simp: orderly_def s')
    with n that show thesis by blast
  next
    case (Change f)
    obtain n rb acts where n: "bound p = Suc n" "f (content s) = Some (rb, acts)" "ok rb"
      "disciplined ok n (held s p) (acts @ rest)"
      using d [of p] t Change ok by (auto elim!: disciplined_changeE)
    then have s': "s' = s\<lparr>content := rb, todo := (todo s)(p := acts @ rest)\<rparr>"
      using assms(2) t Change by (auto simp: advance_def)
    have "held s' q = held s q" for q by (simp add: s' held_def)
    then have "orderly ok (bound(p := n)) s'" using n d by (auto simp: orderly_def s')
    with n that show thesis by blast
  qed
qed

lemma orderly_schedule:
  fixes bound :: "'p::finite \<Rightarrow> nat"
  assumes "orderly ok bound s" "schedule ps s = Some s'"
  shows "\<exists>bound'. orderly ok bound' s' \<and> length ps + sum bound' UNIV = sum bound UNIV"
  using assms
proof (induction ps arbitrary: bound s)
  case (Cons p ps)
  obtain s1 where s1: "advance p s = Some s1" "schedule ps s1 = Some s'"
    using Cons.prems(2) by (auto simp: Option.bind_eq_Some_conv)
  obtain n where n: "bound p = Suc n" "orderly ok (bound(p := n)) s1"
    using orderly_step [OF Cons.prems(1) s1(1)] by blast
  have "sum bound UNIV = Suc (sum (bound(p := n)) UNIV)"
    using n(1) by (simp add: sum.remove [of UNIV p])
  with Cons.IH [OF n(2) s1(2)] show ?case by auto
qed auto

text \<open>So every way the tasks can take turns is finite, and ends only when all are done.\<close>

lemma orderly_tasks_finish:
  fixes bound :: "'p::finite \<Rightarrow> nat"
  assumes "orderly ok bound s" "schedule ps s = Some s'"
  shows "length ps \<le> sum bound UNIV
     \<and> ok (content s') \<and> ((\<nexists>s''. lock_step s' s'') \<longrightarrow> (\<forall>p. todo s' p = []))"
proof -
  obtain b where b: "orderly ok b s'" "length ps + sum b UNIV = sum bound UNIV"
    using orderly_schedule [OF assms] by blast
  moreover have "(\<nexists>s''. lock_step s' s'') \<longrightarrow> (\<forall>p. todo s' p = [])"
    unfolding stuck_iff using orderly_progress [OF b(1)] by metis
  ultimately show ?thesis by (auto simp: orderly_def)
qed

lemma schedule_append:
  "schedule (ps @ qs) s = Option.bind (schedule ps s) (schedule qs)"
  by (induction ps arbitrary: s) (auto split: bind_splits)

lemma orderly_can_finish:
  fixes bound :: "'p::finite \<Rightarrow> nat"
  assumes "orderly ok bound s"
  shows "\<exists>ps s'. schedule ps s = Some s' \<and> (\<forall>p. todo s' p = [])"
  using assms
proof (induction "sum bound UNIV" arbitrary: bound s rule: less_induct)
  case less
  show ?case
  proof (cases "\<forall>p. todo s p = []")
    case True
    then show ?thesis by (intro exI [of _ "[]"]) simp
  next
    case False
    then obtain p s1 where s1: "advance p s = Some s1"
      using orderly_progress [OF less.prems] by blast
    obtain n where n: "bound p = Suc n" "orderly ok (bound(p := n)) s1"
      using orderly_step [OF less.prems s1] by blast
    have "sum (bound(p := n)) UNIV < sum bound UNIV"
      using n(1) by (simp add: sum.remove [of UNIV p])
    from less.hyps [OF this n(2)] obtain ps s' where
      "schedule ps s1 = Some s'" "\<forall>p. todo s' p = []" by blast
    with s1 show ?thesis by (intro exI [of _ "p # ps"]) auto
  qed
qed

section \<open>The tasks of the code\<close>

text \<open>What the operations rely on: ordered queues, a capacity above 0, and a count on every
  entry that waits for confirmations.\<close>

definition buffer_ok :: "replica_buffer_queue \<Rightarrow> bool" where
  "buffer_ok rb \<longleftrightarrow> queues_ordered rb \<and> 0 < fst (push_limits (config rb))
     \<and> (\<forall>rn tq mid d. temporary_queue rb rn = Some tq \<longrightarrow> map_of tq mid = Some d
          \<longrightarrow> confirmations d \<noteq> None)"

definition counted :: "temp_queue \<Rightarrow> bool" where
  "counted tq \<longleftrightarrow> (\<forall>mid d. map_of tq mid = Some d \<longrightarrow> confirmations d \<noteq> None)"

lemma buffer_ok_counted:
  "buffer_ok rb \<longleftrightarrow> queues_ordered rb \<and> 0 < fst (push_limits (config rb))
     \<and> (\<forall>rn tq. temporary_queue rb rn = Some tq \<longrightarrow> counted tq)"
  by (auto simp: buffer_ok_def counted_def)

text \<open>A push that goes straight to the public queue is the exception.\<close>

fun goes_straight :: "buffer_op \<Rightarrow> bool" where
  "goes_straight (Push_Strong peers consensus _ _) = (peers = 1 \<or> consensus = MinPeers 1)"
| "goes_straight _ = False"

fun op_counted :: "buffer_op \<Rightarrow> bool" where
  "op_counted (Push_Strong _ _ _ data) = (confirmations data \<noteq> None)"
| "op_counted _ = True"

lemma counted_remove: "counted tq \<Longrightarrow> counted (bmap_remove mid tq)"
  by (auto simp: counted_def map_of_bmap_remove split: if_splits)

lemma counted_insert: "counted tq \<Longrightarrow> confirmations d \<noteq> None \<Longrightarrow> counted (bmap_insert mid d tq)"
  by (auto simp: counted_def map_of_bmap_insert split: if_splits)

lemma counted_default: "buffer_ok rb \<Longrightarrow> counted (or_default (temporary_queue rb) rn)"
  by (auto simp: buffer_ok_counted or_default_def counted_def split: option.split)

lemma buffer_ok_temp:
  "buffer_ok rb \<Longrightarrow> counted tq \<Longrightarrow> buffer_ok (rb\<lparr>temporary_queue := (temporary_queue rb)(rn \<mapsto> tq)\<rparr>)"
  by (simp add: buffer_ok_counted)

lemma buffer_ok_public:
  "buffer_ok rb \<Longrightarrow> rset_wf q \<Longrightarrow> buffer_ok (rb\<lparr>queue := (queue rb)(rn \<mapsto> q)\<rparr>)"
  by (simp add: buffer_ok_counted queues_ordered_update)

lemma buffer_ok_default: "buffer_ok rb \<Longrightarrow> rset_wf (or_default (queue rb) rn)"
  by (simp add: buffer_ok_def or_default_ordered)

lemma buffer_ok_make_room: "buffer_ok rb \<Longrightarrow> buffer_ok (make_room rn rb)"
  unfolding make_room_def
  by (rule buffer_ok_temp)
    (auto simp: push_temporary_room_def counted_remove counted_default split: option.split)

lemma buffer_ok_insert_public: "buffer_ok rb \<Longrightarrow> buffer_ok (insert_public rn d rb)"
  unfolding insert_public_def by (rule buffer_ok_public) (simp_all add: buffer_ok_default repl_store.inv_ins)

lemma buffer_ok_insert_temporary:
  "buffer_ok rb \<Longrightarrow> confirmations d \<noteq> None \<Longrightarrow> buffer_ok (insert_temporary rn d rb)"
  unfolding insert_temporary_def push_temporary_def
  by (rule buffer_ok_temp) (simp_all add: counted_insert counted_default)

lemma buffer_ok_take:
  assumes "buffer_ok rb" shows "buffer_ok (confirm_take rn mid rb)"
proof -
  have "buffer_ok (rb\<lparr>temporary_queue := (temporary_queue rb)(rn \<mapsto> bmap_remove mid tq)\<rparr>)"
    if "temporary_queue rb rn = Some tq" for tq
    using assms that by (intro buffer_ok_temp counted_remove) (auto simp: buffer_ok_counted)
  then show ?thesis
    using assms by (auto simp: confirm_take_def buffer_ok_insert_public split: option.split)
qed

lemma buffer_ok_room:
  assumes "buffer_ok rb" shows "\<exists>rb'. confirm_room now rn rb = Some rb' \<and> buffer_ok rb'"
proof -
  obtain q where "confirm_cleanup (config rb) now (or_default (queue rb) rn) = Some q" "rset_wf q"
    using confirm_cleanup_some buffer_ok_default assms unfolding buffer_ok_def by blast
  with assms show ?thesis by (simp add: confirm_room_def buffer_ok_public)
qed

lemma buffer_ok_confirm:
  assumes "buffer_ok rb"
  shows "\<exists>rb' flag. confirm_temp peers_count rn mid rb = Some (rb', flag) \<and> buffer_ok rb'"
proof (cases "temporary_queue rb rn")
  case (Some tq)
  then have tq: "counted tq" using assms by (auto simp: buffer_ok_counted)
  show ?thesis
  proof (cases "map_of tq mid")
    case d: (Some d)
    then obtain k where k: "confirmations d = Some k" using tq by (auto simp: counted_def)
    then have "\<exists>d' flag. confirm_entry peers_count d = Some (d', flag) \<and> confirmations d' \<noteq> None"
      by (simp add: confirm_entry_def Let_def)
    then obtain d' flag where d': "confirm_entry peers_count d = Some (d', flag)" "confirmations d' \<noteq> None"
      by blast
    have "buffer_ok (rb\<lparr>temporary_queue := (temporary_queue rb)(rn \<mapsto> bmap_insert mid d' tq)\<rparr>)"
      using assms tq d'(2) by (intro buffer_ok_temp counted_insert)
    with Some d d' show ?thesis by (simp add: confirm_temp_def)
  qed (use assms Some in \<open>auto simp: confirm_temp_def\<close>)
qed (use assms in \<open>auto simp: confirm_temp_def\<close>)

lemma buffer_ok_push:
  assumes "buffer_ok rb" shows "\<exists>rb'. push_public clk rn d rb = Some rb' \<and> buffer_ok rb'"
proof -
  obtain cap ex where l: "push_limits (config rb) = (cap, ex)" by fastforce
  then have "0 < cap" using assms by (simp add: buffer_ok_def)
  from push_queue_total [OF this buffer_ok_default [OF assms]] obtain q where
    "push_queue cap ex clk d (or_default (queue rb) rn) = Some q" "rset_wf q" by blast
  then show ?thesis using assms by (simp add: push_public_def l buffer_ok_public)
qed

lemma buffer_ok_pop: "buffer_ok rb \<Longrightarrow> buffer_ok (snd (pop_front_queue rn rb))"
  by (auto simp: pop_front_queue_def buffer_ok_public repl_store.inv_del buffer_ok_def
      queues_ordered_def split: option.split)

lemma buffer_ok_store: "buffer_ok rb \<Longrightarrow> buffer_ok (store_entries rn msgs rb)"
  by (auto simp: store_entries_def buffer_ok_def queues_ordered_def insert_all_wf split: option.split)

lemma buffer_ok_init: "buffer_ok rb \<Longrightarrow> buffer_ok (init_public rn rb)"
  "buffer_ok rb \<Longrightarrow> buffer_ok (init_temporary rn rb)"
  by (simp_all add: init_public_def init_temporary_def buffer_ok_public buffer_ok_temp rset_wf_def
      counted_def)

lemmas buffer_oks =
  buffer_ok_make_room buffer_ok_insert_public buffer_ok_insert_temporary buffer_ok_take
  buffer_ok_room buffer_ok_confirm buffer_ok_push buffer_ok_pop buffer_ok_store buffer_ok_init

lemma may_take_simps [simp]:
  "may_take Public {}" "may_take Temporary {}" "may_take Temporary {Public}"
  by (simp_all add: may_take_def)

lemma disciplined_move: "disciplined buffer_ok 6 {} (move_actions now rn mid)"
  unfolding move_actions_def
  by (rule task_intros | simp add: buffer_oks insert_Diff_if)+

lemma disciplined_confirm: "disciplined buffer_ok 9 {} (confirm_task peers_count now rn mid)"
proof -
  let ?after = "\<lambda>flag. Unlock Temporary # (if flag then move_actions now rn mid else [])"
  have after: "disciplined buffer_ok 7 {Temporary} (?after flag)" for flag
    by (rule task_unlock) (use disciplined_move finished in simp_all)
  have "disciplined buffer_ok 8 {Temporary} (tl (confirm_task peers_count now rn mid))"
    unfolding confirm_task_def list.sel
  proof (rule task_change)
    fix rb assume "buffer_ok rb"
    then obtain rb' flag where "confirm_temp peers_count rn mid rb = Some (rb', flag)" "buffer_ok rb'"
      using buffer_ok_confirm by blast
    then show "\<exists>rb' more. map_option (\<lambda>(rb', flag). (rb', ?after flag))
        (confirm_temp peers_count rn mid rb) = Some (rb', more) \<and> buffer_ok rb'
        \<and> disciplined buffer_ok (8 - 1) {Temporary} (more @ [])"
      using after by simp
  qed simp
  then show ?thesis
    using task_lock [of Temporary "{}" buffer_ok 9] by (simp add: confirm_task_def)
qed

lemma disciplined_init: "disciplined buffer_ok 9 {} (init_task rn)"
proof -
  have "disciplined buffer_ok 6 {Public}
      ((if strong then [Lock Temporary, always (init_temporary rn), Unlock Temporary] else [])
        @ [Unlock Public])" for strong
    by (cases strong; simp only: if_True if_False append.simps;
        (rule task_intros | simp add: buffer_oks insert_Diff_if)+)
  then have "disciplined buffer_ok 7 {Public} (drop 2 (init_task rn))"
    unfolding init_task_def by (simp del: append.simps) (rule task_change, auto)
  then show ?thesis
    using task_lock [of Public "{}" buffer_ok 9] task_always [of buffer_ok "init_public rn" 8 "{Public}"]
    by (simp add: init_task_def buffer_oks)
qed

lemma op_disciplined:
  assumes "\<not> goes_straight op" "op_counted op"
  shows "disciplined buffer_ok 9 {} (op_task op)"
proof (cases op)
  case (Init_Op rn)
  then show ?thesis by (simp add: disciplined_init)
next
  case (Confirm_Op pc now rn mid)
  then show ?thesis by (simp add: disciplined_confirm)
next
  case (Push_Public clk rn d)
  show ?thesis
    unfolding Push_Public op_task.simps push_public_task_def
    by (rule task_intros | simp add: buffer_oks insert_Diff_if)+
next
  case (Push_Strong peers cm rn d)
  have "disciplined buffer_ok 9 {} [Lock Temporary, always (make_room rn),
      always (insert_temporary rn d), Unlock Temporary]"
    by (rule task_intros | use Push_Strong assms in \<open>simp add: buffer_oks insert_Diff_if\<close>)+
  then show ?thesis using Push_Strong assms by (simp add: push_task_def)
next
  case (Pop_Op rn)
  show ?thesis
    unfolding Pop_Op op_task.simps pop_task_def
    by (rule task_intros | simp add: buffer_oks insert_Diff_if)+
next
  case Look_Op
  show ?thesis
    unfolding Look_Op op_task.simps look_task_def
    by (rule task_intros | simp add: insert_Diff_if)+
next
  case (Store_Op rn msgs)
  show ?thesis
    unfolding Store_Op op_task.simps store_task_def
    by (rule task_intros | simp add: buffer_oks insert_Diff_if)+
qed

section \<open>The result\<close>

text \<open>C13: Tasks that run operations of the buffer at the same time, none of them a push that
  goes straight to the public queue, never block each other: from every point they can
  reach, all of them can finish, and however they take turns they finish within nine
  actions each. The limit of the queues is above 0, and entries that wait for
  confirmations carry a count.\<close>

theorem buffer_operations_finish:
  fixes s :: "'p::finite locked_buffer"
  assumes "\<forall>p. todo s p = op_task (ops p)" "owner s = Map.empty" "buffer_ok (content s)"
    and "\<forall>p. \<not> goes_straight (ops p)" "\<forall>p. op_counted (ops p)"
    and "schedule ps s = Some s'"
  shows "length ps \<le> 9 * card (UNIV :: 'p set) \<and> buffer_ok (content s')
     \<and> ((\<nexists>s''. lock_step s' s'') \<longleftrightarrow> (\<forall>p. todo s' p = []))
     \<and> (\<exists>qs t. schedule (ps @ qs) s = Some t \<and> (\<forall>p. todo t p = []))"
proof -
  have start: "orderly buffer_ok (\<lambda>_. 9) s"
    using assms by (simp add: orderly_def held_def op_disciplined)
  then obtain b where b: "orderly buffer_ok b s'" using orderly_schedule assms(6) by blast
  have "length ps \<le> 9 * card (UNIV :: 'p set)" "buffer_ok (content s')"
    "(\<nexists>s''. lock_step s' s'') \<longrightarrow> (\<forall>p. todo s' p = [])"
    using orderly_tasks_finish [OF start assms(6)] by (simp_all add: mult.commute)
  moreover have "(\<forall>p. todo s' p = []) \<longrightarrow> (\<nexists>s''. lock_step s' s'')"
    unfolding stuck_iff by (simp add: advance_def)
  moreover have "\<exists>qs t. schedule (ps @ qs) s = Some t \<and> (\<forall>p. todo t p = [])"
    using orderly_can_finish [OF b] assms(6) by (simp add: schedule_append)
  ultimately show ?thesis by iprover
qed

instance party :: finite
proof
  have "(UNIV :: party set) = {Pusher, Confirmer}" by (auto intro: party.exhaust)
  then show "finite (UNIV :: party set)" by (metis finite.emptyI finite.insertI)
qed

definition waiting_entry :: repl_buffer_data where
  "waiting_entry = \<lparr>rdata = [''d''], lamport_clock = 1, outgoing_timestamp = 5,
     incoming_timestamp = 6, message_id = ''m'', sender = PeerId ''p'', confirmations = Some 1\<rparr>"

definition sample_run :: "party \<Rightarrow> buffer_op" where
  "sample_run p = (case p of Pusher \<Rightarrow> Push_Strong 3 All_Peers ''net'' waiting_entry
     | Confirmer \<Rightarrow> Confirm_Op 2 7 ''net'' ''m'')"

definition sample_start :: "party locked_buffer" where
  "sample_start =
     \<lparr>content = replica_buffer_new (ReplCustom 9 None 5 (Strong All_Peers) 5),
      owner = Map.empty, todo = (\<lambda>p. op_task (sample_run p))\<rparr>"

theorem buffer_operations_finish_witness:
  "\<exists>t. schedule [Pusher] sample_start = Some t
     \<and> (\<exists>qs u. schedule ([Pusher] @ qs) sample_start = Some u \<and> (\<forall>p. todo u p = []))"
proof -
  obtain t where t: "schedule [Pusher] sample_start = Some t"
    by (simp add: sample_start_def sample_run_def push_task_def advance_def)
  have "\<exists>qs u. schedule ([Pusher] @ qs) sample_start = Some u \<and> (\<forall>p. todo u p = [])"
    using buffer_operations_finish [of sample_start sample_run "[Pusher]" t] t
    by (simp add: sample_start_def sample_run_def replica_buffer_new_def buffer_ok_def
        queues_ordered_def push_limits_def waiting_entry_def split: party.split)
  with t show ?thesis by blast
qed

end
