(* ===== verification/Example_Game.thy ===== *)
theory Example_Game
  imports Example_Common Sample_Nodes
begin

text \<open>
  The guessing game (\<open>examples/simple-game/src/main.rs\<close>): two nodes gossip random guesses,
  count how often their own is the greater one, and stop when a score is \<open>HIGH_SCORE\<close> or the
  other node reports that it has won.

  A round of the loop gets the random number it draws, the environment of its requests and
  the events the network task logs before it reads them. The score is an \<open>int\<close> and its
  increment panics at the maximum of \<open>i32\<close>, as in a debug build. What the gossip filter
  prints, inside the network task, is not modelled.
\<close>

section \<open>The state and its messages\<close>

definition HIGH_SCORE :: int where "HIGH_SCORE = 5"
definition GOSSIP_NETWORK :: string where "GOSSIP_NETWORK = ''game_group''"

record game =
  game_node :: nat
  score :: int
  current_guess :: int

definition show_i32 :: "int \<Rightarrow> string" where
  "show_i32 n = (if n < 0 then ''-'' @ show_nat (nat (- n)) else show_nat (nat n))"

text \<open>\<open>gossipsub_filter_fn\<close> drops the guesses above 10.\<close>

definition game_filter :: gossip_callback where
  "game_filter prop_source mid source topic data =
     Option.bind (index data 0)
       (\<lambda>kind. if kind = ''guess''
          then map_option (\<lambda>remote_peer_guess. \<not> 10 < remote_peer_guess)
                 (Option.bind (index data 1) parse_i32)
          else Some True)"

definition node_tag :: "game \<Rightarrow> string" where
  "node_tag g = ''[[Node '' @ show_nat (game_node g) @ '']] >> ''"

text \<open>\<open>handle_gossipsub_incoming_message\<close>: the new state and the lines printed.\<close>

definition score_message :: "string \<Rightarrow> string \<Rightarrow> game \<Rightarrow> game option" where
  "score_message kind text g =
     (if kind = ''guess''
      then Option.bind (parse_i32 text)
        (\<lambda>remote_peer_guess.
           if remote_peer_guess < current_guess g
           then (if score g = 2 ^ 31 - 1 then None else Some (g\<lparr>score := score g + 1\<rparr>))
           else Some g)
      else if kind = ''win'' then Some (g\<lparr>score := - 1\<rparr>)
      else Some g)"

definition handle_game_message :: "string_vector \<Rightarrow> game \<Rightarrow> (game \<times> string list) option" where
  "handle_game_message data g =
     Option.bind (index data 0) (\<lambda>kind.
     Option.bind (index data 1) (\<lambda>text.
     map_option
       (\<lambda>g'. (g', [node_tag g @ ''incoming data from peer -> '' @ kind @ '': '' @ text]
            @ (if score g' \<noteq> - 1 \<and> score g' \<noteq> HIGH_SCORE
               then [node_tag g' @ ''Node ('' @ show_nat (game_node g') @ '') score: ''
                       @ show_i32 (score g')]
               else [])))
       (score_message kind text g)))"

definition game_event ::
    "formats \<Rightarrow> network_event \<Rightarrow> game \<Rightarrow> (game \<times> string list) option" where
  "game_event fm ev g =
     (case ev of
        GossipsubSubscribeMessageReceived peer topic \<Rightarrow>
          Some (g, [node_tag g @ ''Peer '' @ debug_peer fm peer
                      @ '' just joined the mesh network for topic: '' @ topic])
      | GossipsubIncomingMessageHandled source data \<Rightarrow> handle_game_message data g
      | _ \<Rightarrow> Some (g, []))"

fun game_events ::
    "formats \<Rightarrow> network_event list \<Rightarrow> game \<Rightarrow> (game \<times> string list) option" where
  "game_events fm [] g = Some (g, [])"
| "game_events fm (ev # evs) g =
     Option.bind (game_event fm ev g) (\<lambda>(g1, out1).
       map_option (\<lambda>(g2, out2). (g2, out1 @ out2)) (game_events fm evs g1))"

section \<open>A round and the loop\<close>

datatype outcome = Playing | Won | Lost

record game_app =
  game_core :: core
  game_state :: game
  shown :: "string list"

record round =
  round_env :: env
  random_number :: int
  logged :: "network_event list"

definition game_gossip :: "string \<Rightarrow> int \<Rightarrow> app_data" where
  "game_gossip kind n = GossipsubBroadcastMessage GOSSIP_NETWORK [kind, show_i32 n]"

definition log_all :: "network_event list \<Rightarrow> core \<Rightarrow> core" where
  "log_all evs c = foldl (\<lambda>c e. push_event e c) c evs"

definition other_node :: "nat \<Rightarrow> nat" where
  "other_node n = (if n = 1 then 2 else 1)"

definition play_round ::
    "formats \<Rightarrow> round \<Rightarrow> game_app \<Rightarrow> (game_app \<times> outcome) option" where
  "play_round fm r a =
     (let n = random_number r; g = (game_state a)\<lparr>current_guess := n\<rparr>;
          c1 = fst (query_network (round_env r) (game_gossip ''guess'' n) (game_core a)) in
      if score g = HIGH_SCORE
      then Some (\<lparr>game_core = fst (query_network (round_env r) (game_gossip ''win'' n) c1),
                  game_state = g,
                  shown = shown a @ [node_tag g @ ''Congratulations! Node ''
                    @ show_nat (game_node g) @ '' is the winner.'']\<rparr>, Won)
      else if score g = - 1
      then Some (\<lparr>game_core = c1, game_state = g,
                  shown = shown a @ [node_tag g @ ''Game Over! Node ''
                    @ show_nat (other_node (game_node g)) @ '' is the winner.'']\<rparr>, Lost)
      else
        (let (c2, evs) = take_events (log_all (logged r) c1) in
         map_option (\<lambda>(g', out). (\<lparr>game_core = c2, game_state = g', shown = shown a @ out\<rparr>, Playing))
           (game_events fm evs g)))"

fun play :: "formats \<Rightarrow> round list \<Rightarrow> game_app \<Rightarrow> (game_app \<times> outcome) option" where
  "play fm [] a = Some (a, Playing)"
| "play fm (r # rs) a =
     Option.bind (play_round fm r a)
       (\<lambda>(a1, out). if out = Playing then play fm rs a1 else Some (a1, out))"

section \<open>The two nodes\<close>

definition setup_node_1 ::
    "codecs \<Rightarrow> key_ops \<Rightarrow> host \<Rightarrow> port \<times> port \<Rightarrow> loop_state option" where
  "setup_node_1 cd ko h pp =
     Option.bind (deterministic_config ko node_1_keypair pp Map.empty) (\<lambda>cfg.
     Option.bind (with_gossipsub (\<lambda>_. True) GossipDefault game_filter (with_config cfg))
       (build_unwrap Tokio cd h []))"

text \<open>Node 2 generates its key pair and dials node 1, whose identity it knows.\<close>

definition setup_node_2 ::
    "codecs \<Rightarrow> key_ops \<Rightarrow> host \<Rightarrow> port \<times> port \<Rightarrow> port \<times> port \<Rightarrow> (loop_state \<times> peer_id) option" where
  "setup_node_2 cd ko h node_1_ports pp =
     Option.bind (from_protobuf_encoding ko node_1_keypair) (\<lambda>key.
       (let peer = to_peer_id h key;
            boot = [peer_str cd peer \<mapsto> local_tcp (fst node_1_ports)];
            cfg = with_udp (snd pp) (with_tcp (fst pp) (with_bootnodes boot (bootstrap_new ko))) in
        map_option (\<lambda>ls. (ls, peer))
          (build_unwrap Tokio cd h [(peer_str cd peer, local_tcp (fst node_1_ports))]
            (with_config cfg))))"

definition new_game :: "nat \<Rightarrow> game" where
  "new_game n = \<lparr>game_node = n, score = 0, current_guess = - 1\<rparr>"

definition tagged_setup_lines :: "codecs \<Rightarrow> formats \<Rightarrow> game \<Rightarrow> network_event \<Rightarrow> string list" where
  "tagged_setup_lines cd fm g ev =
     (case ev of
        NewListenAddr local _ addr \<Rightarrow>
          [node_tag g @ ''Peer id: '' @ peer_str cd local,
           node_tag g @ ''We're listening on the '' @ addr]
      | ConnectionEstablished peer _ _ _ _ \<Rightarrow>
          [''Connection established with peer: '' @ debug_peer fm peer]
      | _ \<Rightarrow> [])"

text \<open>Joining the mesh: both unwraps and the failed join panic.\<close>

definition join_game :: "env \<Rightarrow> core \<Rightarrow> core option" where
  "join_game env c =
     (case send_to_network env (GossipsubJoinNetwork GOSSIP_NETWORK) c of
        (c1, None) \<Rightarrow> None
      | (c1, Some sid) \<Rightarrow>
          (case recv_from_network (arrivals env sid (GossipsubJoinNetwork GOSSIP_NETWORK)) sid c1 of
             (c2, Inl e) \<Rightarrow> None
           | (c2, Inr _) \<Rightarrow> Some c2))"

text \<open>\<open>world\<close> is what the network task does to the shared node until the events of the setup
  are read.\<close>

definition run_node_1 ::
    "codecs \<Rightarrow> formats \<Rightarrow> key_ops \<Rightarrow> host \<Rightarrow> (core \<Rightarrow> core) \<Rightarrow> env \<Rightarrow> round list
      \<Rightarrow> (game_app \<times> outcome) option" where
  "run_node_1 cd fm ko h world env rounds =
     Option.bind (setup_node_1 cd ko h (49666, 49606)) (\<lambda>ls.
       (let (c1, evs) = drain_events (world (node ls)) in
        Option.bind (join_game env c1) (\<lambda>c2.
          play fm rounds
            \<lparr>game_core = c2, game_state = new_game 1,
             shown = concat (map (tagged_setup_lines cd fm (new_game 1)) evs)\<rparr>)))"

definition run_node_2 ::
    "codecs \<Rightarrow> formats \<Rightarrow> key_ops \<Rightarrow> host \<Rightarrow> (core \<Rightarrow> core) \<Rightarrow> env \<Rightarrow> round list
      \<Rightarrow> (game_app \<times> outcome) option" where
  "run_node_2 cd fm ko h world env rounds =
     Option.bind (setup_node_2 cd ko h (49666, 49606) (49667, 49607)) (\<lambda>(ls, _).
       (let (c1, evs) = take_events (world (node ls)) in
        Option.bind (join_game env c1) (\<lambda>c2.
          play fm rounds
            \<lparr>game_core = c2, game_state = new_game 2,
             shown = concat (map (tagged_setup_lines cd fm (new_game 2)) evs)\<rparr>)))"

section \<open>Lemmas\<close>

lemma game_filter_simps [simp]:
  "game_filter src mid source topic [] = None"
  "d \<noteq> ''guess'' \<Longrightarrow> game_filter src mid source topic (d # rest) = Some True"
  "game_filter src mid source topic [''guess''] = None"
  "game_filter src mid source topic (''guess'' # t # rest) = map_option (\<lambda>n. \<not> 10 < n) (parse_i32 t)"
  by (simp_all add: game_filter_def index_def)

text \<open>The messages on which the filter panics.\<close>

fun bad_guess :: "string_vector \<Rightarrow> bool" where
  "bad_guess [] = True"
| "bad_guess (kind # rest) = (kind = ''guess''
     \<and> (case rest of [] \<Rightarrow> True | text # _ \<Rightarrow> parse_i32 text = None))"

lemma game_filter_panics_iff:
  "game_filter src mid source topic data = None \<longleftrightarrow> bad_guess data"
proof (cases data)
  case (Cons kind rest)
  show ?thesis
  proof (cases "kind = ''guess''")
    case True
    then show ?thesis unfolding Cons by (cases rest) simp_all
  next
    case False
    then show ?thesis unfolding Cons by simp
  qed
qed simp

lemma score_message_node: "score_message k t g = Some g' \<Longrightarrow> game_node g' = game_node g"
  by (auto simp: score_message_def bind_eq_Some_conv split: if_splits)

text \<open>A message moves the score up by one, leaves it, or sets it to -1.\<close>

lemma score_message_cases:
  assumes "score_message k t g = Some g'"
  shows "score g' = score g \<or> score g' = score g + 1 \<or> k = ''win'' \<and> score g' = - 1"
proof (cases "k = ''guess''")
  case True
  then obtain n where "parse_i32 t = Some n"
    "(if n < current_guess g then (if score g = 2 ^ 31 - 1 then None
      else Some (g\<lparr>score := score g + 1\<rparr>)) else Some g) = Some g'"
    using assms by (auto simp: score_message_def bind_eq_Some_conv)
  then show ?thesis by (auto split: if_splits)
next
  case False
  then show ?thesis using assms by (cases "k = ''win''") (auto simp: score_message_def)
qed

fun win_message :: "network_event \<Rightarrow> bool" where
  "win_message (GossipsubIncomingMessageHandled _ (kind # _)) = (kind = ''win'')"
| "win_message _ = False"

fun is_message :: "network_event \<Rightarrow> bool" where
  "is_message (GossipsubIncomingMessageHandled _ _) = True"
| "is_message _ = False"

lemma game_event_quiet:
  "game_event fm ev g = Some (g', out) \<Longrightarrow> \<not> is_message ev \<Longrightarrow> g' = g"
  by (cases ev) (auto simp: game_event_def)

lemma game_event_score:
  assumes "game_event fm ev g = Some (g', out)"
  shows "score g' = score g \<or> is_message ev \<and> score g' = score g + 1 \<or> win_message ev \<and> score g' = - 1"
proof (cases "is_message ev")
  case True
  then obtain src data where ev: "ev = GossipsubIncomingMessageHandled src data" by (cases ev) auto
  then obtain k t rest where "data = k # t # rest" "score_message k t g = Some g'"
    using assms by (cases data; cases "tl data")
      (auto simp: game_event_def handle_game_message_def index_def)
  with ev show ?thesis using score_message_cases by fastforce
qed (use assms game_event_quiet in blast)

text \<open>A score that has passed the limit never comes back without a message of a win.\<close>

lemma game_events_above:
  "game_events fm evs g = Some (g', out) \<Longrightarrow> \<not> list_ex win_message evs \<Longrightarrow> score g \<le> score g'"
proof (induction evs arbitrary: g out)
  case (Cons ev evs)
  then obtain g1 out1 out2 where g1: "game_event fm ev g = Some (g1, out1)"
    "game_events fm evs g1 = Some (g', out2)"
    by (auto simp: bind_eq_Some_conv)
  then have "score g \<le> score g1" using game_event_score [OF g1(1)] Cons.prems(2) by auto
  with Cons.IH [OF g1(2)] Cons.prems(2) show ?case by simp
qed simp

text \<open>With at most one message in a batch the score moves by at most one.\<close>

lemma game_events_quiet:
  "game_events fm evs g = Some (g', out) \<Longrightarrow> \<not> list_ex is_message evs \<Longrightarrow> g' = g"
proof (induction evs arbitrary: g out)
  case (Cons ev evs)
  then show ?case by (auto simp: bind_eq_Some_conv dest!: game_event_quiet)
qed simp

lemma game_events_single:
  assumes "game_events fm evs g = Some (g', out)" "length (filter is_message evs) \<le> 1"
  shows "score g' = score g \<or> score g' = score g + 1 \<or> score g' = - 1"
  using assms
proof (induction evs arbitrary: g out)
  case (Cons ev evs)
  then obtain g1 out1 out2 where g1: "game_event fm ev g = Some (g1, out1)"
    "game_events fm evs g1 = Some (g', out2)"
    by (auto simp: bind_eq_Some_conv)
  show ?case
  proof (cases "is_message ev")
    case True
    then have "filter is_message evs = []" using Cons.prems(2) by simp
    then have "\<not> list_ex is_message evs" by (auto simp: list_ex_iff filter_empty_conv)
    then have "g' = g1" using game_events_quiet g1(2) by blast
    with game_event_score [OF g1(1)] show ?thesis by auto
  next
    case False
    then have "g1 = g" using game_event_quiet g1(1) by blast
    with Cons.IH g1(2) Cons.prems(2) False show ?thesis by simp
  qed
qed simp

lemma game_events_guesses:
  assumes "\<forall>(p, t) \<in> set ms. \<exists>n. parse_i32 t = Some n \<and> n < current_guess g"
    and "game_events fm (map (\<lambda>(p, t). GossipsubIncomingMessageHandled p [''guess'', t]) ms) g
           = Some (g', out)"
  shows "score g' = score g + int (length ms)"
  using assms
proof (induction ms arbitrary: g out)
  case (Cons m ms)
  obtain p t where m: "m = (p, t)" by (cases m)
  then obtain n where n: "parse_i32 t = Some n" "n < current_guess g" using Cons.prems(1) by auto
  obtain g1 out1 out2 where g1: "handle_game_message [''guess'', t] g = Some (g1, out1)"
    "game_events fm (map (\<lambda>(p, t). GossipsubIncomingMessageHandled p [''guess'', t]) ms) g1
       = Some (g', out2)"
    using Cons.prems(2) by (auto simp: m game_event_def bind_eq_Some_conv)
  from g1(1) n have "score_message ''guess'' t g = Some g1"
    by (auto simp: handle_game_message_def index_def)
  then have s: "score g1 = score g + 1" "current_guess g1 = current_guess g"
    using n by (auto simp: score_message_def split: if_splits)
  have "score g' = score g1 + int (length ms)"
    by (rule Cons.IH [OF _ g1(2)]) (use Cons.prems(1) s in auto)
  with s show ?case by simp
qed simp

lemma log_all_queue:
  assumes "length (event_queue c) + length evs \<le> MAX_QUEUE_ELEMENTS"
  shows "event_queue (log_all evs c) = event_queue c @ evs"
  using assms
proof (induction evs arbitrary: c)
  case (Cons e evs)
  have "event_queue (push_event e c) = event_queue c @ [e]"
    using Cons.prems by (simp add: push_event_def dq_push_def)
  with Cons show ?case by (simp add: log_all_def)
qed (simp add: log_all_def)

lemma log_all_subset: "set (event_queue (log_all evs c)) \<subseteq> set (event_queue c) \<union> set evs"
proof (induction evs arbitrary: c)
  case (Cons e evs)
  have "set (event_queue (push_event e c)) \<subseteq> insert e (set (event_queue c))"
    using set_dq_push by (simp add: push_event_def)
  moreover have "log_all (e # evs) c = log_all evs (push_event e c)" by (simp add: log_all_def)
  ultimately show ?case using Cons [of "push_event e c"] by auto
qed (simp add: log_all_def)

text \<open>A round that goes on has handled the queued events, old and new, and emptied the queue.\<close>

lemma play_round_cases:
  assumes "play_round fm r a = Some (a', out)"
  obtains "score (game_state a) = HIGH_SCORE" "out = Won" "score (game_state a') = HIGH_SCORE"
  | "score (game_state a) = - 1" "out = Lost" "score (game_state a') = - 1"
  | evs lines where "score (game_state a) \<noteq> HIGH_SCORE" "score (game_state a) \<noteq> - 1" "out = Playing"
      "evs = event_queue (log_all (logged r) (fst (query_network (round_env r)
          (game_gossip ''guess'' (random_number r)) (game_core a))))"
      "game_events fm evs ((game_state a)\<lparr>current_guess := random_number r\<rparr>)
         = Some (game_state a', lines)"
      "event_queue (game_core a') = []"
proof (cases "score (game_state a) = HIGH_SCORE \<or> score (game_state a) = - 1")
  case True
  then show thesis
    using assms that(1,2) by (auto simp: play_round_def Let_def HIGH_SCORE_def)
next
  case False
  then show thesis
    using assms that(3)
    by (auto simp: play_round_def Let_def take_events_def dq_drain_def dq_into_inner_def)
qed

lemma no_win_queue:
  assumes "\<not> list_ex win_message (event_queue c)" "\<not> list_ex win_message evs"
  shows "\<not> list_ex win_message (event_queue (log_all evs (fst (query_network env q c))))"
  using assms log_all_subset [of evs "fst (query_network env q c)"] by (auto simp: list_ex_iff)

lemma play_above:
  assumes "play fm rs a = Some (a', out)" "HIGH_SCORE < score (game_state a)"
    and "\<not> list_ex win_message (event_queue (game_core a))"
    and "\<forall>r \<in> set rs. \<not> list_ex win_message (logged r)"
  shows "out = Playing \<and> HIGH_SCORE < score (game_state a')"
  using assms
proof (induction rs arbitrary: a)
  case (Cons r rs)
  obtain a1 out1 where r: "play_round fm r a = Some (a1, out1)"
    "(if out1 = Playing then play fm rs a1 else Some (a1, out1)) = Some (a', out)"
    using Cons.prems(1) by (auto simp: bind_eq_Some_conv)
  from r(1) show ?case
  proof (cases rule: play_round_cases)
    case (3 evs lines)
    have "\<not> list_ex win_message evs" unfolding 3 by (rule no_win_queue) (use Cons.prems in auto)
    from game_events_above [OF 3(5) this] Cons.prems(2)
    have "HIGH_SCORE < score (game_state a1)" by simp
    then show ?thesis using Cons.IH [of a1] 3 r(2) Cons.prems(4) by simp
  qed (use Cons.prems(2) in \<open>auto simp: HIGH_SCORE_def\<close>)
qed simp

section \<open>Properties\<close>

text \<open>C31: A player whose score passes the limit inside one batch of messages never wins: the
  score is compared with the limit only between batches, and for equality. The batch is one of
  guesses below the player's own number, and no message that announces a winner follows.\<close>

theorem overshot_game_never_won:
  assumes "event_queue (game_core a) = []" "score (game_state a) \<noteq> - 1"
    and "score (game_state a) < HIGH_SCORE"
    and "logged r = map (\<lambda>(p, t). GossipsubIncomingMessageHandled p [''guess'', t]) ms"
    and "length ms \<le> MAX_QUEUE_ELEMENTS"
    and "\<forall>(p, t) \<in> set ms. \<exists>n. parse_i32 t = Some n \<and> n < random_number r"
    and "HIGH_SCORE < score (game_state a) + int (length ms)"
    and "\<forall>q \<in> set rs. \<not> list_ex win_message (logged q)"
    and "play fm (r # rs) a = Some (a', out)"
  shows "out = Playing \<and> HIGH_SCORE < score (game_state a')"
proof -
  obtain a1 out1 where r: "play_round fm r a = Some (a1, out1)"
    "(if out1 = Playing then play fm rs a1 else Some (a1, out1)) = Some (a', out)"
    using assms(9) by (auto simp: bind_eq_Some_conv)
  from r(1) show ?thesis
  proof (cases rule: play_round_cases)
    case (3 evs lines)
    have "evs = logged r" using assms(1,4,5) unfolding 3 by (subst log_all_queue) simp_all
    with 3(5) assms(4) have "score (game_state a1) = score (game_state a) + int (length ms)"
      using game_events_guesses [of ms "(game_state a)\<lparr>current_guess := random_number r\<rparr>"] assms(6)
      by simp
    then show ?thesis using play_above [of fm rs a1 a' out] 3 r(2) assms(7,8) by simp
  qed (use assms(2,3) in auto)
qed

lemma game_events_guesses_run:
  assumes "\<forall>(p, t) \<in> set ms. parse_i32 t \<noteq> None" "score g + int (length ms) < 2 ^ 31"
  shows "\<exists>g' out. game_events fm
    (map (\<lambda>(p, t). GossipsubIncomingMessageHandled p [''guess'', t]) ms) g = Some (g', out)"
  using assms
proof (induction ms arbitrary: g)
  case (Cons m ms)
  obtain p t where m: "m = (p, t)" by (cases m)
  then obtain n where n: "parse_i32 t = Some n" using Cons.prems(1) by auto
  define g1 where "g1 = (if n < current_guess g then g\<lparr>score := score g + 1\<rparr> else g)"
  have g1: "score_message ''guess'' t g = Some g1"
    using n Cons.prems(2) by (simp add: score_message_def g1_def)
  have "score g1 + int (length ms) < 2 ^ 31" using Cons.prems(2) by (simp add: g1_def)
  with Cons.IH [of g1] Cons.prems(1) obtain g' out where
    "game_events fm (map (\<lambda>(p, t). GossipsubIncomingMessageHandled p [''guess'', t]) ms) g1
       = Some (g', out)" by auto
  with g1 show ?case by (simp add: m game_event_def handle_game_message_def index_def)
qed simp

definition sample_game :: game_app where
  "sample_game = \<lparr>game_core = sample_core 1, game_state = new_game 1, shown = []\<rparr>"

lemma parse_i32_3: "parse_i32 ''3'' = Some 3"
  by (simp add: parse_i32_def code_of_def)

lemma guesses_play:
  assumes "round_env r = silent_env" "logged r
      = map (\<lambda>(p, t). GossipsubIncomingMessageHandled p [''guess'', t]) ms"
    and "\<forall>(p, t) \<in> set ms. parse_i32 t \<noteq> None" "length ms \<le> MAX_QUEUE_ELEMENTS"
  shows "\<exists>a'. play_round fm r sample_game = Some (a', Playing)"
proof -
  let ?g = "(game_state sample_game)\<lparr>current_guess := random_number r\<rparr>"
  have "int (length ms) < 2 ^ 31" using assms(4) by (simp add: MAX_QUEUE_ELEMENTS_def)
  then have "\<exists>g' out. game_events fm (logged r) ?g = Some (g', out)"
    unfolding assms(2) using assms(3)
    by (intro game_events_guesses_run) (auto simp: sample_game_def new_game_def)
  moreover have "event_queue (log_all (logged r) (fst (query_network silent_env q (sample_core 1)))) = logged r" for q
    by (subst log_all_queue) (use assms(2,4) in simp_all)
  ultimately show ?thesis
    by (auto simp: play_round_def Let_def take_events_def dq_into_inner_def sample_game_def
        new_game_def HIGH_SCORE_def assms(1))
qed

definition six_guesses :: round where
  "six_guesses = \<lparr>round_env = silent_env, random_number = 9,
     logged = map (\<lambda>(p, t). GossipsubIncomingMessageHandled p [''guess'', t])
       (replicate 6 (PeerId ''p'', ''3''))\<rparr>"

definition one_guess :: round where
  "one_guess = \<lparr>round_env = silent_env, random_number = 9,
     logged = map (\<lambda>(p, t). GossipsubIncomingMessageHandled p [''guess'', t])
       [(PeerId ''p'', ''3'')]\<rparr>"

theorem overshot_game_never_won_witness:
  "\<exists>a'. play sample_formats [six_guesses] sample_game = Some (a', Playing) \<and> HIGH_SCORE < score (game_state a')"
proof -
  obtain a' where a': "play_round sample_formats six_guesses sample_game = Some (a', Playing)"
    using guesses_play [of six_guesses "replicate 6 (PeerId ''p'', ''3'')" sample_formats]
    by (auto simp: six_guesses_def parse_i32_3 MAX_QUEUE_ELEMENTS_def)
  have "HIGH_SCORE < score (game_state a')"
    using overshot_game_never_won [of sample_game six_guesses "replicate 6 (PeerId ''p'', ''3'')" "[]" sample_formats a' Playing] a'
    by (auto simp: sample_game_def new_game_def HIGH_SCORE_def MAX_QUEUE_ELEMENTS_def parse_i32_3
        six_guesses_def)
  with a' show ?thesis by auto
qed

text \<open>As long as no batch holds more than one message, the score never passes the limit, and
  a player stops with a win exactly when its score is the limit and with a loss exactly when
  the other player reported a win; with any other score it plays on.\<close>

theorem single_messages_decide_game:
  assumes "play fm rs a = Some (a', out)" "score (game_state a) \<in> {- 1..HIGH_SCORE}"
    and "event_queue (game_core a) = []"
    and "\<forall>r \<in> set rs. length (filter is_message (logged r)) \<le> 1 \<and> length (logged r) \<le> MAX_QUEUE_ELEMENTS"
  shows "score (game_state a') \<in> {- 1..HIGH_SCORE}
     \<and> (out = Won \<longrightarrow> score (game_state a') = HIGH_SCORE)
     \<and> (out = Lost \<longrightarrow> score (game_state a') = - 1)
     \<and> (out = Playing \<longrightarrow> (\<forall>r b next. play_round fm r a' = Some (b, next) \<longrightarrow>
          next = (if score (game_state a') = HIGH_SCORE then Won
                  else if score (game_state a') = - 1 then Lost else Playing)))"
  using assms
proof (induction rs arbitrary: a)
  case Nil
  have "next = (if score (game_state a) = HIGH_SCORE then Won
      else if score (game_state a) = - 1 then Lost else Playing)"
    if "play_round fm r a = Some (b, next)" for r b "next"
    using that by (rule play_round_cases) (auto simp: HIGH_SCORE_def)
  with Nil show ?case by auto
next
  case (Cons r rs)
  obtain a1 out1 where r: "play_round fm r a = Some (a1, out1)"
    "(if out1 = Playing then play fm rs a1 else Some (a1, out1)) = Some (a', out)"
    using Cons.prems(1) by (auto simp: bind_eq_Some_conv)
  from r(1) show ?case
  proof (cases rule: play_round_cases)
    case (3 evs lines)
    have "evs = logged r" using Cons.prems(3,4) unfolding 3 by (subst log_all_queue) simp_all
    then have "score (game_state a1) = score (game_state a)
        \<or> score (game_state a1) = score (game_state a) + 1 \<or> score (game_state a1) = - 1"
      using game_events_single [OF 3(5)] Cons.prems(4) by simp
    then have "score (game_state a1) \<in> {- 1..HIGH_SCORE}"
      using Cons.prems(2) 3(1) by (auto simp: HIGH_SCORE_def)
    then show ?thesis using Cons.IH [of a1] 3 r(2) Cons.prems(4) by simp
  qed (use r(2) in \<open>auto simp: HIGH_SCORE_def\<close>)
qed

theorem single_messages_decide_game_witness:
  "\<exists>a'. play sample_formats [one_guess] sample_game = Some (a', Playing) \<and> score (game_state a') \<in> {- 1..HIGH_SCORE}"
proof -
  obtain a' where a': "play_round sample_formats one_guess sample_game = Some (a', Playing)"
    using guesses_play [of one_guess "[(PeerId ''p'', ''3'')]" sample_formats]
    by (auto simp: one_guess_def parse_i32_3 MAX_QUEUE_ELEMENTS_def)
  have "score (game_state a') \<in> {- 1..HIGH_SCORE}"
    using single_messages_decide_game [of sample_formats "[one_guess]" sample_game a' Playing] a'
    by (simp add: sample_game_def new_game_def HIGH_SCORE_def MAX_QUEUE_ELEMENTS_def one_guess_def)
  with a' show ?thesis by auto
qed

text \<open>C32: A guess without a number, or with one that does not fit \<open>i32\<close>, brings down the network
  task of a node with the filter of the game; any peer of the mesh can send it.\<close>

theorem bad_guess_panics_node:
  assumes "gossip_filter_fn (network_info (node ls)) = game_filter"
    and "gossip_fields (gossip_payload msg) = ''guess'' # rest"
  shows "handle_swarm_event cd now (Gossip_Message msg) ls = None
     \<longleftrightarrow> rest = [] \<or> parse_i32 (hd rest) = None"
proof -
  have 1: "handle_gossip cd now msg ls = handle_plain_gossip msg (''guess'' # rest) ls"
    by (simp add: handle_gossip_def assms(2) index_def flag_defs)
  have 2: "handle_plain_gossip msg (''guess'' # rest) ls = None \<longleftrightarrow> bad_guess (''guess'' # rest)"
    by (simp only: handle_plain_gossip_def assms(1) game_filter_panics_iff option.map_disc_iff)
  have "handle_swarm_event cd now (Gossip_Message msg) ls = None \<longleftrightarrow> bad_guess (''guess'' # rest)"
    by (simp only: handle_swarm_event_def swarm_event.case 1 2)
  then show ?thesis by (cases rest) simp_all
qed

lemma setup_node_1_filter:
  assumes "setup_node_1 cd ko h pp = Some ls"
  shows "gossip_filter_fn (network_info (node ls)) = game_filter"
proof -
  obtain cfg where "build_unwrap Tokio cd h [] (with_config cfg\<lparr>gossip_filter := game_filter\<rparr>) = Some ls"
    using assms by (auto simp: setup_node_1_def with_gossipsub_def bind_eq_Some_conv)
  then obtain b where b: "gossip_filter b = game_filter" "build_unwrap Tokio cd h [] b = Some ls"
    by force
  then obtain cs where "build Tokio cd h [] [] b = (cs, Inr ls)"
    by (cases "build Tokio cd h [] [] b") (auto simp: build_unwrap_def split: sum.splits)
  from build_ok [OF this] b(1) show ?thesis
    by (simp add: loop_start_def initial_core_def initial_info_def)
qed

definition bad_message :: gossip_message where
  "bad_message = \<lparr>propagation_source = PeerId ''p'', gossip_id = ''m'', gossip_source = None,
     gossip_payload = ''guess'', gossip_topic = GOSSIP_NETWORK\<rparr>"

theorem bad_guess_panics_node_witness:
  "\<exists>ls. setup_node_1 sample_codecs sample_keys sample_host (49666, 49606) = Some ls
     \<and> handle_swarm_event sample_codecs 100 (Gossip_Message bad_message) ls = None"
proof -
  have key: "key_type_from ''ed25519'' = Some Ed25519"
    by code_simp
  have "\<exists>cfg. deterministic_config sample_keys node_1_keypair (49666, 49606) Map.empty = Some cfg"
    by (simp add: deterministic_config_def generate_keypair_from_protobuf_def key try_into_def
        sample_keys_def)
  moreover have "\<exists>ls. build_unwrap Tokio sample_codecs sample_host [] b = Some ls" for b
    by (cases "transport b") (simp add: build_unwrap_def build_def build_swarm_def
        build_swarm_tokio_def sample_host_def start_listening_def)
  ultimately have "\<exists>ls. setup_node_1 sample_codecs sample_keys sample_host (49666, 49606) = Some ls"
    by (simp add: setup_node_1_def with_gossipsub_def) (elim exE, simp)
  then obtain ls where
    ls: "setup_node_1 sample_codecs sample_keys sample_host (49666, 49606) = Some ls" by blast
  have fields: "gossip_fields (gossip_payload bad_message) = ''guess'' # []"
    by code_simp
  have "handle_swarm_event sample_codecs 100 (Gossip_Message bad_message) ls = None"
    using bad_guess_panics_node [OF setup_node_1_filter [OF ls] fields] by simp
  with ls show ?thesis by blast
qed

end
