(* ===== verification/Example_Share.thy ===== *)
theory Example_Share
  imports Example_Common Sample_Nodes
begin

text \<open>
  The echo server (\<open>examples/echo-server/src/main.rs\<close>) and the file sharing application
  (\<open>examples/file-sharing-app/src/main.rs\<close>): one node writes the place of a file to the
  DHT, the other looks it up and fetches the file with an RPC, which the first answers from
  its disk. What the RPC handler prints, inside the network task, is not modelled.
\<close>

section \<open>The echo server\<close>

definition echo_setup_node ::
    "codecs \<Rightarrow> key_ops \<Rightarrow> host \<Rightarrow> port \<times> port \<Rightarrow> loop_state option" where
  "echo_setup_node cd ko h pp =
     build_unwrap Tokio cd h []
       (with_config (with_udp (snd pp) (with_tcp (fst pp) (bootstrap_new ko))))"

text \<open>One line of the input: the result, and what is printed.\<close>

definition echo_line :: "env \<Rightarrow> string \<Rightarrow> core \<Rightarrow> core \<times> string list" where
  "echo_line env buffer c =
     (case query_network env (Echo (trim buffer)) c of
        (c1, Inr (Echo_Resp text)) \<Rightarrow> (c1, [''--> '' @ text])
      | (c1, _) \<Rightarrow> (c1, []))"

text \<open>The lines up to the end of the input.\<close>

fun echo_lines :: "env \<Rightarrow> string list \<Rightarrow> core \<Rightarrow> core \<times> string list" where
  "echo_lines env [] c = (c, [])"
| "echo_lines env (l # ls) c =
     (let (c1, out1) = echo_line env l c; (c2, out2) = echo_lines env ls c1 in (c2, out1 @ out2))"

definition echo_main ::
    "codecs \<Rightarrow> key_ops \<Rightarrow> host \<Rightarrow> env \<Rightarrow> string list \<Rightarrow> (core \<times> string list) option" where
  "echo_main cd ko h env input =
     map_option
       (\<lambda>ls. let (c, out) = echo_lines env input (node ls) in
          (c, [''Welcome to the Echo-Server SwarmNl example.'',
               ''Type into the terminal and watch it get echoed back to you.'',
               ''Enter your input (Ctrl+D to end):''] @ out))
       (echo_setup_node cd ko h (55000, 46000))"

section \<open>Sharing a file\<close>

definition KADEMLIA_KEY :: string where "KADEMLIA_KEY = ''config_file''"
definition KADEMLIA_VALUE :: string where "KADEMLIA_VALUE = ''bootstrap_config.ini''"

text \<open>What the operating system says of a path.\<close>

datatype file_result = Open_Failed | Read_Failed | Content bytes

text \<open>The handler; \<open>None\<close> is the panic on a request without data.\<close>

definition file_rpc :: "(string \<Rightarrow> file_result) \<Rightarrow> rpc_callback" where
  "file_rpc disk data =
     map_option
       (\<lambda>d0. [case disk (trim (from_utf8_lossy d0)) of
                Content b \<Rightarrow> b
              | Read_Failed \<Rightarrow> ''Error: Failed to read file content''
              | Open_Failed \<Rightarrow> ''Error: Failed to open file''])
       (index data 0)"

definition share_setup_node_1 ::
    "codecs \<Rightarrow> key_ops \<Rightarrow> host \<Rightarrow> (string \<Rightarrow> file_result) \<Rightarrow> port \<times> port \<Rightarrow> loop_state option" where
  "share_setup_node_1 cd ko h disk pp =
     Option.bind (deterministic_config ko node_1_keypair pp Map.empty) (\<lambda>cfg.
       build_unwrap AsyncStd cd h [] (with_rpc RpcDefault (file_rpc disk) (with_config cfg)))"

definition share_setup_node_2 ::
    "codecs \<Rightarrow> key_ops \<Rightarrow> host \<Rightarrow> (string \<Rightarrow> file_result) \<Rightarrow> port \<times> port \<Rightarrow> port \<times> port
      \<Rightarrow> (loop_state \<times> peer_id) option" where
  "share_setup_node_2 cd ko h disk node_1_ports pp =
     Option.bind (from_protobuf_encoding ko node_1_keypair) (\<lambda>key.
       (let peer = to_peer_id h key;
            addr = local_tcp (fst node_1_ports);
            cfg = with_udp (snd pp) (with_tcp (fst pp)
                    (with_bootnodes [peer_str cd peer \<mapsto> addr] (bootstrap_new ko))) in
        map_option (\<lambda>ls. (ls, peer))
          (build_unwrap AsyncStd cd h [(peer_str cd peer, addr)]
            (with_rpc RpcDefault (file_rpc disk) (with_config cfg)))))"

definition share_setup_lines :: "codecs \<Rightarrow> formats \<Rightarrow> network_event \<Rightarrow> string list" where
  "share_setup_lines cd fm ev =
     (case ev of
        NewListenAddr local _ addr \<Rightarrow>
          [''Peer id: '' @ peer_str cd local, ''We're listening on the '' @ addr]
      | ConnectionEstablished peer _ _ _ _ \<Rightarrow>
          [''Connection established with peer: '' @ debug_peer fm peer]
      | _ \<Rightarrow> [])"

text \<open>Node 1; \<open>world\<close> and \<open>world2\<close> are what the network task does before the two times the
  events are read. It then loops for ever.\<close>

definition share_run_node_1 ::
    "codecs \<Rightarrow> formats \<Rightarrow> key_ops \<Rightarrow> host \<Rightarrow> (string \<Rightarrow> file_result) \<Rightarrow> env
      \<Rightarrow> (core \<Rightarrow> core) \<Rightarrow> (core \<Rightarrow> core) \<Rightarrow> (core \<times> string list) option" where
  "share_run_node_1 cd fm ko h disk env world world2 =
     Option.bind (share_setup_node_1 cd ko h disk (49666, 49606)) (\<lambda>ls.
       (let (c1, evs) = drain_events (world (node ls)) in
        case query_network env (KademliaStoreRecord KADEMLIA_KEY KADEMLIA_VALUE None None) c1 of
          (c2, Inl e) \<Rightarrow> None
        | (c2, Inr _) \<Rightarrow>
            (let (c3, evs2) = take_events (world2 c2) in
             Some (c3,
               concat (map (share_setup_lines cd fm) evs)
               @ [''[1] >>>> Writing file location to DHT: '' @ from_utf8_lossy KADEMLIA_KEY]
               @ concat (map (\<lambda>ev. case ev of
                   KademliaPutRecordSuccess key \<Rightarrow>
                     [''Record successfully written to DHT. Key: '' @ debug_bytes key]
                 | _ \<Rightarrow> []) evs2)))))"

text \<open>Node 2 after the events of the setup: look up, then fetch. \<open>None\<close> where an unwrap or an
  index panics.\<close>

definition fetch_shared ::
    "formats \<Rightarrow> env \<Rightarrow> peer_id \<Rightarrow> core \<Rightarrow> (core \<times> string list) option" where
  "fetch_shared fm env node_1 c =
     (case query_network env (KademliaLookupRecord KADEMLIA_KEY) c of
        (c1, Inr (KademliaLookupSuccess val)) \<Rightarrow>
          (let found = ''[2] >>>> File read from DHT: '' @ from_utf8_lossy val;
               request = SendRpc [val] node_1 in
           case send_to_network env request c1 of
             (c2, None) \<Rightarrow> None
           | (c2, Some sid) \<Rightarrow>
               (let sent = ''[2] >>>> A fetch request has been sent to peer: '' @ debug_peer fm node_1 in
                case recv_from_network (arrivals env sid request) sid c2 of
                  (c3, Inr (SendRpc_Resp response_file)) \<Rightarrow>
                    map_option
                      (\<lambda>f. (c3, [found, sent,
                         ''[2] >>>> Here is the file delivered from the remote peer:'', [],
                         from_utf8_lossy f]))
                      (index response_file 0)
                | (c3, Inr _) \<Rightarrow> Some (c3, [found, sent])
                | (c3, Inl _) \<Rightarrow> Some (c3, [found, sent, ''An error occured''])))
      | (c1, _) \<Rightarrow> Some (c1, []))"

definition share_run_node_2 ::
    "codecs \<Rightarrow> formats \<Rightarrow> key_ops \<Rightarrow> host \<Rightarrow> (string \<Rightarrow> file_result) \<Rightarrow> env
      \<Rightarrow> (core \<Rightarrow> core) \<Rightarrow> (core \<times> string list) option" where
  "share_run_node_2 cd fm ko h disk env world =
     Option.bind (share_setup_node_2 cd ko h disk (49666, 49606) (49667, 49607)) (\<lambda>(ls, node_1).
       (let (c1, evs) = take_events (world (node ls)) in
        map_option (\<lambda>(c2, out). (c2, concat (map (share_setup_lines cd fm) evs) @ out))
          (fetch_shared fm env node_1 c1)))"

section \<open>Requests answered at once\<close>

text \<open>Room for \<open>n\<close> more requests, and for a response.\<close>

definition room_for :: "nat \<Rightarrow> core \<Rightarrow> bool" where
  "room_for n c \<longleftrightarrow> card (req_buffer (request_buffer c)) + n \<le> req_size (request_buffer c)
     \<and> length (resp_buffer (response_buffer c)) < resp_size (response_buffer c)"

lemma card_insert_Suc: "card (insert x A) \<le> Suc (card A)"
  by (cases "finite A") (simp_all add: card_insert_if)

lemma sent_with_room:
  assumes "chan_open env" "\<not> untracked req" "room_for (Suc n) c"
  obtains c1 sid where "send_to_network env req c = (c1, Some sid)" "room_for n c1"
proof -
  let ?sid = "stream_id_next (current_stream_id c)"
  have "snd (send_with_id env ?sid req c) = Some ?sid"
    by (rule send_accepts) (use assms in \<open>auto simp: room_for_def\<close>)
  then obtain c1 where c1: "send_with_id env ?sid req c = (c1, Some ?sid)" by (metis prod.collapse)
  have "card (req_buffer (request_buffer c1)) \<le> Suc (card (req_buffer (request_buffer c)))"
    using send_with_id_Some [OF c1] card_insert_Suc by simp
  then have "room_for n c1"
    using assms(3) send_with_id_Some [OF c1] by (simp add: room_for_def)
  with c1 that show thesis by (simp add: send_to_network_def)
qed

lemma received_with_room:
  assumes "arr 0 = [ToApplication sid r]" "room_for n c"
  obtains c1 where "recv_from_network arr sid c = (c1, response_result r)" "room_for n c1"
proof -
  let ?c1 = "handle_network_response (ToApplication sid r) c"
  let ?b = "resp_buffer (response_buffer c)"
  have found: "map_of (resp_buffer (response_buffer ?c1)) sid = Some (response_result r)"
    by (rule handle_response_slot) (use assms(2) in \<open>simp add: room_for_def\<close>)
  have buffer: "response_buffer ?c1 = (response_buffer c)\<lparr>resp_buffer := AList.update sid (response_result r) ?b\<rparr>"
    using assms(2) by (simp add: handle_network_response_def response_insert_def room_for_def)
  have "recv_loop arr sid 0 c
      = (?c1\<lparr>response_buffer := fst (response_remove sid (response_buffer ?c1))\<rparr>, 0, response_result r)"
    by (subst recv_loop.simps) (simp add: assms(1) Let_def response_remove_def found)
  moreover have "request_buffer ?c1 = request_buffer c" by (simp add: handle_network_response_def)
  moreover have "length (AList.delete sid (AList.update sid (response_result r) ?b)) \<le> length ?b"
    using length_AList_delete_le by (metis delete_update_same)
  ultimately show thesis
    using that assms(2) buffer
    by (simp add: recv_from_network_def room_for_def response_remove_def)
qed

lemma queried_with_room:
  assumes "chan_open env" "\<not> untracked req" "room_for (Suc n) c"
    and "\<And>sid. arrivals env sid req 0 = [ToApplication sid r]"
  obtains c1 where "query_network env req c = (c1, response_result r)" "room_for n c1"
proof -
  obtain c1 sid where c1: "send_to_network env req c = (c1, Some sid)" "room_for n c1"
    using sent_with_room assms(1-3) by blast
  obtain c2 where "recv_from_network (arrivals env sid req) sid c1 = (c2, response_result r)" "room_for n c2"
    using received_with_room [of "arrivals env sid req" sid r] assms(4) c1(2) by blast
  with c1 that show thesis by (simp add: query_network_def)
qed

section \<open>Properties\<close>

text \<open>With a network task that serves its requests at once, the echo server prints every line
  of its input, trimmed, in order.\<close>

theorem every_line_is_echoed:
  assumes "chan_open env" "room_for (length input) c"
    and "\<And>sid message. arrivals env sid (Echo message) 0
           = out_channel (handle_app_data cd sw sid (Echo message) (loop_start c0))"
  shows "snd (echo_lines env input c) = map (\<lambda>l. ''--> '' @ trim l) input"
  using assms(2)
proof (induction input arbitrary: c)
  case (Cons l ls)
  have answered: "arrivals env sid (Echo (trim l)) 0 = [ToApplication sid (Echo_Resp (trim l))]" for sid
    by (simp add: assms(3) respond_def loop_start_def)
  obtain c1 where "query_network env (Echo (trim l)) c = (c1, Inr (Echo_Resp (trim l)))"
    "room_for (length ls) c1"
    using queried_with_room [OF assms(1) _ _ answered] Cons.prems by (auto simp: response_result_def)
  then show ?case using Cons.IH by (simp add: echo_line_def case_prod_beta Let_def)
qed simp

definition echoing :: env where
  "echoing = \<lparr>chan_open = True,
     arrivals = (\<lambda>sid req _. out_channel
       (handle_app_data sample_codecs sample_swarm sid req (loop_start (sample_core 5)))),
     clock = (\<lambda>_. 0), shuffled = (\<lambda>_. [])\<rparr>"

theorem every_line_is_echoed_witness:
  "snd (echo_lines echoing [''a'', ''b''] (sample_core 5)) = [''--> a'', ''--> b'']"
proof -
  have trimmed: "trim ''a'' = ''a''" "trim ''b'' = ''b''"
    by (rule trim_plain; simp add: plain_char_def code_of_def)+
  show ?thesis
    using every_line_is_echoed [of echoing "[''a'', ''b'']" "sample_core 5" sample_codecs sample_swarm "sample_core 5"]
    by (simp add: echoing_def room_for_def trimmed)
qed

text \<open>The file sharing application answers a request of any peer with the content of any file
  it can read; a request without data brings the network task down.\<close>

theorem any_file_is_served:
  assumes "rpc_handler_fn (network_info (node ls)) = file_rpc disk"
    and "name \<notin> {RPC_SYNC_PULL_FLAG, SHARD_RPC_SYNC_FLAG, RPC_DATA_FORWARDING_FLAG, SHARD_RPC_REQUEST_FLAG}"
    and "from_utf8_lossy name = name" "disk (trim name) = Content b"
  shows "handle_swarm_event cd now (Rpc_Request peer ch [name]) ls
           = Some (make_call (RpcSendResponse ch [b]) ls)
     \<and> handle_swarm_event cd now (Rpc_Request peer ch []) ls = None"
  using assms(2)
  by (simp add: handle_swarm_event_def handle_rpc_request_def index_def assms(1,3,4) file_rpc_def
      send_response_def Let_def)

text \<open>C36: Once node 1's record has been found, node 2 prints the content of the file that node 1's
  handler answers with. Both answers, to the lookup and to the fetch, are there when node 2
  first looks for them.\<close>

theorem shared_file_is_delivered:
  assumes "chan_open env" "room_for 2 c"
    and "\<And>sid. arrivals env sid (KademliaLookupRecord KADEMLIA_KEY) 0
           = [ToApplication sid (KademliaLookupSuccess KADEMLIA_VALUE)]"
    and "\<And>sid. arrivals env sid (SendRpc [KADEMLIA_VALUE] node_1) 0
           = [ToApplication sid (SendRpc_Resp answer)]"
    and "file_rpc disk [KADEMLIA_VALUE] = Some answer" "disk KADEMLIA_VALUE = Content b"
  shows "\<exists>c'. fetch_shared fm env node_1 c
     = Some (c', [''[2] >>>> File read from DHT: '' @ KADEMLIA_VALUE,
         ''[2] >>>> A fetch request has been sent to peer: '' @ debug_peer fm node_1,
         ''[2] >>>> Here is the file delivered from the remote peer:'', [], from_utf8_lossy b])"
proof -
  have val: "from_utf8_lossy KADEMLIA_VALUE = KADEMLIA_VALUE" "trim KADEMLIA_VALUE = KADEMLIA_VALUE"
    by (rule from_utf8_lossy_ascii trim_plain;
        simp add: KADEMLIA_VALUE_def ascii_def plain_char_def code_of_def)+
  then have answer: "answer = [b]" using assms(5,6) by (simp add: file_rpc_def index_def)
  obtain c1 where c1: "query_network env (KademliaLookupRecord KADEMLIA_KEY) c
      = (c1, Inr (KademliaLookupSuccess KADEMLIA_VALUE))" "room_for 1 c1"
    using queried_with_room [OF assms(1) _ _ assms(3), of 1 c] assms(2)
    by (auto simp: response_result_def numeral_2_eq_2)
  obtain c2 sid where c2: "send_to_network env (SendRpc [KADEMLIA_VALUE] node_1) c1 = (c2, Some sid)"
    "room_for 0 c2"
    using sent_with_room [of env "SendRpc [KADEMLIA_VALUE] node_1" 0 c1] assms(1) c1(2) by auto
  obtain c3 where "recv_from_network (arrivals env sid (SendRpc [KADEMLIA_VALUE] node_1)) sid c2
      = (c3, response_result (SendRpc_Resp answer))"
    by (rule received_with_room [of "arrivals env sid (SendRpc [KADEMLIA_VALUE] node_1)", OF assms(4) c2(2)])
  then have "recv_from_network (arrivals env sid (SendRpc [KADEMLIA_VALUE] node_1)) sid c2
      = (c3, Inr (SendRpc_Resp answer))" by (simp add: response_result_def)
  with c1 c2 show ?thesis by (simp add: fetch_shared_def answer index_def val)
qed

definition sharing :: env where
  "sharing = \<lparr>chan_open = True,
     arrivals = (\<lambda>sid req _. [ToApplication sid
       (case req of KademliaLookupRecord _ \<Rightarrow> KademliaLookupSuccess KADEMLIA_VALUE
        | _ \<Rightarrow> SendRpc_Resp [''f''])]),
     clock = (\<lambda>_. 0), shuffled = (\<lambda>_. [])\<rparr>"

theorem shared_file_is_delivered_witness:
  "\<exists>c' out. fetch_shared sample_formats sharing (PeerId ''p'') (sample_core 5) = Some (c', out) \<and> last out = ''f''"
proof -
  have val: "from_utf8_lossy KADEMLIA_VALUE = KADEMLIA_VALUE" "trim KADEMLIA_VALUE = KADEMLIA_VALUE"
    by (rule from_utf8_lossy_ascii trim_plain;
        simp add: KADEMLIA_VALUE_def ascii_def plain_char_def code_of_def)+
  have "from_utf8_lossy ''f'' = ''f''" by (rule from_utf8_lossy_ascii) (simp add: ascii_def code_of_def)
  then show ?thesis
    using shared_file_is_delivered [of sharing "sample_core 5" "PeerId ''p''" "[''f'']" "\<lambda>_. Content ''f''" "''f''" sample_formats]
    by (auto simp: sharing_def room_for_def file_rpc_def index_def)
qed

definition serving :: loop_state where
  "serving = loop_start (initial_core sample_host
     (with_rpc RpcDefault (file_rpc (\<lambda>_. Content ''k'')) (sample_builder 5)))"

theorem any_file_is_served_witness:
  "handle_swarm_event sample_codecs 0 (Rpc_Request (PeerId ''x'') 0 [''/etc/shadow'']) serving
     = Some (make_call (RpcSendResponse 0 [''k'']) serving)"
proof -
  have "from_utf8_lossy ''/etc/shadow'' = ''/etc/shadow''"
    by (rule from_utf8_lossy_ascii) (simp add: ascii_def code_of_def)
  then show ?thesis
    using any_file_is_served [of serving "\<lambda>_. Content ''k''" "''/etc/shadow''" "''k''" sample_codecs 0 "PeerId ''x''" 0]
    by (simp add: serving_def loop_start_def initial_core_def initial_info_def with_rpc_def flag_defs)
qed

end
