(* ===== verification/Example_Hash.thy ===== *)
theory Example_Hash
  imports Example_Common Sample_Nodes
begin

text \<open>
  The hash-based sharding example (\<open>examples/sharding/hash-based/src/main.rs\<close>): a node whose
  shard storage is a directory, a task that writes forwarded and replicated data to files,
  and a menu to place, fetch and read data.

  The files are a map from path texts to contents, as the operating system resolves them;
  \<open>writable\<close> tells which of them can be opened for appending. The storage object reads the
  disk when it is asked, so the state of the node's storage follows every write
  (\<open>see_files\<close>). The prompt is not part of the screen.
\<close>

section \<open>Storage\<close>

type_synonym files = "string \<rightharpoonup> bytes"

definition storage_path :: "string \<Rightarrow> string" where
  "storage_path name = ''storage/'' @ name"

text \<open>\<open>LocalStorage::read_file\<close> and \<open>fetch_data\<close>: the first of the keys that names a file.\<close>

definition read_file_content :: "files \<Rightarrow> string \<Rightarrow> byte_vector option" where
  "read_file_content fs path = map_option (\<lambda>content. [content]) (fs path)"

fun fetch_file :: "files \<Rightarrow> byte_vector \<Rightarrow> byte_vector" where
  "fetch_file fs [] = []"
| "fetch_file fs (sub_key # rest) =
     (case read_file_content fs (storage_path (from_utf8_lossy sub_key)) of
        Some data \<Rightarrow> data
      | None \<Rightarrow> fetch_file fs rest)"

primcorec file_storage :: "files \<Rightarrow> shard_storage" where
  "file_storage fs = Storage (\<lambda>key. Some (fetch_file fs key, file_storage fs))"

definition see_files :: "files \<Rightarrow> core \<Rightarrow> core" where
  "see_files fs c =
     c\<lparr>network_info := (network_info c)\<lparr>sharding :=
         (sharding (network_info c))\<lparr>local_storage := file_storage fs\<rparr>\<rparr>\<rparr>"

text \<open>\<open>append_to_file\<close>; \<open>False\<close> is the I/O error.\<close>

definition append_to_file :: "(string \<Rightarrow> bool) \<Rightarrow> string \<Rightarrow> string \<Rightarrow> files \<Rightarrow> files \<times> bool" where
  "append_to_file writable name content fs =
     (let path = storage_path name;
          old = (case fs path of None \<Rightarrow> [] | Some b \<Rightarrow> b) in
      if writable path then (fs(path \<mapsto> old @ content @ [char_of (10 :: nat)]), True) else (fs, False))"

section \<open>The application\<close>

record hash_app =
  hnode :: core
  hfiles :: files
  hscreen :: "string list"

definition hsay :: "string list \<Rightarrow> hash_app \<Rightarrow> hash_app" where
  "hsay ls a = a\<lparr>hscreen := hscreen a @ ls\<rparr>"

definition hwrite :: "(string \<Rightarrow> bool) \<Rightarrow> string \<Rightarrow> string \<Rightarrow> hash_app \<Rightarrow> hash_app \<times> bool" where
  "hwrite writable name content a =
     (let (fs, ok) = append_to_file writable name content (hfiles a) in
      (a\<lparr>hfiles := fs, hnode := see_files fs (hnode a)\<rparr>, ok))"

definition NETWORK_SHARDING_ID :: string where "NETWORK_SHARDING_ID = ''sharding_xx''"

definition hash_setup_node ::
    "codecs \<Rightarrow> key_ops \<Rightarrow> host \<Rightarrow> port \<times> port \<Rightarrow> bytes
      \<Rightarrow> nodes_map \<Rightarrow> (peer_id_string \<times> multiaddr_string) list \<Rightarrow> files \<Rightarrow> loop_state option" where
  "hash_setup_node cd ko h pp protobuf boot order fs =
     Option.bind (deterministic_config ko protobuf pp boot) (\<lambda>cfg.
     Option.bind (with_gossipsub (\<lambda>_. True) GossipDefault allow_gossip
         (with_rpc RpcDefault echo_rpc (with_config cfg)))
       (\<lambda>b. build_unwrap Tokio cd h order
         (with_sharding NETWORK_SHARDING_ID (file_storage fs)
           (with_replication (ReplCustom 150 (Some 10) 5 Eventual 2) b))))"

section \<open>The task that stores incoming data\<close>

text \<open>Exactly two words: the name of the file and its content. Errors are ignored.\<close>

definition store_pair :: "(string \<Rightarrow> bool) \<Rightarrow> string \<Rightarrow> hash_app \<Rightarrow> hash_app" where
  "store_pair writable text a =
     (case split_on '' '' text of
        [file_name, content] \<Rightarrow> fst (hwrite writable file_name content a)
      | _ \<Rightarrow> a)"

text \<open>The flag is \<open>False\<close> where the task panics: the text of the data is its first part.\<close>

definition store_first :: "(string \<Rightarrow> bool) \<Rightarrow> string list \<Rightarrow> hash_app \<Rightarrow> hash_app \<times> bool" where
  "store_first writable data a =
     (case index data 0 of None \<Rightarrow> (a, False) | Some text \<Rightarrow> (store_pair writable text a, True))"

definition hash_event ::
    "codecs \<Rightarrow> formats \<Rightarrow> (string \<Rightarrow> bool) \<Rightarrow> network_event \<Rightarrow> hash_app \<Rightarrow> hash_app \<times> bool" where
  "hash_event cd fm writable ev a =
     (case ev of
        IncomingForwardedData data source \<Rightarrow>
          store_first writable data
            (hsay [''recieved forwarded data: '' @ debug_strings fm data @ '' from peer: ''
                     @ peer_str cd source] a)
      | ReplicaDataIncoming data network _ _ _ source \<Rightarrow>
          (let a1 = hsay [''recieved replica data: '' @ debug_strings fm data
                            @ '' from shard peer: '' @ peer_str cd source] a in
           case consume_repl_data network (hnode a1) of
             (c, Some repl_data) \<Rightarrow> store_first writable (rdata repl_data) (a1\<lparr>hnode := c\<rparr>)
           | (c, None) \<Rightarrow> (hsay [''Error: No message in replica buffer''] (a1\<lparr>hnode := c\<rparr>), True))
      | _ \<Rightarrow> (a, True))"

definition hash_listener_turn ::
    "codecs \<Rightarrow> formats \<Rightarrow> (string \<Rightarrow> bool) \<Rightarrow> hash_app \<Rightarrow> hash_app \<times> bool" where
  "hash_listener_turn cd fm writable a =
     (case next_event (hnode a) of
        (c, None) \<Rightarrow> (a\<lparr>hnode := c\<rparr>, True)
      | (c, Some ev) \<Rightarrow> hash_event cd fm writable ev (a\<lparr>hnode := c\<rparr>))"

section \<open>The menu\<close>

definition quoted :: "string \<Rightarrow> string" where
  "quoted s = [CHR 0x27] @ s @ [CHR 0x27]"

definition hash_shard_command ::
    "formats \<Rightarrow> env \<Rightarrow> (string \<Rightarrow> bool) \<Rightarrow> string list \<Rightarrow> hash_app \<Rightarrow> hash_app option" where
  "hash_shard_command fm env writable data a =
     (case data of
        key # file_name # rest1 # rest \<Rightarrow>
          (let shard_data = join_with '' '' (file_name # rest1 # rest);
               a1 = hsay [''Sharding data with key '' @ quoted key @ '': '' @ shard_data
                            @ '' to file '' @ quoted file_name] a in
           case shard hash_locate env key [shard_data] (hnode a1) of
             (c, Inr (Some answer)) \<Rightarrow>
               Option.bind (index answer 0) (\<lambda>d0.
                 (let a2 = hsay [''The data to shard is '' @ quoted (from_utf8_lossy d0) @ ''.'',
                      ''It matches the hash of the shard of the current node and will be stored locally.'']
                        (a1\<lparr>hnode := c\<rparr>);
                      (a3, ok) = hwrite writable file_name (from_utf8_lossy d0) a2 in
                  Some (if ok then a3
                        else hsay [''Failed to save data to file: '' @ io_error fm (storage_path file_name)] a3)))
           | (c, Inr None) \<Rightarrow>
               Some (hsay [''Successfully placed data in the right shard.''] (a1\<lparr>hnode := c\<rparr>))
           | (c, Inl e) \<Rightarrow> Some (hsay [''Sharding failed: '' @ error_text e] (a1\<lparr>hnode := c\<rparr>)))
      | _ \<Rightarrow> Some (hsay [''Error: '' @ quoted ''shard''
                @ '' command requires at least a key, file name, and data.''] a))"

definition hash_fetch_command ::
    "env \<Rightarrow> string list \<Rightarrow> hash_app \<Rightarrow> hash_app" where
  "hash_fetch_command env data a =
     (case data of
        key # file_name # _ \<Rightarrow>
          (let a1 = hsay [''Requesting data with key '' @ quoted key @ '': '' @ file_name] a in
           case fetch hash_locate env key [file_name] (hnode a1) of
             (c, Inr (Some answer)) \<Rightarrow>
               hsay
                 ((case answer of
                     [] \<Rightarrow> [''The remote node does not have the data stored.'']
                   | d0 # _ \<Rightarrow>
                       [''The response data is:'' @ [char_of (10 :: nat)] @ '' ''
                          @ quoted (join_with '', ''
                              (split_whitespace (trim_char (CHR 0x27) (from_utf8_lossy d0))))])
                  @ [''Successfully pulled data from the network.'']) (a1\<lparr>hnode := c\<rparr>)
           | (c, Inr None) \<Rightarrow> hsay [''Data exists locally on node.''] (a1\<lparr>hnode := c\<rparr>)
           | (c, Inl e) \<Rightarrow> hsay [''Fetching failed: '' @ error_text e] (a1\<lparr>hnode := c\<rparr>))
      | _ \<Rightarrow> hsay [''Error: '' @ quoted ''fetch''
                @ '' command requires at least a key and file name.''] a)"

text \<open>\<open>read_to_string\<close> fails on a file that is missing or not text.\<close>

definition hash_read_command :: "formats \<Rightarrow> string list \<Rightarrow> hash_app \<Rightarrow> hash_app" where
  "hash_read_command fm data a =
     (case data of
        file_name # _ \<Rightarrow>
          (let a1 = hsay [''Reading data from file: '' @ file_name] a in
           case Option.bind (hfiles a (storage_path file_name)) from_utf8 of
             Some contents \<Rightarrow> hsay (map (\<lambda>line. ''- '' @ line) (lines_of contents)) a1
           | None \<Rightarrow> hsay [''Error reading from file: '' @ io_error fm (storage_path file_name)] a1)
      | [] \<Rightarrow> hsay [''Error: '' @ quoted ''read'' @ '' command requires a file name.''] a)"

text \<open>One input line; the flag says whether the menu goes on.\<close>

definition hash_menu ::
    "formats \<Rightarrow> env \<Rightarrow> (string \<Rightarrow> bool) \<Rightarrow> string \<Rightarrow> hash_app \<Rightarrow> (hash_app \<times> bool) option" where
  "hash_menu fm env writable input a =
     (case words_of input of
        [] \<Rightarrow> Some (hsay [no_command_line] a, True)
      | command # data \<Rightarrow>
          (if command = ''shard''
           then map_option (\<lambda>a'. (a', True)) (hash_shard_command fm env writable data a)
           else if command = ''fetch'' then Some (hash_fetch_command env data a, True)
           else if command = ''read'' then Some (hash_read_command fm data a, True)
           else if command = ''exit'' then Some (hsay [goodbye_line] a, False)
           else Some (hsay [unknown_line command] a, True)))"

section \<open>The whole program\<close>

text \<open>Which shard a node joins.\<close>

definition hash_join :: "codecs \<Rightarrow> env \<Rightarrow> string \<Rightarrow> hash_app \<Rightarrow> hash_app option" where
  "hash_join cd env name a =
     Option.bind (hash_locate ''earth'') (\<lambda>shard_id_1.
     Option.bind (hash_locate ''mars'') (\<lambda>shard_id_2.
       (let join = (\<lambda>sid. let (c, r) = join_network cd env sid (hnode a); a1 = a\<lparr>hnode := c\<rparr> in
              if is_ok r then hsay [''Successfully joined shard: '' @ sid] a1 else a1) in
        Some (if name = ''Node 1'' then join shard_id_1
              else if name = ''Node 2'' \<or> name = ''Node 3'' then join shard_id_2 else a))))"

definition hash_usage :: "string list" where
  "hash_usage =
     [[char_of (10 :: nat)] @ ''==================='', ''Sharding Example Menu'', ''Usage:'',
      ''shard <key> <file> <data>          - Place data in appropriate shard'',
      ''Fetch <key> <file>                 - Request data from the network'',
      ''read <file>               - Read data stored locally on this shard'',
      ''exit                               - Exit the application'']"

text \<open>\<open>world\<close> is what the network task does to the shared node before the events of the setup
  are read.\<close>

definition hash_start ::
    "codecs \<Rightarrow> formats \<Rightarrow> key_ops \<Rightarrow> host \<Rightarrow> (core \<Rightarrow> core) \<Rightarrow> env \<Rightarrow> files
      \<Rightarrow> string \<Rightarrow> port \<times> port \<Rightarrow> port \<times> port \<Rightarrow> port \<times> port \<Rightarrow> peer_id \<times> peer_id \<Rightarrow> bytes
      \<Rightarrow> (peer_id_string \<times> multiaddr_string) list \<Rightarrow> hash_app option" where
  "hash_start cd fm ko h world env fs name ports_1 ports_2 ports_3 peer_ids keypair order =
     Option.bind
       (hash_setup_node cd ko h ports_1 keypair (two_bootnodes cd peer_ids ports_2 ports_3) order fs)
       (\<lambda>ls. let (c, ls') = report_setup cd fm (world (node ls)) in
          map_option (hsay hash_usage)
            (hash_join cd env name \<lparr>hnode = c, hfiles = fs, hscreen = ls'\<rparr>))"

definition hash_run ::
    "codecs \<Rightarrow> formats \<Rightarrow> (string \<Rightarrow> bool) \<Rightarrow> turn list \<Rightarrow> hash_app \<Rightarrow> (hash_app \<times> bool) option" where
  "hash_run cd fm writable turns a =
     run_turns (\<lambda>env input. hash_menu fm env writable input) (hash_listener_turn cd fm writable)
       (\<lambda>f a. a\<lparr>hnode := f (hnode a)\<rparr>) turns True a"

section \<open>Lemmas\<close>

lemma clean_word: "CHR 0x20 \<notin> set w \<Longrightarrow> clean '' '' w"
  by (rule clean_disjoint) auto

lemma words_of_clean: "w \<in> set (words_of input) \<Longrightarrow> clean '' '' w"
  by (simp add: words_of_def clean_word split_whitespace_words)

lemma hsay_simps [simp]:
  "hnode (hsay ls a) = hnode a" "hfiles (hsay ls a) = hfiles a"
  by (simp_all add: hsay_def)

lemma hwrite_files: "hfiles (fst (hwrite writable f w a)) = fst (append_to_file writable f w (hfiles a))"
  by (simp add: hwrite_def case_prod_beta)

lemma hwrite_storage:
  "local_storage (sharding (network_info (hnode (fst (hwrite writable f w a)))))
     = file_storage (hfiles (fst (hwrite writable f w a)))"
  by (simp add: hwrite_def case_prod_beta see_files_def)

text \<open>Only two words are kept.\<close>

lemma store_words:
  assumes "\<And>w. w \<in> set (f # ws) \<Longrightarrow> clean '' '' w"
  shows "store_pair writable (join_with '' '' (f # ws)) a
     = (case ws of [w] \<Rightarrow> fst (hwrite writable f w a) | _ \<Rightarrow> a)"
proof -
  have "split_on '' '' (join_with '' '' (f # ws)) = f # ws"
    by (rule space_sep.split_join) (use assms in auto)
  then show ?thesis by (simp add: store_pair_def split: list.split)
qed

lemma hash_locate_ascii: "hash_locate key = Some sid \<Longrightarrow> from_utf8_lossy sid = sid"
  by (auto simp: hash_locate_def from_utf8_lossy_ascii show_u64_ascii)

section \<open>Properties\<close>

text \<open>C33: Data that another node was told to place with \<open>shard <key> <file> <data>\<close> is accepted by the
  network task of its shard, and the listener keeps it exactly if it is a single word, appended as a
  line to the file; any longer text is dropped.\<close>

theorem forwarded_data_kept_iff_one_word:
  assumes "words_of input = ''shard'' # key # file # w # ws"
    and "hash_locate key = Some sid" "text = join_with '' '' (file # w # ws)" "utf8_valid text"
    and "event_queue (hnode a) = []"
  shows "(\<exists>ls'. handle_rpc_request cd peer ch (shard_message sid [text]) ls = Some ls'
      \<and> IncomingShardData sid peer [text] \<in> set (tasks (node ls')))
    \<and> hfiles (fst (hash_listener_turn cd fm writable
        (a\<lparr>hnode := handle_incoming_shard_data env sid peer [text] (hnode a)\<rparr>)))
      = (if ws = [] then fst (append_to_file writable file w (hfiles a)) else hfiles a)"
proof
  show "\<exists>ls'. handle_rpc_request cd peer ch (shard_message sid [text]) ls = Some ls'
      \<and> IncomingShardData sid peer [text] \<in> set (tasks (node ls'))"
    using hash_locate_ascii [OF assms(2)]
    by (simp add: handle_rpc_request_def shard_message_def index_def slice_from_def serve_forwarded_def
        rpc_flags_ascii rpc_flags_differ send_response_def make_call_def update_node_def spawn_def)
  have clean: "\<And>v. v \<in> set (file # w # ws) \<Longrightarrow> clean '' '' v"
    using words_of_clean [of _ input] assms(1) by auto
  have "store_pair writable text b = (case w # ws of [w] \<Rightarrow> fst (hwrite writable file w b) | _ \<Rightarrow> b)" for b
    unfolding assms(3) by (rule store_words) (rule clean)
  then have kept: "hfiles (store_pair writable text b)
       = (if ws = [] then fst (append_to_file writable file w (hfiles b)) else hfiles b)" for b
    by (simp add: hwrite_files split: list.split)
  show "hfiles (fst (hash_listener_turn cd fm writable
        (a\<lparr>hnode := handle_incoming_shard_data env sid peer [text] (hnode a)\<rparr>)))
      = (if ws = [] then fst (append_to_file writable file w (hfiles a)) else hfiles a)"
    using assms(4,5)
    by (simp add: hash_listener_turn_def forwarded_event hash_event_def store_first_def index_def kept)
qed

definition sample_hash :: hash_app where
  "sample_hash = \<lparr>hnode = sample_core 5, hfiles = Map.empty, hscreen = []\<rparr>"

theorem forwarded_data_kept_iff_one_word_witness:
  "\<exists>a. hfiles (fst (hash_listener_turn sample_codecs sample_formats (\<lambda>_. True) a)) = Map.empty
     \<and> hnode a = handle_incoming_shard_data silent_env ''544'' (PeerId ''p'') [''f a b''] (sample_core 5)"
proof -
  let ?a = "sample_hash\<lparr>hnode := handle_incoming_shard_data silent_env ''544'' (PeerId ''p'') [''f a b'']
      (hnode sample_hash)\<rparr>"
  have words: "words_of ''shard mars f a b'' = [''shard'', ''mars'', ''f'', ''a'', ''b'']"
    using words_of_join [of "[''shard'', ''mars'', ''f'', ''a'', ''b'']"]
    by (simp add: plain_word_def plain_char_def code_of_def)
  have sid: "hash_locate ''mars'' = Some ''544''" by code_simp
  have joined: "''f a b'' = join_with '' '' [''f'', ''a'', ''b'']" by simp
  have valid: "utf8_valid ''f a b''" by (rule ascii_utf8_valid) (simp add: ascii_def code_of_def)
  have "event_queue (hnode sample_hash) = []" by (simp add: sample_hash_def)
  from forwarded_data_kept_iff_one_word [OF words sid joined valid this, THEN conjunct2,
      of sample_codecs sample_formats "\<lambda>_. True" silent_env "PeerId ''p''"]
  have "hfiles (fst (hash_listener_turn sample_codecs sample_formats (\<lambda>_. True) ?a)) = hfiles sample_hash"
    by (simp only: list.distinct if_False)
  then show ?thesis by (intro exI [of _ ?a]) (simp add: sample_hash_def)
qed

text \<open>C35: A node answers a request for any path below, or beside, its directory, of any peer, with
  the content of the first file that is there: the key becomes part of the path as it is.\<close>

theorem shard_request_reads_any_path:
  assumes "local_storage (sharding (network_info (node ls))) = file_storage fs"
  shows "\<exists>ls'. handle_swarm_event cd now (Rpc_Request peer ch (fetch_message keys)) ls = Some ls'
     \<and> calls ls' = calls ls @ [RpcSendResponse ch
         (case find (\<lambda>k. fs (storage_path (from_utf8_lossy k)) \<noteq> None) keys of
            None \<Rightarrow> []
          | Some k \<Rightarrow> [the (fs (storage_path (from_utf8_lossy k)))])]"
proof -
  have fetched: "fetch_file fs keys = (case find (\<lambda>k. fs (storage_path (from_utf8_lossy k)) \<noteq> None) keys of
      None \<Rightarrow> [] | Some k \<Rightarrow> [the (fs (storage_path (from_utf8_lossy k)))])"
    by (induction keys) (auto simp: read_file_content_def split: option.split)
  have "slice_from (SHARD_RPC_REQUEST_FLAG # keys) 1 = Some keys" by (simp add: slice_from_def)
  then show ?thesis
    using fetched
    by (simp add: handle_swarm_event_def handle_rpc_request_def fetch_message_def index_def
        rpc_flags_ascii rpc_flags_differ serve_shard_request_def fetch_local_def assms Let_def
        send_response_def make_call_def file_storage.simps)
qed

definition sample_storing :: loop_state where
  "sample_storing = update_node (see_files [''storage/../secret'' \<mapsto> ''k'']) (loop_start (sample_core 5))"

theorem shard_request_reads_any_path_witness:
  "\<exists>ls'. handle_swarm_event sample_codecs 100
       (Rpc_Request (PeerId ''x'') 0 (fetch_message [''../secret''])) sample_storing = Some ls'
     \<and> calls ls' = [RpcSendResponse 0 [''k'']]"
proof -
  have "from_utf8_lossy ''../secret'' = ''../secret''"
    by (rule from_utf8_lossy_ascii) (simp add: ascii_def code_of_def)
  then show ?thesis
    using shard_request_reads_any_path [of sample_storing "[''storage/../secret'' \<mapsto> ''k'']"
        sample_codecs 100 "PeerId ''x''" 0 "[''../secret'']"]
    by (simp add: sample_storing_def update_node_def see_files_def storage_path_def loop_start_def)
qed

text \<open>A single word that was forwarded comes back: a later request for the file is answered
  with its old content and the word as a last line.\<close>

theorem forwarded_word_fetched_back:
  assumes "words_of input = [''shard'', key, file, w]" "utf8_valid (file @ '' '' @ w)"
    and "event_queue (hnode a) = []" "writable (storage_path file)" "from_utf8_lossy file = file"
    and "b = fst (hash_listener_turn cd fm writable (a\<lparr>hnode :=
           handle_incoming_shard_data env sid peer [file @ '' '' @ w] (hnode a)\<rparr>))"
    and "node ls = hnode b"
  shows "\<exists>ls'. handle_rpc_request cd asker ch (fetch_message [file]) ls = Some ls'
     \<and> calls ls' = calls ls @ [RpcSendResponse ch
         [(case hfiles a (storage_path file) of None \<Rightarrow> [] | Some old \<Rightarrow> old) @ w @ [char_of (10 :: nat)]]]"
proof -
  let ?text = "join_with '' '' [file, w]"
  have clean: "\<And>v. v \<in> set [file, w] \<Longrightarrow> clean '' '' v"
    using words_of_clean [of _ input] assms(1) by auto
  have "store_pair writable ?text c = fst (hwrite writable file w c)" for c
    using store_words [of "file" "[w]" "writable" "c"] clean by simp
  then obtain c where c: "b = fst (hwrite writable file w c)" "hfiles c = hfiles a"
    using assms(2,3,6)
    by (auto simp: hash_listener_turn_def forwarded_event hash_event_def store_first_def index_def)
  have "local_storage (sharding (network_info (node ls))) = file_storage (hfiles b)"
    unfolding assms(7) c(1) by (rule hwrite_storage)
  moreover have "fetch_file (hfiles b) [file]
      = [(case hfiles a (storage_path file) of None \<Rightarrow> [] | Some old \<Rightarrow> old) @ w @ [char_of (10 :: nat)]]"
    using assms(4,5) by (simp add: c hwrite_files append_to_file_def read_file_content_def Let_def)
  moreover have "slice_from (SHARD_RPC_REQUEST_FLAG # [file]) 1 = Some [file]" by (simp add: slice_from_def)
  ultimately show ?thesis
    by (simp add: handle_rpc_request_def fetch_message_def index_def rpc_flags_ascii rpc_flags_differ
        serve_shard_request_def fetch_local_def Let_def send_response_def make_call_def
        file_storage.simps del: fetch_file.simps)
qed

theorem forwarded_word_fetched_back_witness:
  "\<exists>ls ls'. handle_rpc_request sample_codecs (PeerId ''q'') 0 (fetch_message [''f'']) ls = Some ls'
     \<and> calls ls' = calls ls @ [RpcSendResponse 0 [''a'' @ [char_of (10 :: nat)]]]"
proof -
  have 1: "words_of ''shard mars f a'' = [''shard'', ''mars'', ''f'', ''a'']"
    using words_of_join [of "[''shard'', ''mars'', ''f'', ''a'']"]
    by (simp add: plain_word_def plain_char_def code_of_def)
  have 2: "utf8_valid (''f'' @ '' '' @ ''a'')" by (rule ascii_utf8_valid) (simp add: ascii_def code_of_def)
  have 3: "event_queue (hnode sample_hash) = []" by (simp add: sample_hash_def)
  have 4: "from_utf8_lossy ''f'' = ''f''" by (rule from_utf8_lossy_ascii) (simp add: ascii_def code_of_def)
  have 5: "hfiles sample_hash (storage_path ''f'') = None" by (simp add: sample_hash_def)
  obtain b where b: "b = fst (hash_listener_turn sample_codecs fm (\<lambda>_. True) (sample_hash\<lparr>hnode :=
      handle_incoming_shard_data silent_env ''544'' (PeerId ''p'') [''f'' @ '' '' @ ''a''] (hnode sample_hash)\<rparr>))"
    by simp
  have 6: "node (loop_start (hnode b)) = hnode b" by (simp add: loop_start_def)
  from forwarded_word_fetched_back [where asker = "PeerId ''q''" and ch = 0, OF 1 2 3 _ 4 b 6]
  show ?thesis by (auto simp: 5)
qed

end
