(* ===== verification/Example_Range.thy ===== *)
theory Example_Range
  imports Example_Common Sample_Nodes
begin

text \<open>
  The range-based sharding example (\<open>examples/sharding/range-based/src/main.rs\<close>): a node
  whose shard storage is a queue of texts \<open>key-->value\<close> that it shares with the network
  task, a task that stores forwarded data, and a menu to place, fetch and read data.

  The storage object inside the node and the queue of the application are one object behind
  a lock: \<open>set_store\<close> changes both. The prompt is not part of the screen.
\<close>

section \<open>Storage\<close>

definition arrow :: string where "arrow = ''-->''"

text \<open>\<open>fetch_data\<close>: \<open>None\<close> where it panics, on no key at all and on a matching text without an
  arrow.\<close>

definition range_fetch :: "string list \<Rightarrow> byte_vector \<Rightarrow> byte_vector option" where
  "range_fetch buf key =
     Option.bind (index key 0) (\<lambda>k.
       (case find (\<lambda>data. prefix (from_utf8_lossy k) data) buf of
          None \<Rightarrow> Some []
        | Some data \<Rightarrow> map_option (\<lambda>part. [part]) (index (split_on arrow data) 1)))"

primcorec queue_storage :: "string list \<Rightarrow> shard_storage" where
  "queue_storage buf =
     Storage (\<lambda>key. map_option (\<lambda>answer. (answer, queue_storage buf)) (range_fetch buf key))"

record range_app =
  rg_node :: core
  rg_buffer :: "string list"
  rg_screen :: "string list"

definition set_store :: "string list \<Rightarrow> range_app \<Rightarrow> range_app" where
  "set_store buf a =
     (let c = rg_node a in
      a\<lparr>rg_buffer := buf, rg_node := c\<lparr>network_info := (network_info c)\<lparr>sharding :=
          (sharding (network_info c))\<lparr>local_storage := queue_storage buf\<rparr>\<rparr>\<rparr>\<rparr>)"

definition push_store :: "string \<Rightarrow> range_app \<Rightarrow> range_app" where
  "push_store text a = set_store (rg_buffer a @ [text]) a"

definition rsay :: "string list \<Rightarrow> range_app \<Rightarrow> range_app" where
  "rsay ls a = a\<lparr>rg_screen := rg_screen a @ ls\<rparr>"

section \<open>Setting up\<close>

definition RANGE_SHARDING_ID :: string where "RANGE_SHARDING_ID = ''sharding_xx''"

definition range_setup_node ::
    "codecs \<Rightarrow> key_ops \<Rightarrow> host \<Rightarrow> port \<times> port \<Rightarrow> bytes
      \<Rightarrow> nodes_map \<Rightarrow> (peer_id_string \<times> multiaddr_string) list \<Rightarrow> string list \<Rightarrow> loop_state option" where
  "range_setup_node cd ko h pp protobuf boot order buf =
     Option.bind (deterministic_config ko protobuf pp boot) (\<lambda>cfg.
     Option.bind (with_gossipsub (\<lambda>_. True) GossipDefault allow_gossip
         (with_rpc RpcDefault echo_rpc (with_config cfg)))
       (\<lambda>b. build_unwrap Tokio cd h order
         (with_sharding RANGE_SHARDING_ID (queue_storage buf)
           (with_replication (ReplCustom 150 (Some 10) 5 Eventual 2) b))))"

text \<open>The ranges, by upper bound, and the shard each node joins.\<close>

definition shard_ranges :: "(u64 \<times> shard_id) list" where
  "shard_ranges = [(100, ''1''), (200, ''2''), (300, ''3'')]"

definition range_join :: "codecs \<Rightarrow> env \<Rightarrow> string \<Rightarrow> range_app \<Rightarrow> range_app" where
  "range_join cd env name a =
     (let join = (\<lambda>sid. let (c, r) = join_network cd env sid (rg_node a); a1 = a\<lparr>rg_node := c\<rparr> in
            if is_ok r then rsay [''Successfully joined shard: '' @ sid] a1 else a1) in
      if name = ''Node 1'' then join ''1''
      else if name = ''Node 2'' then join ''2''
      else if name = ''Node 3'' then join ''3'' else a)"

section \<open>The task that stores incoming data\<close>

text \<open>Only forwarded data is stored; the flag is \<open>False\<close> where the task panics.\<close>

definition range_listener_turn ::
    "codecs \<Rightarrow> formats \<Rightarrow> range_app \<Rightarrow> range_app \<times> bool" where
  "range_listener_turn cd fm a =
     (case next_event (rg_node a) of
        (c, Some (IncomingForwardedData data source)) \<Rightarrow>
          (let a1 = rsay [''Recieved forwarded data: '' @ debug_strings fm data @ '' from peer: ''
                            @ peer_str cd source] (a\<lparr>rg_node := c\<rparr>) in
           case index data 0 of None \<Rightarrow> (a1, False) | Some text \<Rightarrow> (push_store text a1, True))
      | (c, _) \<Rightarrow> (a\<lparr>rg_node := c\<rparr>, True))"

section \<open>The menu\<close>

definition in_quotes :: "string \<Rightarrow> string" where
  "in_quotes s = [CHR 0x27] @ s @ [CHR 0x27]"

definition bad_key_line :: string where
  "bad_key_line = ''Error: '' @ in_quotes ''key'' @ '' must be a u64''"

definition range_shard_command :: "env \<Rightarrow> string list \<Rightarrow> range_app \<Rightarrow> range_app option" where
  "range_shard_command env data a =
     (case data of
        w # d # rest \<Rightarrow>
          (case parse_u64 w of
             None \<Rightarrow> Some (rsay [bad_key_line] a)
           | Some key \<Rightarrow>
               (let shard_data = join_with '' '' (d # rest);
                    a1 = rsay [''Sharding data with key '' @ in_quotes (show_u64 key) @ '': ''
                                 @ shard_data @ ''...''] a in
                case shard (range_locate shard_ranges) env key [shard_data] (rg_node a1) of
                  (c, Inr (Some answer)) \<Rightarrow>
                    map_option
                      (\<lambda>d0. push_store (from_utf8_lossy d0)
                         (rsay [''The data to shard is '' @ in_quotes (from_utf8_lossy d0) @ ''.'',
                            ''It falls into the range of the current node and will be stored locally.'']
                           (a1\<lparr>rg_node := c\<rparr>)))
                      (index answer 0)
                | (c, Inr None) \<Rightarrow>
                    Some (rsay [''Successfully placed data in the right shard.''] (a1\<lparr>rg_node := c\<rparr>))
                | (c, Inl e) \<Rightarrow> Some (rsay [''Sharding failed: '' @ error_text e] (a1\<lparr>rg_node := c\<rparr>))))
      | _ \<Rightarrow> Some (rsay [''Error: '' @ in_quotes ''shard''
                @ '' command requires at least a key and data.''] a))"

definition range_fetch_command :: "env \<Rightarrow> string list \<Rightarrow> range_app \<Rightarrow> range_app option" where
  "range_fetch_command env data a =
     (case data of
        w # d # rest \<Rightarrow>
          (case parse_u64 w of
             None \<Rightarrow> Some (rsay [bad_key_line] a)
           | Some key \<Rightarrow>
               (let request = join_with '' '' (d # rest);
                    a1 = rsay [''Requesting data with key '' @ in_quotes (show_u64 key) @ '': '' @ request] a in
                case fetch (range_locate shard_ranges) env key [request] (rg_node a1) of
                  (c, Inr (Some answer)) \<Rightarrow>
                    map_option
                      (\<lambda>d0. rsay
                         [if d0 \<noteq> [] then ''The response data is '' @ in_quotes (from_utf8_lossy d0)
                          else ''The remote node does not have the data stored.'',
                          ''Successfully pulled data from the network.''] (a1\<lparr>rg_node := c\<rparr>))
                      (index answer 0)
                | (c, Inr None) \<Rightarrow> Some (rsay [''Data exists locally on node.''] (a1\<lparr>rg_node := c\<rparr>))
                | (c, Inl e) \<Rightarrow> Some (rsay [''Fetching failed: '' @ error_text e] (a1\<lparr>rg_node := c\<rparr>))))
      | _ \<Rightarrow> Some (rsay [''Error: '' @ in_quotes ''fetch''
                @ '' command requires at least a key and request data.''] a))"

text \<open>Reading empties the storage.\<close>

definition range_read_command :: "range_app \<Rightarrow> range_app" where
  "range_read_command a =
     rsay (''Local storage data:'' # map (\<lambda>d. ''- '' @ d) (rg_buffer a)) (set_store [] a)"

definition range_menu :: "env \<Rightarrow> string \<Rightarrow> range_app \<Rightarrow> (range_app \<times> bool) option" where
  "range_menu env input a =
     (case words_of input of
        [] \<Rightarrow> Some (rsay [no_command_line] a, True)
      | command # data \<Rightarrow>
          (if command = ''shard'' then map_option (\<lambda>a'. (a', True)) (range_shard_command env data a)
           else if command = ''fetch'' then map_option (\<lambda>a'. (a', True)) (range_fetch_command env data a)
           else if command = ''read'' then Some (range_read_command a, True)
           else if command = ''exit'' then Some (rsay [goodbye_line] a, False)
           else Some (rsay [unknown_line command] a, True)))"

section \<open>The whole program\<close>

definition range_usage :: "string list" where
  "range_usage =
     [[char_of (10 :: nat)] @ ''==================='', ''Sharding Example Menu'', ''Usage:'',
      ''shard <key> <data>          - Place data in appropriate shard'',
      ''Fetch <key> <request>       - Request data from the network'',
      ''read        '' @ replicate 4 (char_of (9 :: nat)) @ ''  - Read data stored locally on this shard'',
      ''exit                        - Exit the application'',
      [char_of (10 :: nat)] @ ''==================='']"

definition range_start ::
    "codecs \<Rightarrow> formats \<Rightarrow> key_ops \<Rightarrow> host \<Rightarrow> (core \<Rightarrow> core) \<Rightarrow> env
      \<Rightarrow> string \<Rightarrow> port \<times> port \<Rightarrow> port \<times> port \<Rightarrow> port \<times> port \<Rightarrow> peer_id \<times> peer_id \<Rightarrow> bytes
      \<Rightarrow> (peer_id_string \<times> multiaddr_string) list \<Rightarrow> range_app option" where
  "range_start cd fm ko h world env name ports_1 ports_2 ports_3 peer_ids keypair order =
     map_option
       (\<lambda>ls. let (c, ls') = report_setup cd fm (world (node ls)) in
          rsay range_usage
            (range_join cd env name \<lparr>rg_node = c, rg_buffer = [], rg_screen = ls'\<rparr>))
       (range_setup_node cd ko h ports_1 keypair (two_bootnodes cd peer_ids ports_2 ports_3) order [])"

definition range_run ::
    "codecs \<Rightarrow> formats \<Rightarrow> turn list \<Rightarrow> range_app \<Rightarrow> (range_app \<times> bool) option" where
  "range_run cd fm turns a =
     run_turns range_menu (range_listener_turn cd fm) (\<lambda>f a. a\<lparr>rg_node := f (rg_node a)\<rparr>) turns True a"

section \<open>Lemmas\<close>

lemma range_fetch_panics_iff:
  "range_fetch buf keys = None \<longleftrightarrow> keys = []
     \<or> (\<exists>d. find (\<lambda>data. prefix (from_utf8_lossy (hd keys)) data) buf = Some d
            \<and> length (split_on arrow d) = 1)"
proof (cases keys)
  case (Cons k ks)
  have "index (split_on arrow d) 1 = None \<longleftrightarrow> length (split_on arrow d) = 1" for d
    using split_on_nonempty [of arrow d] by (cases "split_on arrow d") (auto simp: index_def)
  then show ?thesis
    by (auto simp: Cons range_fetch_def index_def [of "k # ks"] split: option.split)
qed (simp add: range_fetch_def index_def)

lemma storage_request:
  assumes "local_storage (sharding (network_info (node ls))) = queue_storage buf"
  shows "handle_rpc_request cd peer ch (fetch_message keys) ls
     = map_option (\<lambda>answer. send_response ch answer (ls\<lparr>node := node ls\<rparr>)) (range_fetch buf keys)"
proof -
  have "slice_from (SHARD_RPC_REQUEST_FLAG # keys) 1 = Some keys" by (simp add: slice_from_def)
  moreover have same: "(node ls)\<lparr>network_info := (network_info (node ls))\<lparr>sharding :=
      (sharding (network_info (node ls)))\<lparr>local_storage := queue_storage buf\<rparr>\<rparr>\<rparr> = node ls"
    by (simp add: assms [symmetric])
  ultimately show ?thesis
    by (cases "range_fetch buf keys")
      (simp_all add: handle_rpc_request_def fetch_message_def index_def rpc_flags_ascii
        rpc_flags_differ serve_shard_request_def fetch_local_def Let_def assms same queue_storage.simps)
qed

lemma find_last: "find P xs = None \<Longrightarrow> P y \<Longrightarrow> find P (xs @ [y]) = Some y"
  by (induction xs) (auto split: if_splits)

lemma range_sides [simp]:
  "rg_node (rsay l a) = rg_node a" "rg_buffer (rsay l a) = rg_buffer a"
  "rg_buffer (set_store b a) = b"
  "local_storage (sharding (network_info (rg_node (set_store b a)))) = queue_storage b"
  by (simp_all add: rsay_def set_store_def Let_def)

section \<open>Properties\<close>

text \<open>A request of a peer for shard data brings the network task of the example down when it
  names no key, and when the first stored text that begins with the key holds no arrow.\<close>

theorem shard_request_panics_range_node:
  assumes "local_storage (sharding (network_info (node ls))) = queue_storage buf"
  shows "handle_swarm_event cd now (Rpc_Request peer ch (fetch_message keys)) ls = None \<longleftrightarrow>
     keys = [] \<or> (\<exists>d. find (\<lambda>data. prefix (from_utf8_lossy (hd keys)) data) buf = Some d
                     \<and> length (split_on arrow d) = 1)"
  using storage_request [OF assms] by (simp add: handle_swarm_event_def range_fetch_panics_iff)

definition sample_range :: "string list \<Rightarrow> range_app" where
  "sample_range buf = set_store buf \<lparr>rg_node = sample_core 5, rg_buffer = [], rg_screen = []\<rparr>"

theorem shard_request_panics_range_node_witness:
  "handle_swarm_event sample_codecs 100 (Rpc_Request (PeerId ''x'') 0 (fetch_message [[]]))
     (loop_start (rg_node (sample_range [''ab'']))) = None"
  using shard_request_panics_range_node [of "loop_start (rg_node (sample_range [''ab'']))" "[''ab'']"]
  by (simp add: loop_start_def sample_range_def arrow_def)

text \<open>C34: Asking another node for data it does not have ends the program: the remote node answers
  with an empty vector, of which the menu reads the first element.\<close>

theorem missing_data_panics_requester:
  assumes "words_of input = ''fetch'' # k # d # rest" "parse_u64 k = Some key"
    and "request = join_with '' '' (d # rest)"
    and "range_locate shard_ranges key = Some sid" "shard_view (rg_node a) sid = Some nodes"
    and "core_peer (rg_node a) \<notin> nodes" "shuffled env nodes = p # ps"
    and "range_fetch remote [request] = Some answer"
    and "snd (query_network env (SendRpc (fetch_message [request]) p) (rg_node a))
           = Inr (SendRpc_Resp answer)"
  shows "range_menu env input a = None
     \<longleftrightarrow> (\<forall>data \<in> set remote. \<not> prefix (from_utf8_lossy request) data)"
proof -
  obtain c where c: "query_network env (SendRpc (fetch_message [request]) p) (rg_node a)
      = (c, Inr (SendRpc_Resp answer))"
    using assms(9) by (cases "query_network env (SendRpc (fetch_message [request]) p) (rg_node a)") auto
  have "fetch (range_locate shard_ranges) env key [request] (rg_node a) = (c, Inr (Some answer))"
    by (simp add: fetch_def assms(4,5,6,7) c)
  then have "range_menu env input a = None \<longleftrightarrow> answer = []"
    by (simp add: range_menu_def assms(1,2) range_fetch_command_def Let_def assms(3) [symmetric] index_def)
  also have "\<dots> \<longleftrightarrow> find (\<lambda>data. prefix (from_utf8_lossy request) data) remote = None"
    using assms(8) by (auto simp: range_fetch_def index_def split: option.splits if_splits)
  also have "\<dots> \<longleftrightarrow> (\<forall>data \<in> set remote. \<not> prefix (from_utf8_lossy request) data)"
    by (auto simp: find_None_iff)
  finally show ?thesis .
qed

definition empty_answers :: env where
  "empty_answers = \<lparr>chan_open = True, arrivals = (\<lambda>sid req n. [ToApplication sid (SendRpc_Resp [])]),
     clock = (\<lambda>_. 100), shuffled = (\<lambda>_. [PeerId ''r''])\<rparr>"

definition asking :: range_app where
  "asking = \<lparr>rg_node = set_shard_view [''2'' \<mapsto> {PeerId ''r''}] (sample_core 5), rg_buffer = [],
     rg_screen = []\<rparr>"

theorem missing_data_panics_requester_witness: "range_menu empty_answers ''fetch 150 x'' asking = None"
proof -
  have 1: "words_of ''fetch 150 x'' = [''fetch'', ''150'', ''x'']"
    using words_of_join [of "[''fetch'', ''150'', ''x'']"]
    by (simp add: plain_word_def plain_char_def code_of_def)
  have 2: "parse_u64 ''150'' = Some 150" by (simp add: parse_u64_def parse_uint_def code_of_def)
  have 3: "range_locate shard_ranges 150 = Some ''2''" by (simp add: range_locate_def shard_ranges_def)
  have node: "rg_node asking = set_shard_view [''2'' \<mapsto> {PeerId ''r''}] (sample_core 5)"
    by (simp add: asking_def)
  have 4: "shard_view (rg_node asking) ''2'' = Some {PeerId ''r''}"
    unfolding node by (simp add: shard_view_def set_shard_view_def)
  have 5: "core_peer (rg_node asking) \<notin> {PeerId ''r''}" unfolding node by (simp add: set_shard_view_def)
  have 6: "shuffled empty_answers {PeerId ''r''} = [PeerId ''r'']" by (simp add: empty_answers_def)
  have 7: "range_fetch [] [''x''] = Some []" by (simp add: range_fetch_def index_def)
  have "snd (send_to_network empty_answers req (rg_node asking)) = Some (stream_id_next (StreamId 0))"
    if "\<not> untracked req" for req
    unfolding send_to_network_def node using that
    by (subst send_accepts) (simp_all add: set_shard_view_def empty_answers_def)
  from query_answered [OF this, of "SendRpc (fetch_message [''x'']) (PeerId ''r'')" "SendRpc_Resp []"]
  have 8: "snd (query_network empty_answers (SendRpc (fetch_message [''x'']) (PeerId ''r'')) (rg_node asking))
      = Inr (SendRpc_Resp [])"
    by (simp add: empty_answers_def response_result_def node set_shard_view_def)
  have joined: "''x'' = join_with '' '' (''x'' # [])" by simp
  from missing_data_panics_requester [OF 1 2 joined 3 4 5 6 7 8] show ?thesis by simp
qed

text \<open>C25: Data forwarded as \<open>name-->value\<close> is stored, and a later request for the name is answered
  with the value, unless an older text of the node begins with the name.\<close>

theorem forwarded_pair_fetched_back:
  assumes "clean arrow name" "clean arrow val" "from_utf8_lossy name = name"
    and "utf8_valid (name @ arrow @ val)" "event_queue (rg_node a) = []"
    and "\<forall>data \<in> set (rg_buffer a). \<not> prefix name data"
    and "b = fst (range_listener_turn cd fm (a\<lparr>rg_node :=
           handle_incoming_shard_data env sid peer [name @ arrow @ val] (rg_node a)\<rparr>))"
    and "node ls = rg_node b"
  shows "\<exists>ls'. handle_rpc_request cd asker ch (fetch_message [name]) ls = Some ls'
     \<and> calls ls' = calls ls @ [RpcSendResponse ch [val]]"
proof -
  have b: "rg_buffer b = rg_buffer a @ [name @ arrow @ val]"
    "local_storage (sharding (network_info (rg_node b))) = queue_storage (rg_buffer b)"
    using assms(4,5)
    by (simp_all add: assms(7) range_listener_turn_def forwarded_event Let_def index_def push_store_def)
  have "find (\<lambda>data. prefix name data) (rg_buffer b) = Some (name @ arrow @ val)"
  proof -
    have "find (\<lambda>data. prefix name data) (rg_buffer a) = None"
      using assms(6) by (auto simp: find_None_iff)
    then show ?thesis unfolding b(1) by (rule find_last) simp
  qed
  moreover have "split_on arrow (name @ arrow @ val) = [name, val]"
    using assms(1,2) clean_split_append [of arrow name val] clean_split [of arrow val]
    by (simp add: arrow_def)
  ultimately have "range_fetch (rg_buffer b) [name] = Some [val]"
    using assms(3) by (simp add: range_fetch_def index_def)
  then show ?thesis
    using storage_request [of ls "rg_buffer b"] b(2) assms(8)
    by (simp add: send_response_def make_call_def)
qed

theorem forwarded_pair_fetched_back_witness:
  "\<exists>ls ls'. handle_rpc_request sample_codecs (PeerId ''q'') 0 (fetch_message [''k'']) ls = Some ls'
     \<and> calls ls' = calls ls @ [RpcSendResponse 0 [''v'']]"
proof -
  have 1: "clean arrow ''k''" "clean arrow ''v''" by (simp_all add: arrow_def)
  have 2: "from_utf8_lossy ''k'' = ''k''" by (rule from_utf8_lossy_ascii) (simp add: ascii_def code_of_def)
  have 3: "utf8_valid (''k'' @ arrow @ ''v'')"
    by (rule ascii_utf8_valid) (simp add: ascii_def code_of_def arrow_def)
  have 4: "event_queue (rg_node asking) = []" by (simp add: asking_def set_shard_view_def)
  have 5: "\<forall>data \<in> set (rg_buffer asking). \<not> prefix ''k'' data" by (simp add: asking_def)
  obtain b where b: "b = fst (range_listener_turn sample_codecs fm (asking\<lparr>rg_node :=
      handle_incoming_shard_data silent_env ''2'' (PeerId ''p'') [''k'' @ arrow @ ''v''] (rg_node asking)\<rparr>))"
    by simp
  have 6: "node (loop_start (rg_node b)) = rg_node b" by (simp add: loop_start_def)
  from forwarded_pair_fetched_back [where asker = "PeerId ''q''" and ch = 0, OF 1 2 3 4 5 b 6]
  show ?thesis by blast
qed

end
