(* ===== verification/Example_Mains.thy ===== *)
theory Example_Mains
  imports Example_Hash Example_Range Example_Repl
begin

text \<open>
  The \<open>main\<close> functions of the examples that run a group of three nodes: each decodes the
  three key pairs, and starts one node, chosen when it is compiled (\<open>which\<close>), with its own
  ports, the ports of the two others, and their identities. \<open>order\<close> is the iteration order
  of the bootnodes' table.
\<close>

record node_args =
  na_name :: string
  na_ports_1 :: "port \<times> port"
  na_ports_2 :: "port \<times> port"
  na_ports_3 :: "port \<times> port"
  na_peers :: "peer_id \<times> peer_id"
  na_keypair :: bytes

type_synonym three_ports = "(port \<times> port) \<times> (port \<times> port) \<times> (port \<times> port)"

text \<open>\<open>Keypair::from_protobuf_encoding(..).unwrap().public().to_peer_id()\<close>.\<close>

definition peer_of_key :: "key_ops \<Rightarrow> host \<Rightarrow> bytes \<Rightarrow> peer_id option" where
  "peer_of_key ko h key = map_option (to_peer_id h) (from_protobuf_encoding ko key)"

definition trio_args :: "key_ops \<Rightarrow> host \<Rightarrow> three_ports \<Rightarrow> nat \<Rightarrow> node_args option" where
  "trio_args ko h ps which =
     (case ps of (ports_1, ports_2, ports_3) \<Rightarrow>
        Option.bind (peer_of_key ko h node_1_keypair) (\<lambda>peer_1.
        Option.bind (peer_of_key ko h node_2_keypair) (\<lambda>peer_2.
        map_option (\<lambda>peer_3.
          (if which = 1
           then \<lparr>na_name = ''Node 1'', na_ports_1 = ports_1, na_ports_2 = ports_2, na_ports_3 = ports_3,
                 na_peers = (peer_2, peer_3), na_keypair = node_1_keypair\<rparr>
           else if which = 2
           then \<lparr>na_name = ''Node 2'', na_ports_1 = ports_2, na_ports_2 = ports_1, na_ports_3 = ports_3,
                 na_peers = (peer_1, peer_3), na_keypair = node_2_keypair\<rparr>
           else \<lparr>na_name = ''Node 3'', na_ports_1 = ports_3, na_ports_2 = ports_1, na_ports_3 = ports_2,
                 na_peers = (peer_1, peer_2), na_keypair = node_3_keypair\<rparr>))
          (peer_of_key ko h node_3_keypair))))"

definition hash_ports :: three_ports where
  "hash_ports = ((49999, 55111), (49998, 55123), (49997, 55124))"

definition range_ports :: three_ports where
  "range_ports = ((49799, 55711), (49798, 55723), (49797, 55724))"

definition eventual_ports :: three_ports where
  "eventual_ports = ((49595, 55093), (49193, 55091), (49194, 55092))"

definition cloning_ports :: three_ports where
  "cloning_ports = ((41555, 51003), (41153, 51001), (41154, 51002))"

definition strong_ports :: three_ports where
  "strong_ports = ((29555, 55009), (29153, 55008), (29154, 55007))"

definition http_ports :: three_ports where
  "http_ports = ((49555, 55003), (49153, 55001), (49154, 55002))"

definition ipfs_ports :: three_ports where
  "ipfs_ports = ((39555, 35003), (39153, 35001), (39154, 35002))"

definition hash_main where
  "hash_main cd fm ko h world env fs order which =
     Option.bind (trio_args ko h hash_ports which) (\<lambda>a.
       hash_start cd fm ko h world env fs (na_name a) (na_ports_1 a) (na_ports_2 a) (na_ports_3 a)
         (na_peers a) (na_keypair a) order)"

definition range_main where
  "range_main cd fm ko h world env order which =
     Option.bind (trio_args ko h range_ports which) (\<lambda>a.
       range_start cd fm ko h world env (na_name a) (na_ports_1 a) (na_ports_2 a) (na_ports_3 a)
         (na_peers a) (na_keypair a) order)"

definition eventual_main where
  "eventual_main cd fm ko h env world order which =
     Option.bind (trio_args ko h eventual_ports which) (\<lambda>a.
       eventual_start cd fm ko h env world (na_ports_1 a) (na_ports_2 a) (na_ports_3 a) (na_peers a)
         (na_keypair a) order)"

definition cloning_main where
  "cloning_main cd fm ko h env world order which =
     Option.bind (trio_args ko h cloning_ports which) (\<lambda>a.
       cloning_start cd fm ko h env world (na_ports_1 a) (na_ports_2 a) (na_ports_3 a) (na_peers a)
         (na_keypair a) order)"

definition strong_main where
  "strong_main cd fm ko h env world order which =
     Option.bind (trio_args ko h strong_ports which) (\<lambda>a.
       strong_start cd fm ko h env world (na_ports_1 a) (na_ports_2 a) (na_ports_3 a) (na_peers a)
         (na_keypair a) order)"

definition http_main where
  "http_main cd fm ko h env world order which =
     Option.bind (trio_args ko h http_ports which) (\<lambda>a.
       http_start cd fm ko h env world (na_ports_1 a) (na_ports_2 a) (na_ports_3 a) (na_peers a)
         (na_keypair a) order)"

definition ipfs_main where
  "ipfs_main cd fm ko h env world order which =
     Option.bind (trio_args ko h ipfs_ports which) (\<lambda>a.
       ipfs_start cd fm ko h env world (na_ports_1 a) (na_ports_2 a) (na_ports_3 a) (na_peers a)
         (na_keypair a) order)"

section \<open>Properties\<close>

definition trio_config :: "codecs \<Rightarrow> key_ops \<Rightarrow> node_args \<Rightarrow> bootstrap_config option" where
  "trio_config cd ko a =
     deterministic_config ko (na_keypair a) (na_ports_1 a)
       (two_bootnodes cd (na_peers a) (na_ports_2 a) (na_ports_3 a))"

definition example_ports :: "three_ports list" where
  "example_ports = [hash_ports, range_ports, eventual_ports, cloning_ports, strong_ports, http_ports,
     ipfs_ports]"

lemma example_ports_valid:
  "((a, b), (c, d), (e, f)) \<in> set example_ports \<Longrightarrow>
     list_all (\<lambda>p. MIN_PORT < p \<and> p < MAX_PORT) [a, b, c, d, e, f]"
  by (auto simp: example_ports_def hash_ports_def range_ports_def eventual_ports_def cloning_ports_def
      strong_ports_def http_ports_def ipfs_ports_def MIN_PORT_def MAX_PORT_def)

lemma config_keypair:
  assumes "deterministic_config ko key pp boot = Some cfg"
  shows "from_protobuf_encoding ko key = Some (bc_keypair cfg)"
proof -
  have "key_type_from ''ed25519'' = Some Ed25519" by code_simp
  with assms show ?thesis
    by (auto simp: deterministic_config_def generate_keypair_from_protobuf_def try_into_def
        with_bootnodes_def with_udp_def with_tcp_def split: option.splits if_splits)
qed

text \<open>In every example with three nodes, each node has the two others as bootnodes, under
  their identities and at the TCP ports they listen on.\<close>

theorem trio_nodes_know_each_other:
  assumes "ps \<in> set example_ports" "i \<in> {1, 2, 3}" "j \<in> {1, 2, 3}" "i \<noteq> j"
    and "trio_args ko h ps i = Some ai" "trio_args ko h ps j = Some aj"
    and "trio_config cd ko ai = Some ci" "trio_config cd ko aj = Some cj"
    and "inj (peer_str cd)" "distinct (map (peer_of_key ko h) [node_1_keypair, node_2_keypair, node_3_keypair])"
  shows "boot_nodes ci (peer_str cd (to_peer_id h (bc_keypair cj))) = Some (local_tcp (tcp_port cj))
     \<and> dom (boot_nodes ci) = peer_str cd ` {fst (na_peers ai), snd (na_peers ai)}"
proof -
  obtain a b c d e f where ps: "ps = ((a, b), (c, d), (e, f))" by (cases ps) auto
  then have valid: "list_all (\<lambda>p. MIN_PORT < p \<and> p < MAX_PORT) [a, b, c, d, e, f]"
    using example_ports_valid assms(1) by blast
  obtain p1 p2 p3 where peers: "peer_of_key ko h node_1_keypair = Some p1"
    "peer_of_key ko h node_2_keypair = Some p2" "peer_of_key ko h node_3_keypair = Some p3"
    using assms(5) by (auto simp: trio_args_def ps bind_eq_Some_conv)
  have differ: "p1 \<noteq> p2" "p1 \<noteq> p3" "p2 \<noteq> p3" using assms(10) peers by simp_all
  have ports: "MIN_PORT < fst (na_ports_1 x) \<and> fst (na_ports_1 x) < MAX_PORT
      \<and> MIN_PORT < snd (na_ports_1 x) \<and> snd (na_ports_1 x) < MAX_PORT"
    if "trio_args ko h ps k = Some x" for k x
    using that valid by (auto simp: trio_args_def ps peers split: if_splits)
  have ci: "boot_nodes ci = two_bootnodes cd (na_peers ai) (na_ports_2 ai) (na_ports_3 ai)"
    using deterministic_config_ports [OF assms(7) [unfolded trio_config_def]] ports [OF assms(5)] by blast
  have cj: "tcp_port cj = fst (na_ports_1 aj)"
    using deterministic_config_ports [OF assms(8) [unfolded trio_config_def]] ports [OF assms(6)] by blast
  have "peer_of_key ko h (na_keypair aj) = Some (to_peer_id h (bc_keypair cj))"
    using config_keypair [OF assms(8) [unfolded trio_config_def]] by (simp add: peer_of_key_def)
  moreover have "na_keypair aj = (if j = 1 then node_1_keypair else if j = 2 then node_2_keypair
      else node_3_keypair)"
    using assms(6) by (auto simp: trio_args_def ps peers)
  ultimately have me: "to_peer_id h (bc_keypair cj) = (if j = 1 then p1 else if j = 2 then p2 else p3)"
    using peers by (auto split: if_splits)
  have inj: "peer_str cd x = peer_str cd y \<longleftrightarrow> x = y" for x y
    using assms(9) by (auto dest: injD)
  have "boot_nodes ci (peer_str cd (to_peer_id h (bc_keypair cj))) = Some (local_tcp (tcp_port cj))"
    using assms(2-6) differ
    by (auto simp: ci cj me two_bootnodes_def inj trio_args_def ps peers)
  then show ?thesis by (auto simp: ci two_bootnodes_def)
qed

theorem trio_nodes_know_each_other_witness:
  "\<exists>(ci :: bootstrap_config) (cj :: bootstrap_config). boot_nodes ci (peer_str sample_codecs (to_peer_id sample_host (bc_keypair cj)))
       = Some (local_tcp (tcp_port cj))
     \<and> tcp_port cj = 49998"
proof -
  have member: "hash_ports \<in> set example_ports" by (simp add: example_ports_def)
  have "node_1_keypair ! 4 \<noteq> node_2_keypair ! 4" "node_1_keypair ! 4 \<noteq> node_3_keypair ! 4"
    "node_2_keypair ! 4 \<noteq> node_3_keypair ! 4"
    by (simp_all add: node_1_keypair_def node_2_keypair_def node_3_keypair_def)
  then have keys: "distinct [node_1_keypair, node_2_keypair, node_3_keypair]" by auto
  then have 1: "distinct (map (peer_of_key sample_keys sample_host) [node_1_keypair, node_2_keypair, node_3_keypair])"
    by (simp add: peer_of_key_def sample_keys_def sample_host_def)
  have 2: "inj (peer_str sample_codecs)"
    by (rule injI) (simp add: sample_codecs_def split: peer_id.splits)
  obtain a1 a2 where a: "trio_args sample_keys sample_host hash_ports 1 = Some a1"
    "trio_args sample_keys sample_host hash_ports 2 = Some a2" "na_ports_1 a2 = (49998, 55123)"
    by (simp add: trio_args_def hash_ports_def peer_of_key_def sample_keys_def)
  have key: "key_type_from ''ed25519'' = Some Ed25519" by code_simp
  have "\<exists>cfg. trio_config sample_codecs sample_keys x = Some cfg" for x
    by (simp add: trio_config_def deterministic_config_def generate_keypair_from_protobuf_def key
        try_into_def sample_keys_def)
  then obtain c1 c2 where c: "trio_config sample_codecs sample_keys a1 = Some c1"
    "trio_config sample_codecs sample_keys a2 = Some c2" by blast
  have "tcp_port c2 = 49998"
    using deterministic_config_ports [OF c(2) [unfolded trio_config_def]] a(3)
    by (simp add: MIN_PORT_def MAX_PORT_def)
  moreover have "boot_nodes c1 (peer_str sample_codecs (to_peer_id sample_host (bc_keypair c2)))
      = Some (local_tcp (tcp_port c2))"
    using trio_nodes_know_each_other [OF member _ _ _ a(1,2) c 2 1] by simp
  ultimately show ?thesis by blast
qed

end
