(* ===== verification/Spec2Isabelle.thy ===== *)
theory Spec2Isabelle
  imports Traffic_Props Sync_Props Shard_Props Config_Tests Core_Wrappers Shard_Views
    Lock_Discipline Example_Game Example_Share Example_Mains
begin

text \<open>
  A verification library for SwarmNL (\<open>src/swarm-nl\<close>), a layer over libp2p that gives an
  application requests with trackable responses, gossip, RPC, replication and sharding, and for
  the programs built on it (\<open>src/examples\<close>).

  \<^bold>\<open>The program.\<close> \<open>CoreBuilder::build\<close> (\<open>core/mod.rs\<close>) turns a \<open>BootstrapConfig\<close>
  (\<open>setup.rs\<close>, \<open>util.rs\<close>) into a \<open>Core\<close> and starts three tasks that share its state: the network
  task \<open>handle_async_operations\<close>, which serves requests of the application and events of the libp2p
  swarm, the task \<open>handle_network_response\<close>, which files responses, and one that joins the shard
  network. An operation of \<open>Core\<close> sends a request over a channel (\<open>send_to_network\<close>), and polls the
  response buffer for the answer (\<open>recv_from_network\<close>). Replication (\<open>core/replication.rs\<close>) and
  sharding (\<open>core/sharding.rs\<close>) are built on these two and on the gossip and RPC messages the
  network task recognises by their flags; for those it spawns further tasks. The examples are
  applications of a \<open>Core\<close>: each sets up one node of a group, watches its events in a task of its
  own, and serves a menu.

  \<^bold>\<open>The theories.\<close>
  \<^item> \<open>Prelude_Base\<close>, \<open>Rust_Text\<close>, \<open>BTree_Model\<close>: what the model uses of Rust's standard
    library: machine integers, slices that panic, UTF-8, splitting, joining, trimming, decimal
    numbers, \<open>BTreeSet\<close> and \<open>BTreeMap\<close>.
  \<^item> \<open>Net_Types\<close>: \<open>prelude.rs\<close> and the data types of \<open>core/prelude.rs\<close>.
  \<^item> \<open>Stream_Buffers\<close>: \<open>StreamId\<close>, the request and response buffers, \<open>DataQueue\<close>.
  \<^item> \<open>Repl_Data\<close>, \<open>Repl_Queue\<close>, \<open>Repl_Sync\<close>: \<open>replication.rs\<close>: the data and its order,
    the queues, and the operations that use the network, with the methods of \<open>Core\<close> for replication.
  \<^item> \<open>Shard_State\<close>, \<open>Shard_Ops\<close>: the views of the shards (\<open>util.rs\<close>) and \<open>sharding.rs\<close>, with the
    policies of the two sharding examples.
  \<^item> \<open>Boot_Config\<close>, \<open>Builder\<close>: \<open>setup.rs\<close>, the INI file, \<open>CoreBuilder\<close>.
  \<^item> \<open>Core_Net\<close>: the state of \<open>Core\<close>, requests and responses.
  \<^item> \<open>App_Requests\<close>, \<open>Event_Loop\<close>: the two halves of \<open>handle_async_operations\<close>, one definition
    for each request and each kind of event.
  \<^item> \<open>Node_Ops\<close>, \<open>Node_Machine\<close>, \<open>Send_Race\<close>, \<open>Lock_Order\<close>, \<open>Lock_Discipline\<close>: the operations
    and tasks as step relations; two senders, and any number of users of the locks of the replica
    buffer, interleaved.
  \<^item> \<open>Example_Common\<close>, \<open>Example_Game\<close>, \<open>Example_Hash\<close>, \<open>Example_Range\<close>, \<open>Example_Repl\<close>,
    \<open>Example_Share\<close>, \<open>Example_Mains\<close>: the example programs: the guessing game, the two sharding
    examples, the three replication examples with the HTTP client and IPFS, the echo server and
    file sharing, and the \<open>main\<close> functions that start a group of three.
  \<^item> \<open>Sample_Nodes\<close>: concrete nodes for the witnesses. \<open>Traffic_Props\<close>, \<open>Repl_Props\<close>,
    \<open>Sync_Props\<close>, \<open>Shard_Props\<close>, \<open>Loop_Props\<close>, \<open>Config_Props\<close>, \<open>Repl_Journey\<close> (from node to
    node) and this theory: the properties of the library; those of the examples and of the locks
    stand in their theories.
  \<^item> \<open>Repl_Group\<close>: a whole group of replicas under eventual consistency. \<open>Ballot\<close>, \<open>Strong_Group\<close>,
    \<open>Strong_Props\<close>: the same under strong consistency, as a refinement of an abstract vote on one
    message. \<open>Shard_Group\<close>, \<open>Shard_Views\<close>: a whole shard network and the views its nodes keep of it.
  \<^item> \<open>Core_Wrappers\<close>: the event type of the combined behaviour, getters, helpers of \<open>util.rs\<close>.
    \<open>Buffer_Tests\<close>, \<open>Config_Tests\<close>: the unit tests of \<open>replication.rs\<close>, \<open>setup.rs\<close> and
    \<open>util.rs\<close>, and when they pass.

  \<^bold>\<open>How the code is read.\<close> A \<open>String\<close> and a \<open>Vec<u8>\<close> are both byte strings; a map or a set
  that the code only looks up is a HOL map or set; where its iteration order is visible, the list
  in that order is a parameter. Clones of a \<open>Core\<close> share their buffers, so the state is one record
  that is passed along, and a call of the swarm is an entry of the log \<open>calls\<close>. What libp2p, serde
  and base58 compute is a parameter (\<open>codecs\<close>, \<open>swarm\<close>, \<open>host\<close>, \<open>key_ops\<close>), as is what the rest of
  the world does during an operation (\<open>env\<close>: the channel, the responses that arrive, the clock).
  The callbacks of an application, the RPC handler and the gossip filter, are functions that may
  panic; its shard storage is an object that answers a key and goes on in a new state
  (\<open>shard_storage\<close>). In the examples the disk, the HTTP server, the IPFS daemon and the texts of
  \<open>Debug\<close> and of I/O errors are parameters too (\<open>formats\<close> and arguments), a screen is the list of the
  lines printed, and \<open>run_turns\<close> interleaves a menu with the task beside it and the network.
  An operation that runs while others run sees their effect only through \<open>env\<close>; the interleaving of
  whole operations, tasks and events is \<open>node_step\<close>, that of the nodes of a network, with the
  messages between them, \<open>group_step\<close> and \<open>strong_step\<close> for replicas and \<open>shard_step\<close> for shards.
  What these three leave out is said where they are: \<open>group_step\<close> has the replicating, receiving and
  consuming of data that gossip carries unchanged, but neither clones nor the periodic
  synchronisation; \<open>strong_step p\<close> has clones too, and takes any set of visible peers, of which
  nothing is assumed but that it is empty or has at least \<open>p\<close> members; \<open>shard_step\<close> has lost
  announcements, lost views and refused sends, and records in \<open>untold\<close> who misses whom for it.
  Two operations that the code runs in several
  locked parts are interleaved part by part: \<open>send_to_network\<close> in \<open>Send_Race\<close>, and the operations
  of the replica buffer in \<open>Lock_Order\<close> and \<open>Lock_Discipline\<close>. The two locked parts of \<open>events\<close> come to
  the same as one (\<open>events_logged_between_are_lost\<close>). A result \<open>None\<close> of a handler or task is a panic
  or a loop that never ends; a panic ends the network task, and the state it had reached by then is
  not kept. Sums of machine integers wrap, as in a release build.

  \<^bold>\<open>Bounds and fuel.\<close> Stream identifiers are words of 32 bits, clocks and seconds of 64 bits,
  ports and ping counts of 16 bits, with their wrap-around or saturation. No definition has fuel: the
  polling loop counts to ten and is total, and so are the loops of the examples that empty a queue
  or a buffer, by its length; the two eviction loops of the replica buffers can run for
  ever and are partial functions, proved total for every capacity above 0 (\<open>evict_loop_total\<close>,
  \<open>drop_loop_total\<close>) and undefined at 0.

  \<^bold>\<open>What the lemmas show.\<close> The interfaces are locales, each interpreted on the model:
  \<open>delimiter\<close> (the four separators), \<open>ordered_store\<close> (the B-trees and the replica queue),
  \<open>bounded_store\<close> (the two stream buffers), \<open>fifo\<close> (\<open>DataQueue\<close>), \<open>image_merge\<close> (the shard
  views), \<open>sharding_policy\<close> (the two policies), \<open>step_invariant\<close> (two invariants of the node, those of
  the groups of replicas, of the abstract vote and of the shard network). The
  properties build on their facts: what a reachable node keeps, what a request gets, what travels
  between nodes unchanged, how replica buffers and shard views converge, how many nodes hold data
  that strong consistency has confirmed, that the users of the locks
  finish, what a line typed at one node makes another one print or store, and where the code falls
  short of that.

  \<^bold>\<open>Not modelled.\<close> libp2p and the async runtimes; back-pressure of the two bounded channels;
  waiting for locks outside \<open>Lock_Order\<close> and \<open>Lock_Discipline\<close> (a lock held across a request, as in
  \<open>replicate_buffer\<close>, delays other tasks but changes no value here); the random shuffle and the
  random numbers of the game, which are parameters; what the library logs, the prompts of the
  examples and what their callbacks print inside the network task; the time that passes in a sleep;
  the features that choose which node a program runs; the integration tests of \<open>core/tests\<close>, which
  run two nodes over a real network, and the messages of the panics that unit tests expect.
\<close>

section \<open>Every reachable state of a node\<close>

text \<open>C1: In every state a built node can reach, its queues and buffers are within their bounds, the
  identifiers that wait for an answer all belong to tracked requests, and the replica queues are
  in order.\<close>

theorem reachable_node_bounded:
  assumes "build rt cd h nodes blocked b = (cs, Inr ls0)"
    and "(node_step cd')\<^sup>*\<^sup>* (Running ls0) (Running ls)"
  shows "length (event_queue (node ls)) \<le> MAX_QUEUE_ELEMENTS
     \<and> card (req_buffer (request_buffer (node ls))) \<le> req_size (request_buffer (node ls))
     \<and> length (resp_buffer (response_buffer (node ls))) \<le> resp_size (response_buffer (node ls))
     \<and> (\<forall>q \<in> {data_queue_1 ls, data_queue_2 ls, data_queue_3 ls, data_queue_4 ls}.
          length q \<le> MAX_QUEUE_ELEMENTS \<and> set q \<subseteq> req_buffer (request_buffer (node ls)))
     \<and> list_all (response_tracked (req_buffer (request_buffer (node ls)))) (out_channel ls)
     \<and> queues_ordered (replica_buffer (node ls))"
proof -
  have "node_inv (Running ls0)"
    using build_ok [OF assms(1)] loop_start_inv by (simp add: node_inv_def)
  then have "node_inv (Running ls)" using node_bounds.inv_steps assms(2) by blast
  then show ?thesis
    by (simp add: node_inv_def loop_inv_def core_inv_def traffic_inv_def queue_tracked_def tracked_ids_def)
qed

lemma sample_build: "\<exists>cs. build Tokio sample_codecs sample_host [] [] (sample_builder 5)
     = (cs, Inr (loop_start (sample_core 5)))"
  by (simp add: build_def build_swarm_def build_swarm_tokio_def start_listening_def sample_host_def
      sample_builder_def with_stream_size_def with_config_def Let_def sample_core_def)

definition sample_after_event :: loop_state where
  "sample_after_event =
     the (handle_swarm_event sample_codecs 0 (Listener_Error_Ev 3) (loop_start (sample_core 5)))"

theorem reachable_node_bounded_witness:
  "event_queue (node sample_after_event) = [ListenerError 3]
   \<and> queues_ordered (replica_buffer (node sample_after_event))"
proof -
  obtain cs where b: "build Tokio sample_codecs sample_host [] [] (sample_builder 5)
      = (cs, Inr (loop_start (sample_core 5)))" using sample_build by blast
  have ev: "handle_swarm_event sample_codecs 0 (Listener_Error_Ev 3) (loop_start (sample_core 5))
      = Some sample_after_event"
    by (simp add: sample_after_event_def handle_swarm_event_def)
  then have "node_step sample_codecs (Running (loop_start (sample_core 5))) (Running sample_after_event)"
    by (rule step_event)
  then have "(node_step sample_codecs)\<^sup>*\<^sup>* (Running (loop_start (sample_core 5))) (Running sample_after_event)"
    by (rule r_into_rtranclp)
  from reachable_node_bounded [OF b this] show ?thesis
    by (simp add: sample_after_event_def handle_swarm_event_def push_event_def dq_push_def
        MAX_QUEUE_ELEMENTS_def)
qed

section \<open>What the channels carry\<close>

text \<open>C27: Both channels are typed for any \<open>StreamData\<close>, but in every reachable state the one to the
  network task holds only requests and the one to the response task only responses: the
  branches in which the tasks ignore an item are never taken. The identifier of each is tracked,
  except for the requests that never are.\<close>

theorem channels_carry_their_kind:
  assumes "build rt cd h nodes blocked b = (cs, Inr ls0)"
    and "(node_step cd')\<^sup>*\<^sup>* (Running ls0) (Running ls)"
  shows "(\<forall>item \<in> set (app_channel (node ls)). \<exists>sid req. item = FromApplication sid req
           \<and> (untracked req \<or> sid \<in> req_buffer (request_buffer (node ls))))
     \<and> (\<forall>item \<in> set (out_channel ls). \<exists>sid r. item = ToApplication sid r
           \<and> sid \<in> req_buffer (request_buffer (node ls)))"
proof -
  have "node_inv (Running ls0)"
    using build_ok [OF assms(1)] loop_start_inv by (simp add: node_inv_def)
  then have "node_inv (Running ls)" using node_bounds.inv_steps assms(2) by blast
  then have "list_all (request_tracked (tracked_ids ls)) (app_channel (node ls))"
    "list_all (response_tracked (tracked_ids ls)) (out_channel ls)"
    by (simp_all add: node_inv_def loop_inv_def core_inv_def channel_tracked_def tracked_ids_def)
  moreover have "request_tracked ids item \<Longrightarrow>
      \<exists>sid req. item = FromApplication sid req \<and> (untracked req \<or> sid \<in> ids)" for ids item
    by (cases item) auto
  moreover have "response_tracked ids item \<Longrightarrow> \<exists>sid r. item = ToApplication sid r \<and> sid \<in> ids"
    for ids item by (cases item) auto
  ultimately show ?thesis by (auto simp: list_all_iff tracked_ids_def)
qed

definition sample_two_sent :: loop_state where
  "sample_two_sent =
     (loop_start (sample_core 5))\<lparr>node := fst (send_to_network silent_env (Echo ''b'')
        (fst (send_to_network silent_env (Echo ''a'') (sample_core 5))))\<rparr>"

theorem channels_carry_their_kind_witness:
  "\<exists>ls sid req sid' r. receive_request sample_codecs sample_swarm sample_two_sent = ls
     \<and> hd (app_channel (node ls)) = FromApplication sid req
     \<and> hd (out_channel ls) = ToApplication sid' r"
proof -
  let ?ls0 = "loop_start (sample_core 5)"
  let ?ls1 = "?ls0\<lparr>node := fst (send_to_network silent_env (Echo ''a'') (node ?ls0))\<rparr>"
  let ?ls2 = "?ls1\<lparr>node := fst (send_to_network silent_env (Echo ''b'') (node ?ls1))\<rparr>"
  let ?ls3 = "receive_request sample_codecs sample_swarm ?ls2"
  obtain cs where b: "build Tokio sample_codecs sample_host [] [] (sample_builder 5)
      = (cs, Inr ?ls0)" using sample_build by blast
  have two: "sample_two_sent = ?ls2" by (simp add: sample_two_sent_def loop_start_def)
  have "node_step sample_codecs (Running ?ls0) (Running ?ls1)" by (rule step_api [OF api_send])
  moreover have "node_step sample_codecs (Running ?ls1) (Running ?ls2)" by (rule step_api [OF api_send])
  moreover have "node_step sample_codecs (Running ?ls2) (Running ?ls3)" by (rule step_request)
  ultimately have r: "(node_step sample_codecs)\<^sup>*\<^sup>* (Running ?ls0) (Running ?ls3)"
    by (meson converse_rtranclp_into_rtranclp rtranclp.rtrancl_refl)
  have "app_channel (node ?ls3) \<noteq> [] \<and> out_channel ?ls3 \<noteq> []"
    by (simp add: loop_start_def send_to_network_def send_with_id_def channel_send_def take_id_def
        Let_def request_insert_def receive_request_def update_node_def respond_def
        split: if_splits)
  then have "hd (app_channel (node ?ls3)) \<in> set (app_channel (node ?ls3))"
    "hd (out_channel ?ls3) \<in> set (out_channel ?ls3)" by simp_all
  with channels_carry_their_kind [OF b r] show ?thesis unfolding two by blast
qed

section \<open>Joining a shard\<close>

text \<open>A node that announces itself in a shard is added to the view of every receiver of the message,
  which then sends the newcomer its own view.\<close>

theorem shard_join_spreads:
  assumes "peer_text_ok cd" "published topic (join_message cd joiner sid) msg"
    and "gossip_text (peer_str cd joiner)" "gossip_text sid"
  shows "\<exists>ls'. handle_gossip cd now msg ls = Some ls'
     \<and> members (shard_view (node ls')) s
         = (if s = sid then insert joiner (members (shard_view (node ls)) sid)
            else members (shard_view (node ls)) s)
     \<and> tasks (node ls') = tasks (node ls) @ [PublishShardState joiner]"
  using join_received [OF assms, of now ls]
  by (simp add: update_node_def update_shard_view_def set_shard_view_def shard_view_def spawn_def
      update_members)

theorem shard_join_spreads_witness:
  "\<exists>ls'. handle_gossip total_codecs 100
        (sample_gossip ''t'' (join_message total_codecs (PeerId ''p'') ''m'')) (loop_start (sample_core 5))
      = Some ls'
     \<and> PeerId ''p'' \<in> members (shard_view (node ls')) ''m''
     \<and> tasks (node ls') = [PublishShardState (PeerId ''p'')]"
  using shard_join_spreads [of total_codecs "''t''" "PeerId ''p''" "''m''"
      "sample_gossip ''t'' (join_message total_codecs (PeerId ''p'') ''m'')" 100
      "loop_start (sample_core 5)" "''m''"] by auto

section \<open>The network id\<close>

text \<open>C30: Nodes built with a network id of their own disconnect from each other: the identify protocol
  keeps announcing the default id.\<close>

theorem custom_network_id_disconnects:
  assumes "with_network_id protocol (with_config cfg) = Some b" "protocol \<noteq> DEFAULT_NETWORK_ID"
    and "build rt cd h nodes blocked b = (cs, Inr ls)"
    and "handle_identify peer (identify_protocol b) info ls = Some ls'"
  shows "calls ls' = [SwarmDisconnect peer]"
proof -
  have b: "b = (with_config cfg)\<lparr>cb_network_id := protocol\<rparr>"
    using assms(1) by (simp add: with_network_id_def split: if_splits)
  then have "identify_protocol b = DEFAULT_NETWORK_ID" "cb_network_id b = protocol"
    by (simp_all add: with_config_def)
  moreover have "ls = loop_start (initial_core h b)" using build_ok [OF assms(3)] by simp
  ultimately show ?thesis
    using assms(2,4)
    by (auto simp: handle_identify_def Let_def log_event_def update_node_def push_event_def loop_start_def
        initial_core_def initial_info_def make_call_def split: if_splits)
qed

theorem custom_network_id_disconnects_witness:
  "\<exists>b cs ls ls'. with_network_id ''/my/1.0'' (with_config (bootstrap_new sample_keys)) = Some b
     \<and> build Tokio sample_codecs sample_host [] [] b = (cs, Inr ls)
     \<and> handle_identify (PeerId ''p'') (identify_protocol b)
          \<lparr>public_key = [], listen_addrs = [''/a''], protocols = [], observed_addr = ''/b''\<rparr> ls = Some ls'
     \<and> calls ls' = [SwarmDisconnect (PeerId ''p'')]"
proof -
  let ?info = "\<lparr>public_key = [], listen_addrs = [''/a''], protocols = [], observed_addr = ''/b''\<rparr>"
  obtain b where b: "with_network_id ''/my/1.0'' (with_config (bootstrap_new sample_keys)) = Some b"
    by (simp add: with_network_id_def MIN_NETWORK_ID_LENGTH_def)
  obtain cs ls where l: "build Tokio sample_codecs sample_host [] [] b = (cs, Inr ls)"
    using b by (auto simp: with_network_id_def build_def build_swarm_def build_swarm_tokio_def
        start_listening_def sample_host_def with_config_def Let_def split: if_splits)
  obtain ls' where i: "handle_identify (PeerId ''p'') (identify_protocol b) ?info ls = Some ls'"
    by (cases "handle_identify (PeerId ''p'') (identify_protocol b) ?info ls")
      (auto simp: handle_identify_def index_def Let_def split: if_splits)
  have "calls ls' = [SwarmDisconnect (PeerId ''p'')]"
    by (rule custom_network_id_disconnects [OF b _ l i]) (simp add: DEFAULT_NETWORK_ID_def)
  with b l i show ?thesis by blast
qed

section \<open>Serving a pull\<close>

text \<open>What \<open>serves_pulls\<close> asks of the network is what the peer's network task does with the
  request.\<close>

lemma pull_request_served:
  assumes "utf8_valid rn" "pull_missing_data cd rn ids (replica_buffer (node peer)) = Some msgs"
  shows "handle_rpc_request cd from channel ([RPC_SYNC_PULL_FLAG, rn] @ ids) peer
     = Some (send_response channel msgs peer)"
  using assms
  by (simp add: handle_rpc_request_def index_def Let_def rpc_flags_ascii serve_sync_pull_def
      slice_from_def from_utf8_def)

end
